theory Spec2Isabelle
  imports Complex_Main "HOL-Library.Multiset"
begin

chapter \<open>The program\<close>

section \<open>Robust (Toeplitz) KronPCA: arrays and the errors of the numerical library\<close>

text \<open>
  The program is \<^verbatim>\<open>src/cca/kron_pca.py\<close>. Its floating-point numbers are modelled by
  the reals, its Python integers by \<open>int\<close> at the entry points and by \<open>nat\<close> where the
  code has already made sure they are not negative (array shapes, loop counters).
  An exception of Python or numpy is a value \<open>Inl e\<close> of the result type.
  The model is of the program under the versions of Python and numpy it was written
  for, in which \<^verbatim>\<open>collections.Hashable\<close> and \<^verbatim>\<open>np.int\<close> exist.
\<close>

datatype error = ValueError | IndexError | ZeroDivisionError | UnboundLocalError | LinAlgError

text \<open>
  A two-dimensional numpy array: its shape and its elements in row-major (C) order,
  which is what \<^verbatim>\<open>ravel()\<close> returns.
\<close>

record 'a ndarray =
  nrows :: nat
  ncols :: nat
  elems :: "'a list"

definition wf_ndarray :: "'a ndarray \<Rightarrow> bool" where
  "wf_ndarray M = (length (elems M) = nrows M * ncols M)"

definition entry :: "'a ndarray \<Rightarrow> nat \<Rightarrow> nat \<Rightarrow> 'a" where
  "entry M i j = elems M ! (i * ncols M + j)"

text \<open>The array of shape \<open>(r, c)\<close> whose entry \<open>(i, j)\<close> is \<open>f i j\<close>.\<close>

definition tabulate :: "nat \<Rightarrow> nat \<Rightarrow> (nat \<Rightarrow> nat \<Rightarrow> 'a) \<Rightarrow> 'a ndarray" where
  "tabulate r c f = \<lparr>nrows = r, ncols = c, elems = map (\<lambda>k. f (k div c) (k mod c)) [0..<r * c]\<rparr>"

text \<open>\<^verbatim>\<open>np.zeros((r, c))\<close>, for a shape already known not to be negative.\<close>

definition zeros :: "nat \<Rightarrow> nat \<Rightarrow> ('a::zero) ndarray" where
  "zeros r c = tabulate r c (\<lambda>i j. 0)"

text \<open>\<^verbatim>\<open>np.arange(n*n).reshape((n, n))\<close>.\<close>

definition arange_square :: "nat \<Rightarrow> nat ndarray" where
  "arange_square n = \<lparr>nrows = n, ncols = n, elems = [0..<n * n]\<rparr>"

text \<open>
  \<^verbatim>\<open>M[r0:r1, c0:c1]\<close> for bounds that are not negative: numpy clamps each bound to the
  length of its axis.
\<close>

definition slice :: "'a ndarray \<Rightarrow> nat \<Rightarrow> nat \<Rightarrow> nat \<Rightarrow> nat \<Rightarrow> 'a ndarray" where
  "slice M r0 r1 c0 c1 =
     tabulate (min r1 (nrows M) - min r0 (nrows M)) (min c1 (ncols M) - min c0 (ncols M))
       (\<lambda>i j. entry M (min r0 (nrows M) + i) (min c0 (ncols M) + j))"

text \<open>\<^verbatim>\<open>M.T\<close>, read in row-major order.\<close>

definition transpose_nd :: "'a ndarray \<Rightarrow> 'a ndarray" where
  "transpose_nd M = tabulate (ncols M) (nrows M) (\<lambda>i j. entry M j i)"

text \<open>\<^verbatim>\<open>M[r, :] = v\<close> for a vector \<open>v\<close> of the row's length.\<close>

definition set_row :: "'a ndarray \<Rightarrow> nat \<Rightarrow> 'a list \<Rightarrow> 'a ndarray" where
  "set_row M r v = tabulate (nrows M) (ncols M) (\<lambda>i j. if i = r then v ! j else entry M i j)"

text \<open>
  \<^verbatim>\<open>xs[idx]\<close> with an integer index array (here never negative): numpy raises IndexError
  when an index is out of bounds.
\<close>

definition take_indices :: "'a list \<Rightarrow> nat list \<Rightarrow> error + 'a list" where
  "take_indices xs idx =
     (if \<forall>k \<in> set idx. k < length xs then Inr (map (\<lambda>k. xs ! k) idx) else Inl IndexError)"

text \<open>\<^verbatim>\<open>xs.reshape((r, c))\<close>: ValueError unless the sizes agree.\<close>

definition reshape :: "'a list \<Rightarrow> nat \<Rightarrow> nat \<Rightarrow> error + 'a ndarray" where
  "reshape xs r c =
     (if length xs = r * c then Inr \<lparr>nrows = r, ncols = c, elems = xs\<rparr> else Inl ValueError)"

text \<open>
  \<^verbatim>\<open>xs.argsort()\<close>: the indices of \<open>xs\<close> in the order that sorts it. The order among
  equal values is that of a stable sort; the permutation sorted here has no two equal
  values whenever \<open>ps\<close> and \<open>pt\<close> are positive.
\<close>

definition argsort :: "nat list \<Rightarrow> nat list" where
  "argsort xs = sort_key (\<lambda>i. xs ! i) [0..<length xs]"

section \<open>The Pitsianis-Van Loan rearrangement\<close>

text \<open>
  \<^verbatim>\<open>pv_permutation(ps, pt)\<close>. The \<^verbatim>\<open>@memoized\<close> decorator only caches the returned pair,
  which no caller mutates, so the model recomputes it.
  \<^verbatim>\<open>reshape((ps*pt, ps*pt))\<close> raises ValueError for a negative \<open>ps*pt\<close>; past that check
  the square shapes \<open>pt**2\<close>, \<open>ps**2\<close> are not negative, \<^verbatim>\<open>range(pt)\<close> is empty for
  \<open>pt \<le> 0\<close>, and inside the loops \<open>ps \<ge> 0\<close>.
\<close>

definition pv_permutation :: "int \<Rightarrow> int \<Rightarrow> error + (nat list \<times> nat list)" where
  "pv_permutation ps pt =
     (if ps * pt < 0 then Inl ValueError
      else
        let s = nat ps; t = nat pt;
            I = arange_square (nat (ps * pt));
            I_perm0 = zeros (nat (pt * pt)) (nat (ps * ps));
            I_perm = fold (\<lambda>i. fold (\<lambda>j M.
                       let row_idx = i * t + j;
                           I_block = slice I (i * s) ((i + 1) * s) (j * s) ((j + 1) * s)
                       in set_row M row_idx (elems (transpose_nd I_block))) [0..<t]) [0..<t] I_perm0;
            perm = elems I_perm;
            perm_inv = argsort perm
        in Inr (perm, perm_inv))"

definition pv_rearrange :: "'a ndarray \<Rightarrow> int \<Rightarrow> int \<Rightarrow> error + 'a ndarray" where
  "pv_rearrange C ps pt =
     (case pv_permutation ps pt of
        Inl e \<Rightarrow> Inl e
      | Inr (perm, perm_inv) \<Rightarrow>
          (case take_indices (elems C) perm of
             Inl e \<Rightarrow> Inl e
           | Inr v \<Rightarrow> reshape v (nat (pt * pt)) (nat (ps * ps))))"

definition pv_rearrange_inv :: "'a ndarray \<Rightarrow> int \<Rightarrow> int \<Rightarrow> error + 'a ndarray" where
  "pv_rearrange_inv C ps pt =
     (case pv_permutation ps pt of
        Inl e \<Rightarrow> Inl e
      | Inr (perm, perm_inv) \<Rightarrow>
          (case take_indices (elems C) perm_inv of
             Inl e \<Rightarrow> Inl e
           | Inr v \<Rightarrow>
               (if ps * pt < 0 then Inl ValueError
                else reshape v (nat (ps * pt)) (nat (ps * pt)))))"

subsection \<open>The permutation in closed form\<close>

text \<open>
  Helper for the proofs: entry \<open>k\<close> of \<^verbatim>\<open>perm\<close>, read off the loops of \<open>pv_permutation\<close>
  (lemma \<open>pv_permutation_closed_form\<close> proves that the loops compute it).
\<close>

definition pv_index :: "nat \<Rightarrow> nat \<Rightarrow> nat \<Rightarrow> nat" where
  "pv_index s t k =
     (let r = k div (s * s); c = k mod (s * s)
      in (r div t * s + c mod s) * (s * t) + (r mod t * s + c div s))"

definition pv_perm :: "nat \<Rightarrow> nat \<Rightarrow> nat list" where
  "pv_perm s t = map (pv_index s t) [0..<t * t * (s * s)]"

text \<open>Helper for the proofs: the inverse of \<open>pv_index\<close> on \<open>{0..<ps\<^sup>2 * pt\<^sup>2}\<close>.\<close>

definition pv_index_inv :: "nat \<Rightarrow> nat \<Rightarrow> nat \<Rightarrow> nat" where
  "pv_index_inv s t m =
     (let row = m div (s * t); col = m mod (s * t)
      in (row div s * t + col div s) * (s * s) + (col mod s * s + row mod s))"

section \<open>The Toeplitz projector\<close>

text \<open>An arithmetic operation applied to every element, as in \<^verbatim>\<open>idx + 1\<close> or \<^verbatim>\<open>tau*M\<close>.\<close>

definition map_nd :: "('a \<Rightarrow> 'b) \<Rightarrow> 'a ndarray \<Rightarrow> 'b ndarray" where
  "map_nd f M = \<lparr>nrows = nrows M, ncols = ncols M, elems = map f (elems M)\<rparr>"

text \<open>
  \<^verbatim>\<open>np.diagonal(M, offset=offset)\<close>: the entries \<open>M[i, i + offset]\<close>, as many as fit in the
  array.
\<close>

definition diagonal :: "'a ndarray \<Rightarrow> int \<Rightarrow> 'a list" where
  "diagonal M offset =
     (if 0 \<le> offset
      then map (\<lambda>i. entry M i (i + nat offset)) [0..<min (nrows M) (ncols M - nat offset)]
      else map (\<lambda>i. entry M (i + nat (- offset)) i) [0..<min (nrows M - nat (- offset)) (ncols M)])"

text \<open>
  \<^verbatim>\<open>M[r, cols] = v\<close> for a row \<open>r\<close>, an array of column indices and a scalar \<open>v\<close>. The
  column indices \<open>build_P\<close> passes are entries of the index grid minus one, all within the
  row, so the IndexError of numpy for an index out of bounds cannot happen there.
\<close>

definition set_entries :: "'a ndarray \<Rightarrow> nat \<Rightarrow> nat list \<Rightarrow> 'a \<Rightarrow> 'a ndarray" where
  "set_entries M r cols v =
     tabulate (nrows M) (ncols M) (\<lambda>i j. if i = r \<and> j \<in> set cols then v else entry M i j)"

text \<open>
  \<^verbatim>\<open>build_P(pt)\<close>. \<^verbatim>\<open>np.zeros((2*pt - 1, pt**2))\<close> raises ValueError for a negative
  dimension, that is for \<open>pt \<le> 0\<close>; past it \<open>pt \<ge> 1\<close>, and \<open>offset + pt - 1\<close> and
  \<open>pt - |offset|\<close> are positive in the loop over \<^verbatim>\<open>range(-pt+1, pt)\<close>.
\<close>

definition build_P :: "int \<Rightarrow> error + real ndarray" where
  "build_P pt =
     (if 2 * pt - 1 < 0 then Inl ValueError
      else
        let P0 = zeros (nat (2 * pt - 1)) (nat (pt * pt));
            idx = map_nd (\<lambda>x. x + 1) (transpose_nd (arange_square (nat pt)))
        in Inr (fold (\<lambda>offset P.
                  let diag_idx = diagonal idx offset
                  in set_entries P (nat (offset + pt - 1)) (map (\<lambda>x. x - 1) diag_idx)
                       (1 / sqrt (real_of_int (pt - \<bar>offset\<bar>))))
                [- pt + 1..pt - 1] P0))"

text \<open>
  \<^verbatim>\<open>np.dot(A, B)\<close> for two-dimensional arrays: ValueError unless the inner dimensions
  agree.
\<close>

definition dot :: "real ndarray \<Rightarrow> real ndarray \<Rightarrow> error + real ndarray" where
  "dot A B =
     (if ncols A = nrows B
      then Inr (tabulate (nrows A) (ncols B)
                 (\<lambda>i j. sum_list (map (\<lambda>k. entry A i k * entry B k j) [0..<ncols A])))
      else Inl ValueError)"

text \<open>The identity matrix of side \<open>n\<close>.\<close>

definition eye :: "nat \<Rightarrow> real ndarray" where
  "eye n = tabulate n n (\<lambda>i j. if i = j then 1 else 0)"

text \<open>
  The columns \<^verbatim>\<open>diag_idx - 1\<close> that the loop of \<open>build_P\<close> writes for an offset: the
  \<open>offset\<close>-th diagonal of the index grid, minus one.
\<close>

definition diag_cols :: "nat \<Rightarrow> int \<Rightarrow> nat list" where
  "diag_cols t offset =
     map (\<lambda>x. x - 1) (diagonal (map_nd (\<lambda>x. x + 1) (transpose_nd (arange_square t))) offset)"

text \<open>The offset whose diagonal goes to row \<open>r\<close>: \<open>r = offset + pt - 1\<close>.\<close>

definition row_offset :: "nat \<Rightarrow> nat \<Rightarrow> int" where
  "row_offset t r = int r + 1 - int t"

section \<open>Proximal operators and the two solvers\<close>

text \<open>
  The routines of scipy and numpy.linalg that the program calls are not part of the
  repository; the model takes them as a parameter. \<open>scipy_svd\<close> is
  \<^verbatim>\<open>scipy.linalg.svd(M, full_matrices=False)\<close>, returning \<open>(U, s, Vh)\<close>;
  \<open>np_matrix_rank\<close> is \<^verbatim>\<open>np.linalg.matrix_rank\<close>; \<open>np_inv\<close> is \<^verbatim>\<open>np.linalg.inv\<close>,
  which raises LinAlgError on a singular matrix; \<open>np_slogdet\<close> is \<^verbatim>\<open>np.linalg.slogdet\<close>,
  returning the sign and the logarithm of the absolute value of the determinant.
\<close>

record linalg =
  scipy_svd :: "real ndarray \<Rightarrow> real ndarray \<times> real list \<times> real ndarray"
  np_matrix_rank :: "real ndarray \<Rightarrow> nat"
  np_inv :: "real ndarray \<Rightarrow> error + real ndarray"
  np_slogdet :: "real ndarray \<Rightarrow> real \<times> real"

text \<open>
  Elementwise \<^verbatim>\<open>A + B\<close>, \<^verbatim>\<open>A - B\<close> and \<^verbatim>\<open>tau*A\<close>. Wherever the solvers combine two
  arrays, both have the shape of the rearranged covariance, so numpy's broadcasting
  plays no part.
\<close>

definition add_nd :: "real ndarray \<Rightarrow> real ndarray \<Rightarrow> real ndarray" where
  "add_nd A B = tabulate (nrows A) (ncols A) (\<lambda>i j. entry A i j + entry B i j)"

definition sub_nd :: "real ndarray \<Rightarrow> real ndarray \<Rightarrow> real ndarray" where
  "sub_nd A B = tabulate (nrows A) (ncols A) (\<lambda>i j. entry A i j - entry B i j)"

definition scale_nd :: "real \<Rightarrow> real ndarray \<Rightarrow> real ndarray" where
  "scale_nd c A = map_nd (\<lambda>x. c * x) A"

text \<open>\<^verbatim>\<open>np.diag(s)\<close> for a vector \<open>s\<close>.\<close>

definition diag_nd :: "real list \<Rightarrow> real ndarray" where
  "diag_nd s = tabulate (length s) (length s) (\<lambda>i j. if i = j then s ! i else 0)"

definition soft_sv_threshold :: "linalg \<Rightarrow> real ndarray \<Rightarrow> real \<Rightarrow> error + real ndarray" where
  "soft_sv_threshold la M lambda_param =
     (case scipy_svd la M of
        (U, s, Vh) \<Rightarrow>
          let transformed_svs = map (\<lambda>x. max (x - lambda_param) 0) s
          in (case dot (diag_nd transformed_svs) Vh of
                Inl e \<Rightarrow> Inl e
              | Inr D \<Rightarrow> dot U D))"

text \<open>\<^verbatim>\<open>np.sign(x)*np.maximum(np.abs(x) - lambda_param, 0)\<close> on one number.\<close>

definition soft_threshold :: "real \<Rightarrow> real \<Rightarrow> real" where
  "soft_threshold lambda_param x = sgn x * max (\<bar>x\<bar> - lambda_param) 0"

definition soft_entrywise_threshold :: "real ndarray \<Rightarrow> real \<Rightarrow> real ndarray" where
  "soft_entrywise_threshold M lambda_param = map_nd (soft_threshold lambda_param) M"

text \<open>
  The step size of the unconstrained solver: a number, or an array holding the schedule
  (\<^verbatim>\<open>isinstance(tau, np.ndarray)\<close>).
\<close>

datatype step_size = Scalar real | Schedule "real list"

text \<open>
  The loop of \<open>prox_grad_robust_kron_pca\<close> over \<^verbatim>\<open>range(num_iter)\<close>; the state is
  \<open>(M_prev, S_prev, L_prev)\<close>. \<^verbatim>\<open>tau_vals[k]\<close> raises IndexError past the end of the
  schedule.
\<close>

fun kron_iterations ::
  "linalg \<Rightarrow> real ndarray \<Rightarrow> real \<Rightarrow> real \<Rightarrow> real list \<Rightarrow> nat list \<Rightarrow>
   real ndarray \<times> real ndarray \<times> real ndarray \<Rightarrow>
   error + (real ndarray \<times> real ndarray \<times> real ndarray)" where
  "kron_iterations la R lambda_L lambda_S tau_vals [] st = Inr st"
| "kron_iterations la R lambda_L lambda_S tau_vals (k # ks) (M_prev, S_prev, L_prev) =
     (if length tau_vals \<le> k then Inl IndexError
      else
        let tau = tau_vals ! k
        in (case soft_sv_threshold la (sub_nd M_prev S_prev) (tau * lambda_L) of
              Inl e \<Rightarrow> Inl e
            | Inr L \<Rightarrow>
                let S = soft_entrywise_threshold (sub_nd M_prev L_prev) (tau * lambda_S);
                    M = sub_nd (add_nd L S) (scale_nd tau (sub_nd (add_nd L S) R))
                in kron_iterations la R lambda_L lambda_S tau_vals ks (M, S, L)))"

text \<open>
  \<^verbatim>\<open>prox_grad_robust_kron_pca\<close>. \<^verbatim>\<open>np.ones(num_iter)\<close> raises ValueError for a negative
  count. After the loop \<open>L\<close> and \<open>S\<close> are the values of its last pass, which are also
  \<open>L_prev\<close> and \<open>S_prev\<close>; when the loop has not run they are unbound and \<^verbatim>\<open>L + S\<close>
  raises UnboundLocalError.
\<close>

definition prox_grad_robust_kron_pca ::
  "linalg \<Rightarrow> real ndarray \<Rightarrow> int \<Rightarrow> int \<Rightarrow> real \<Rightarrow> real \<Rightarrow> int \<Rightarrow> step_size \<Rightarrow>
   error + real ndarray" where
  "prox_grad_robust_kron_pca la sample_cov ps pt lambda_L lambda_S num_iter tau =
     (case pv_rearrange sample_cov ps pt of
        Inl e \<Rightarrow> Inl e
      | Inr R \<Rightarrow>
          let L_prev = R;
              S_prev = zeros (nrows R) (ncols R);
              M_prev = add_nd L_prev S_prev
          in (case (case tau of
                      Scalar x \<Rightarrow>
                        if num_iter < 0 then Inl ValueError else Inr (replicate (nat num_iter) x)
                    | Schedule v \<Rightarrow> Inr v) of
                Inl e \<Rightarrow> Inl e
              | Inr tau_vals \<Rightarrow>
                  (case kron_iterations la R lambda_L lambda_S tau_vals [0..<nat num_iter]
                          (M_prev, S_prev, L_prev) of
                     Inl e \<Rightarrow> Inl e
                   | Inr (M, S, L) \<Rightarrow>
                       if num_iter \<le> 0 then Inl UnboundLocalError
                       else pv_rearrange_inv (add_nd L S) ps pt)))"

subsection \<open>The Toeplitz-constrained solver\<close>

text \<open>\<^verbatim>\<open>M[r]\<close>: row \<open>r\<close> of a two-dimensional array, for a row index within the array.\<close>

definition row_of :: "'a ndarray \<Rightarrow> nat \<Rightarrow> 'a list" where
  "row_of M r = map (\<lambda>j. entry M r j) [0..<ncols M]"

text \<open>
  The inner loop over \<^verbatim>\<open>range(-pt+1, pt)\<close>: row \<open>j + pt - 1\<close> of \<open>S_tilde\<close> is overwritten
  in place with the thresholded difference of the rows of \<open>M_tilde_prev\<close> and
  \<open>L_tilde_prev\<close>.
\<close>

definition threshold_rows ::
  "int \<Rightarrow> real \<Rightarrow> real \<Rightarrow> real ndarray \<Rightarrow> real ndarray \<Rightarrow> real ndarray \<Rightarrow> real ndarray" where
  "threshold_rows pt tau lambda_S M_tilde_prev L_tilde_prev S_tilde =
     fold (\<lambda>j S.
        let cj = 1 / sqrt (real_of_int (pt - \<bar>j\<bar>));
            r = nat (j + pt - 1)
        in set_row S r
             (map (soft_threshold (tau * lambda_S * cj))
                (map2 (\<lambda>x y. x - y) (row_of M_tilde_prev r) (row_of L_tilde_prev r))))
       [- pt + 1..pt - 1] S_tilde"

text \<open>
  \<^verbatim>\<open>np.sqrt(np.mean((A - B)**2)) < tol\<close>. The mean of an empty array is nan in numpy, and
  every comparison with nan is false.
\<close>

definition rms_diff :: "real ndarray \<Rightarrow> real ndarray \<Rightarrow> real" where
  "rms_diff A B =
     sqrt (sum_list (map (\<lambda>x. x\<^sup>2) (elems (sub_nd A B))) / real (length (elems (sub_nd A B))))"

definition rms_below :: "real ndarray \<Rightarrow> real ndarray \<Rightarrow> real \<Rightarrow> bool" where
  "rms_below A B tol = (elems (sub_nd A B) \<noteq> [] \<and> rms_diff A B < tol)"

text \<open>
  The loop of \<open>prox_grad_robust_toeplitz_kron_pca\<close> over \<^verbatim>\<open>range(max_iter)\<close>. The state is
  \<open>(M_tilde_prev, S_tilde_prev, L_tilde_prev, cov_est)\<close>, with \<open>cov_est\<close> unbound (\<open>None\<close>)
  until the first convergence check. After the first pass \<open>S_tilde\<close> and \<open>S_tilde_prev\<close>
  are one array object; the code reads \<open>S_tilde_prev\<close> only before it overwrites the rows
  of \<open>S_tilde\<close>, so passing the value is exact. \<^verbatim>\<open>k % stop_cond_interval\<close> raises
  ZeroDivisionError for a zero interval; \<open>mod\<close> on \<open>int\<close> has Python's sign convention.
  Returning at the \<^verbatim>\<open>break\<close> leaves the remaining passes out.
\<close>

fun toeplitz_iterations ::
  "linalg \<Rightarrow> real ndarray \<Rightarrow> real ndarray \<Rightarrow> int \<Rightarrow> int \<Rightarrow> real \<Rightarrow> real \<Rightarrow> real \<Rightarrow> real \<Rightarrow>
   int \<Rightarrow> nat list \<Rightarrow>
   real ndarray \<times> real ndarray \<times> real ndarray \<times> real ndarray option \<Rightarrow>
   error + (real ndarray \<times> real ndarray \<times> real ndarray \<times> real ndarray option)" where
  "toeplitz_iterations la P R_tilde ps pt lambda_L lambda_S tau tol stop_cond_interval [] st = Inr st"
| "toeplitz_iterations la P R_tilde ps pt lambda_L lambda_S tau tol stop_cond_interval (k # ks)
     (M_tilde_prev, S_tilde_prev, L_tilde_prev, cov_est_prev) =
     (case soft_sv_threshold la (sub_nd M_tilde_prev S_tilde_prev) (tau * lambda_L) of
        Inl e \<Rightarrow> Inl e
      | Inr L_tilde \<Rightarrow>
          let S_tilde = threshold_rows pt tau lambda_S M_tilde_prev L_tilde_prev S_tilde_prev;
              M_tilde = sub_nd (add_nd L_tilde S_tilde)
                          (scale_nd tau (sub_nd (add_nd L_tilde S_tilde) R_tilde))
          in if stop_cond_interval = 0 then Inl ZeroDivisionError
             else if int k mod stop_cond_interval = 0 then
               (case dot (transpose_nd P) (add_nd L_tilde S_tilde) of
                  Inl e \<Rightarrow> Inl e
                | Inr PLS \<Rightarrow>
                    (case pv_rearrange_inv PLS ps pt of
                       Inl e \<Rightarrow> Inl e
                     | Inr cov_est \<Rightarrow>
                         if 0 < k then
                           (case cov_est_prev of
                              None \<Rightarrow> Inl UnboundLocalError
                            | Some prev \<Rightarrow>
                                if rms_below cov_est prev tol
                                then Inr (M_tilde, S_tilde, L_tilde, Some cov_est)
                                else toeplitz_iterations la P R_tilde ps pt lambda_L lambda_S tau tol
                                       stop_cond_interval ks (M_tilde, S_tilde, L_tilde, Some cov_est))
                         else toeplitz_iterations la P R_tilde ps pt lambda_L lambda_S tau tol
                                stop_cond_interval ks (M_tilde, S_tilde, L_tilde, Some cov_est)))
             else toeplitz_iterations la P R_tilde ps pt lambda_L lambda_S tau tol
                    stop_cond_interval ks (M_tilde, S_tilde, L_tilde, cov_est_prev))"

text \<open>
  \<^verbatim>\<open>np.nonzero(M)\<close>: the row indices and the column indices of the entries that are not
  zero, as two arrays; and \<^verbatim>\<open>np.sum\<close> of that pair, which adds up the elements of both.
\<close>

definition nonzero :: "real ndarray \<Rightarrow> nat list \<times> nat list" where
  "nonzero M =
     (let ks = filter (\<lambda>k. elems M ! k \<noteq> 0) [0..<nrows M * ncols M]
      in (map (\<lambda>k. k div ncols M) ks, map (\<lambda>k. k mod ncols M) ks))"

definition sum_index_arrays :: "nat list \<times> nat list \<Rightarrow> nat" where
  "sum_index_arrays p = sum_list (fst p) + sum_list (snd p)"

text \<open>
  \<^verbatim>\<open>prox_grad_robust_toeplitz_kron_pca\<close>, returning \<open>(cov_est, rank, sparsity)\<close>. When the
  loop has not run, \<open>L_tilde\<close> is unbound at the rank line. The last line divides by
  \<^verbatim>\<open>S_tilde.size\<close>, which is positive whenever \<open>ps\<close> is.
\<close>

definition prox_grad_robust_toeplitz_kron_pca ::
  "linalg \<Rightarrow> real ndarray \<Rightarrow> int \<Rightarrow> int \<Rightarrow> real \<Rightarrow> real \<Rightarrow> real \<Rightarrow> real \<Rightarrow> int \<Rightarrow> int \<Rightarrow>
   error + (real ndarray \<times> nat \<times> real)" where
  "prox_grad_robust_toeplitz_kron_pca la sample_cov ps pt lambda_L lambda_S tau tol max_iter
      stop_cond_interval =
     (case build_P pt of
        Inl e \<Rightarrow> Inl e
      | Inr P \<Rightarrow>
          (case pv_rearrange sample_cov ps pt of
             Inl e \<Rightarrow> Inl e
           | Inr R \<Rightarrow>
               (case dot P R of
                  Inl e \<Rightarrow> Inl e
                | Inr R_tilde \<Rightarrow>
                    let L_tilde_prev = R_tilde;
                        S_tilde_prev = zeros (nrows R_tilde) (ncols R_tilde);
                        M_tilde_prev = add_nd L_tilde_prev S_tilde_prev
                    in (case toeplitz_iterations la P R_tilde ps pt lambda_L lambda_S tau tol
                              stop_cond_interval [0..<nat max_iter]
                              (M_tilde_prev, S_tilde_prev, L_tilde_prev, None) of
                          Inl e \<Rightarrow> Inl e
                        | Inr (M_tilde, S_tilde, L_tilde, cov_est) \<Rightarrow>
                            if max_iter \<le> 0 then Inl UnboundLocalError
                            else
                              (case dot (transpose_nd P) L_tilde of
                                 Inl e \<Rightarrow> Inl e
                               | Inr PL \<Rightarrow>
                                   let rank = np_matrix_rank la PL;
                                       sparsity = real (sum_index_arrays (nonzero S_tilde)) /
                                                  real (nrows S_tilde * ncols S_tilde)
                                   in (case cov_est of
                                         None \<Rightarrow> Inl UnboundLocalError
                                       | Some c \<Rightarrow> Inr (c, rank, sparsity)))))))"

section \<open>Cross-validation and grid search\<close>

text \<open>
  A log-likelihood stored by the drivers: a number, or \<^verbatim>\<open>-np.inf\<close>. No other infinity and
  no nan arises from these two by addition and by division by a positive count.
\<close>

datatype loglik = NegInf | Fin real

text \<open>\<^verbatim>\<open>X[a:b]\<close> on the rows (bounds not negative) and \<^verbatim>\<open>np.concatenate((A, B), axis=0)\<close>.\<close>

definition rows_between :: "'a ndarray \<Rightarrow> nat \<Rightarrow> nat \<Rightarrow> 'a ndarray" where
  "rows_between X a b = slice X a b 0 (ncols X)"

definition concatenate_rows :: "'a ndarray \<Rightarrow> 'a ndarray \<Rightarrow> 'a ndarray" where
  "concatenate_rows A B = \<lparr>nrows = nrows A + nrows B, ncols = ncols A, elems = elems A @ elems B\<rparr>"

text \<open>
  The training and the test rows of fold \<open>cv_iter\<close>:
  \<^verbatim>\<open>np.concatenate((X[:cv_iter*fold_size], X[(cv_iter+1)*fold_size:]), axis=0)\<close> and
  \<^verbatim>\<open>X[cv_iter*fold_size : (cv_iter+1)*fold_size]\<close>.
\<close>

definition X_train_of :: "real ndarray \<Rightarrow> nat \<Rightarrow> nat \<Rightarrow> real ndarray" where
  "X_train_of X fold_size cv_iter =
     concatenate_rows (rows_between X 0 (cv_iter * fold_size))
       (rows_between X ((cv_iter + 1) * fold_size) (nrows X))"

definition X_test_of :: "real ndarray \<Rightarrow> nat \<Rightarrow> nat \<Rightarrow> real ndarray" where
  "X_test_of X fold_size cv_iter =
     rows_between X (cv_iter * fold_size) ((cv_iter + 1) * fold_size)"

text \<open>
  \<^verbatim>\<open>X.mean(axis=0)\<close>, \<^verbatim>\<open>X - mu\<close> for a row vector \<open>mu\<close>, and \<^verbatim>\<open>A/n\<close>. On an array with no
  rows numpy computes nan where the model divides by zero; the theorems about the
  covariances are stated for blocks that have rows.
\<close>

definition column_means :: "real ndarray \<Rightarrow> real list" where
  "column_means X =
     map (\<lambda>j. sum_list (map (\<lambda>i. entry X i j) [0..<nrows X]) / real (nrows X)) [0..<ncols X]"

definition subtract_row :: "real ndarray \<Rightarrow> real list \<Rightarrow> real ndarray" where
  "subtract_row X mu = tabulate (nrows X) (ncols X) (\<lambda>i j. entry X i j - mu ! j)"

definition divide_by :: "real ndarray \<Rightarrow> nat \<Rightarrow> real ndarray" where
  "divide_by A n = map_nd (\<lambda>x. x / real n) A"

text \<open>
  The two covariances of a fold. Both products are of an array with its own transpose,
  so \<^verbatim>\<open>np.dot\<close> cannot raise; the model writes the product out.
\<close>

definition gram :: "real ndarray \<Rightarrow> real ndarray" where
  "gram X = tabulate (ncols X) (ncols X)
     (\<lambda>i j. sum_list (map (\<lambda>k. entry X k i * entry X k j) [0..<nrows X]))"

definition cov_train_of :: "real ndarray \<Rightarrow> real ndarray" where
  "cov_train_of X_train =
     (let X_train_ctd = subtract_row X_train (column_means X_train)
      in divide_by (gram X_train_ctd) (nrows X_train))"

definition cov_test_of :: "real ndarray \<Rightarrow> real ndarray" where
  "cov_test_of X_test = divide_by (gram X_test) (nrows X_test)"

text \<open>\<^verbatim>\<open>np.sum(np.abs(A))\<close> and \<^verbatim>\<open>np.trace(A)\<close>.\<close>

definition sum_abs :: "real ndarray \<Rightarrow> real" where
  "sum_abs A = sum_list (map abs (elems A))"

definition trace_nd :: "real ndarray \<Rightarrow> real" where
  "trace_nd A = sum_list (map (\<lambda>i. entry A i i) [0..<min (nrows A) (ncols A)])"

text \<open>
  One pass of the loop of \<open>cross_validate_toeplitz_fit\<close>: what it stores at index
  \<open>cv_iter\<close> of the three result arrays, or the exception it raises.
\<close>

definition cv_fold ::
  "linalg \<Rightarrow> real ndarray \<Rightarrow> int \<Rightarrow> int \<Rightarrow> real \<Rightarrow> real \<Rightarrow> real \<Rightarrow> real \<Rightarrow> int \<Rightarrow> int \<Rightarrow>
   nat \<Rightarrow> nat \<Rightarrow> error + (loglik \<times> real \<times> real)" where
  "cv_fold la X_with_lags ps pt lambda_L lambda_S tau tol max_iter stop_cond_interval
      fold_size cv_iter =
     (let d = ncols X_with_lags;
          X_train = X_train_of X_with_lags fold_size cv_iter;
          X_test = X_test_of X_with_lags fold_size cv_iter;
          cov_train = cov_train_of X_train;
          cov_test = cov_test_of X_test
      in (case prox_grad_robust_toeplitz_kron_pca la cov_train ps pt lambda_L lambda_S tau tol
                max_iter stop_cond_interval of
            Inl e \<Rightarrow> Inl e
          | Inr (cov_reg_train, rank, sparsity) \<Rightarrow>
              if sum_abs cov_reg_train < 1 / 10 ^ 12 then Inr (NegInf, 0, 0)
              else
                (case np_inv la cov_reg_train of
                   Inl e \<Rightarrow> Inl e
                 | Inr cov_reg_train_inv \<Rightarrow>
                     let log_det_cov_reg_train = snd (np_slogdet la cov_reg_train);
                         num_samples = nrows X_test
                     in (case dot cov_reg_train_inv cov_test of
                           Inl e \<Rightarrow> Inl e
                         | Inr inv_cov_test \<Rightarrow>
                             let log_likelihood =
                                   - (1 / 2) * real num_samples *
                                     (real d * ln (2 * pi) + log_det_cov_reg_train + trace_nd inv_cov_test)
                             in Inr (Fin log_likelihood, real rank, sparsity)))))"

fun cv_loop ::
  "(nat \<Rightarrow> error + (loglik \<times> real \<times> real)) \<Rightarrow> nat list \<Rightarrow>
   loglik list \<times> real list \<times> real list \<Rightarrow> error + (loglik list \<times> real list \<times> real list)" where
  "cv_loop body [] st = Inr st"
| "cv_loop body (cv_iter # rest) (log_likelihood_vals, rank_vals, sparsity_vals) =
     (case body cv_iter of
        Inl e \<Rightarrow> Inl e
      | Inr (ll, rank, sparsity) \<Rightarrow>
          cv_loop body rest
            (log_likelihood_vals[cv_iter := ll], rank_vals[cv_iter := rank],
             sparsity_vals[cv_iter := sparsity]))"

text \<open>
  \<^verbatim>\<open>cross_validate_toeplitz_fit\<close>. \<^verbatim>\<open>len(X_with_lags)/num_folds\<close> raises
  ZeroDivisionError for a zero fold count and \<^verbatim>\<open>np.zeros(num_folds)\<close> raises ValueError for
  a negative one; past both the fold size is \<open>len(X_with_lags) div num_folds\<close>.
\<close>

definition cross_validate_toeplitz_fit ::
  "linalg \<Rightarrow> real ndarray \<Rightarrow> int \<Rightarrow> int \<Rightarrow> real \<Rightarrow> real \<Rightarrow> int \<Rightarrow> real \<Rightarrow> real \<Rightarrow> int \<Rightarrow> int \<Rightarrow>
   error + (loglik list \<times> real list \<times> real list)" where
  "cross_validate_toeplitz_fit la X_with_lags ps pt lambda_L lambda_S num_folds tau tol max_iter
      stop_cond_interval =
     (if num_folds = 0 then Inl ZeroDivisionError
      else if num_folds < 0 then Inl ValueError
      else
        let fold_size = nat (int (nrows X_with_lags) div num_folds);
            log_likelihood_vals = replicate (nat num_folds) (Fin 0);
            rank_vals = replicate (nat num_folds) 0;
            sparsity_vals = replicate (nat num_folds) 0
        in cv_loop (cv_fold la X_with_lags ps pt lambda_L lambda_S tau tol max_iter
                      stop_cond_interval fold_size)
             [0..<nat num_folds] (log_likelihood_vals, rank_vals, sparsity_vals))"

subsection \<open>The grid-search driver\<close>

text \<open>A \<^verbatim>\<open>for\<close> loop whose body may raise: the first exception ends it.\<close>

fun for_each :: "('a \<Rightarrow> 's \<Rightarrow> error + 's) \<Rightarrow> 'a list \<Rightarrow> 's \<Rightarrow> error + 's" where
  "for_each body [] st = Inr st"
| "for_each body (x # xs) st =
     (case body x st of Inl e \<Rightarrow> Inl e | Inr st' \<Rightarrow> for_each body xs st')"

text \<open>\<^verbatim>\<open>np.mean\<close> over the folds of one grid cell (the fold count is positive there).\<close>

definition loglik_value :: "loglik \<Rightarrow> real" where
  "loglik_value x = (case x of NegInf \<Rightarrow> 0 | Fin r \<Rightarrow> r)"

definition mean_loglik :: "loglik list \<Rightarrow> loglik" where
  "mean_loglik xs =
     (if NegInf \<in> set xs then NegInf
      else Fin (sum_list (map loglik_value xs) / real (length xs)))"

fun loglik_less :: "loglik \<Rightarrow> loglik \<Rightarrow> bool" where
  "loglik_less NegInf NegInf = False"
| "loglik_less NegInf (Fin y) = True"
| "loglik_less (Fin x) NegInf = False"
| "loglik_less (Fin x) (Fin y) = (x < y)"

text \<open>
  \<^verbatim>\<open>a.argmax()\<close>: the index of the first occurrence of the maximum of the flattened
  array; ValueError on an empty array.
\<close>

primrec argmax_scan :: "loglik list \<Rightarrow> nat \<Rightarrow> nat \<Rightarrow> loglik \<Rightarrow> nat" where
  "argmax_scan [] i best_i best = best_i"
| "argmax_scan (x # xs) i best_i best =
     (if loglik_less best x then argmax_scan xs (i + 1) i x
      else argmax_scan xs (i + 1) best_i best)"

definition argmax :: "loglik list \<Rightarrow> error + nat" where
  "argmax xs = (case xs of [] \<Rightarrow> Inl ValueError | x # rest \<Rightarrow> Inr (argmax_scan rest 1 0 x))"

text \<open>
  \<^verbatim>\<open>regularize_cov\<close>. The state of the two loops is the three result tables and the loop
  variables \<open>(lambda_L, lambda_S)\<close>, unbound until the first pass of the inner loop. The
  \<^verbatim>\<open>print\<close> is left out. \<^verbatim>\<open>np.cov(X.T, bias=True)\<close> is the mean-centred covariance
  divided by the number of rows. The last call passes \<open>lambda_L\<close> and \<open>lambda_S\<close>, as the
  source does; \<open>lambda_L_opt\<close> and \<open>lambda_S_opt\<close> are computed and not used.
\<close>

definition regularize_cov ::
  "linalg \<Rightarrow> real ndarray \<Rightarrow> int \<Rightarrow> int \<Rightarrow> real list \<Rightarrow> real list \<Rightarrow> int \<Rightarrow> real \<Rightarrow> real \<Rightarrow>
   int \<Rightarrow> int \<Rightarrow>
   error + (real ndarray \<times> loglik list list list \<times> real list list list \<times> real list list list)" where
  "regularize_cov la X_with_lags ps pt lambda_S_vals lambda_L_vals num_folds tau tol max_iter
      stop_cond_interval =
     (if num_folds < 0 then Inl ValueError
      else
        let nL = length lambda_L_vals;
            nS = length lambda_S_vals;
            log_likelihood_vals0 = replicate nL (replicate nS (replicate (nat num_folds) (Fin 0)));
            rank_vals0 = replicate nL (replicate nS (replicate (nat num_folds) 0));
            sparsity_vals0 = replicate nL (replicate nS (replicate (nat num_folds) 0))
        in (case for_each (\<lambda>lambda_L_idx. for_each (\<lambda>lambda_S_idx
                    (log_likelihood_vals, rank_vals, sparsity_vals, loop_vars).
                    let lambda_L = lambda_L_vals ! lambda_L_idx;
                        lambda_S = lambda_S_vals ! lambda_S_idx
                    in (case cross_validate_toeplitz_fit la X_with_lags ps pt lambda_L lambda_S
                              num_folds tau tol max_iter stop_cond_interval of
                          Inl e \<Rightarrow> Inl e
                        | Inr (log_likelihood_vals_cv, rank_vals_cv, sparsity_vals_cv) \<Rightarrow>
                            Inr (log_likelihood_vals[lambda_L_idx :=
                                   (log_likelihood_vals ! lambda_L_idx)[lambda_S_idx := log_likelihood_vals_cv]],
                                 rank_vals[lambda_L_idx :=
                                   (rank_vals ! lambda_L_idx)[lambda_S_idx := rank_vals_cv]],
                                 sparsity_vals[lambda_L_idx :=
                                   (sparsity_vals ! lambda_L_idx)[lambda_S_idx := sparsity_vals_cv]],
                                 Some (lambda_L, lambda_S))))
                  [0..<nS]) [0..<nL]
                  (log_likelihood_vals0, rank_vals0, sparsity_vals0, None) of
              Inl e \<Rightarrow> Inl e
            | Inr (log_likelihood_vals, rank_vals, sparsity_vals, loop_vars) \<Rightarrow>
                let mean_ll_vals = map (map mean_loglik) log_likelihood_vals
                in (case argmax (concat mean_ll_vals) of
                      Inl e \<Rightarrow> Inl e
                    | Inr flat_idx \<Rightarrow>
                        let max_idx = (flat_idx div nS, flat_idx mod nS);
                            lambda_L_opt = lambda_L_vals ! fst max_idx;
                            lambda_S_opt = lambda_S_vals ! snd max_idx;
                            sample_cov = cov_train_of X_with_lags
                        in (case loop_vars of
                              None \<Rightarrow> Inl UnboundLocalError
                            | Some (lambda_L, lambda_S) \<Rightarrow>
                                (case prox_grad_robust_toeplitz_kron_pca la sample_cov ps pt
                                        lambda_L lambda_S tau tol max_iter stop_cond_interval of
                                   Inl e \<Rightarrow> Inl e
                                 | Inr (final_cov_reg, rank, sparsity) \<Rightarrow>
                                     Inr (final_cov_reg, log_likelihood_vals, rank_vals,
                                          sparsity_vals))))))"

section \<open>The iterates of the unconstrained solver, as the specification states them\<close>





text \<open>
  Helper for the proofs: the loop of \<open>prox_grad_robust_kron_pca\<close> read from its last pass
  backwards, pass \<open>k + 1\<close> applied to the state after \<open>k\<close> passes, with the operations
  of the code.
\<close>

fun kron_unrolled ::
  "linalg \<Rightarrow> real ndarray \<Rightarrow> real \<Rightarrow> real \<Rightarrow> (nat \<Rightarrow> real) \<Rightarrow> nat \<Rightarrow>
   error + (real ndarray \<times> real ndarray \<times> real ndarray)" where
  "kron_unrolled la R lambda_L lambda_S tau 0 =
     (let L0 = R; S0 = zeros (nrows R) (ncols R) in Inr (L0, S0, add_nd L0 S0))"
| "kron_unrolled la R lambda_L lambda_S tau (Suc k) =
     (case kron_unrolled la R lambda_L lambda_S tau k of
        Inl e \<Rightarrow> Inl e
      | Inr (L_before, S_before, M_before) \<Rightarrow>
          (case soft_sv_threshold la (sub_nd M_before S_before) (tau (Suc k) * lambda_L) of
             Inl e \<Rightarrow> Inl e
           | Inr L \<Rightarrow>
               let S = soft_entrywise_threshold (sub_nd M_before L_before) (tau (Suc k) * lambda_S)
               in Inr (L, S, sub_nd (add_nd L S) (scale_nd (tau (Suc k)) (sub_nd (add_nd L S) R)))))"

text \<open>
  The contract of \<^verbatim>\<open>scipy.linalg.svd(M, full_matrices=False)\<close> on arrays of shape \<open>(r, c)\<close>
  that the solvers rely on: \<open>U\<close> has \<open>r\<close> rows, \<open>Vh\<close> has \<open>c\<close> columns, and both have as many
  columns, respectively rows, as there are singular values.
\<close>

definition svd_conforms :: "linalg \<Rightarrow> nat \<Rightarrow> nat \<Rightarrow> bool" where
  "svd_conforms la r c =
     (\<forall>M. nrows M = r \<and> ncols M = c \<longrightarrow>
        (case scipy_svd la M of
           (U, s, Vh) \<Rightarrow> nrows U = r \<and> ncols U = length s \<and> nrows Vh = length s \<and> ncols Vh = c))"

section \<open>The library on small arrays, for concrete runs\<close>

text \<open>
  The library routines on arrays of shape \<open>(1, 1)\<close>, for the concrete examples: the
  singular value of \<open>[[x]]\<close> is \<open>|x|\<close>, its rank is one unless \<open>x = 0\<close>, its inverse is
  \<open>[[1/x]]\<close> and the logarithm of its determinant's absolute value is \<open>ln |x|\<close>.
\<close>

definition linalg_1x1 :: linalg where
  "linalg_1x1 =
     \<lparr>scipy_svd = (\<lambda>M. (\<lparr>nrows = 1, ncols = 1, elems = [1]\<rparr>, [\<bar>entry M 0 0\<bar>],
                         \<lparr>nrows = 1, ncols = 1, elems = [sgn (entry M 0 0)]\<rparr>)),
      np_matrix_rank = (\<lambda>M. if entry M 0 0 = 0 then 0 else 1),
      np_inv = (\<lambda>M. if entry M 0 0 = 0 then Inl LinAlgError
                     else Inr \<lparr>nrows = 1, ncols = 1, elems = [1 / entry M 0 0]\<rparr>),
      np_slogdet = (\<lambda>M. (sgn (entry M 0 0), ln \<bar>entry M 0 0\<bar>))\<rparr>"

text \<open>
  The library routines on arrays with a single row, for a second concrete example: the
  singular value of a row is its Euclidean norm, with \<open>U = [[1]]\<close> and \<open>Vh\<close> the normalised
  row (the first unit vector for the zero row); the rank is one unless the row is zero.
\<close>

definition linalg_row :: linalg where
  "linalg_row =
     \<lparr>scipy_svd = (\<lambda>M.
        let norm = sqrt (sum_list (map (\<lambda>x. x\<^sup>2) (elems M)))
        in (\<lparr>nrows = 1, ncols = 1, elems = [1]\<rparr>, [norm],
            \<lparr>nrows = 1, ncols = ncols M,
              elems = (if norm = 0 then 1 # replicate (ncols M - 1) 0
                       else map (\<lambda>x. x / norm) (elems M))\<rparr>)),
      np_matrix_rank = (\<lambda>M. if list_all (\<lambda>x. x = 0) (elems M) then 0 else 1),
      np_inv = (\<lambda>M. if ncols M = 1 \<and> entry M 0 0 \<noteq> 0
                     then Inr \<lparr>nrows = 1, ncols = 1, elems = [1 / entry M 0 0]\<rparr>
                     else Inl LinAlgError),
      np_slogdet = (\<lambda>M. (sgn (entry M 0 0), ln \<bar>entry M 0 0\<bar>))\<rparr>"

section \<open>Column means\<close>

text \<open>The mean of column \<open>j\<close>, as a sum over the rows.\<close>

definition column_mean :: "real ndarray \<Rightarrow> nat \<Rightarrow> real" where
  "column_mean X j = (\<Sum>k<nrows X. entry X k j) / real (nrows X)"

section \<open>The folds of the cross-validation driver, as the specification states them\<close>

text \<open>
  The rows of the test block of fold \<open>i\<close>: the contiguous block
  \<open>[i * fold_size, (i + 1) * fold_size)\<close>. The rows of the training block: the complement
  of the test block among all \<open>n\<close> rows of the table, in their order.
\<close>

definition spec_test_rows :: "nat \<Rightarrow> nat \<Rightarrow> nat list" where
  "spec_test_rows fold_size i = [i * fold_size..<(i + 1) * fold_size]"

definition spec_train_rows :: "nat \<Rightarrow> nat \<Rightarrow> nat \<Rightarrow> nat list" where
  "spec_train_rows n fold_size i = filter (\<lambda>r. r \<notin> set (spec_test_rows fold_size i)) [0..<n]"

text \<open>The table made of the rows of \<open>X\<close> listed in \<open>rs\<close>, and the two blocks of a fold.\<close>

definition spec_select_rows :: "real ndarray \<Rightarrow> nat list \<Rightarrow> real ndarray" where
  "spec_select_rows X rs = tabulate (length rs) (ncols X) (\<lambda>k j. entry X (rs ! k) j)"

definition spec_test_block :: "real ndarray \<Rightarrow> nat \<Rightarrow> nat \<Rightarrow> real ndarray" where
  "spec_test_block X fold_size i = spec_select_rows X (spec_test_rows fold_size i)"

definition spec_train_block :: "real ndarray \<Rightarrow> nat \<Rightarrow> nat \<Rightarrow> real ndarray" where
  "spec_train_block X fold_size i = spec_select_rows X (spec_train_rows (nrows X) fold_size i)"

text \<open>
  The covariance of the mean-centred rows of a block and the second moment of its raw rows,
  each divided by the number of rows of the block.
\<close>

definition spec_centered_cov :: "real ndarray \<Rightarrow> real ndarray" where
  "spec_centered_cov B = tabulate (ncols B) (ncols B)
     (\<lambda>a b. (\<Sum>k<nrows B. (entry B k a - column_mean B a) * (entry B k b - column_mean B b)) /
            real (nrows B))"

definition spec_raw_cov :: "real ndarray \<Rightarrow> real ndarray" where
  "spec_raw_cov B = tabulate (ncols B) (ncols B)
     (\<lambda>a b. (\<Sum>k<nrows B. entry B k a * entry B k b) / real (nrows B))"

chapter \<open>Its properties\<close>

section \<open>The Pitsianis-Van Loan rearrangement\<close>

subsection \<open>Arrays built from their entries\<close>

lemma nrows_tabulate [simp]: "nrows (tabulate r c f) = r"
  and ncols_tabulate [simp]: "ncols (tabulate r c f) = c"
  and length_elems_tabulate [simp]: "length (elems (tabulate r c f)) = r * c"
  by (simp_all add: tabulate_def)

lemma wf_tabulate [simp]: "wf_ndarray (tabulate r c f)"
  by (simp add: wf_ndarray_def)

lemma flat_index_less: "i < r \<Longrightarrow> j < c \<Longrightarrow> i * c + j < r * (c::nat)"
proof -
  assume a: "i < r" "j < c"
  then have "i * c + j < (i + 1) * c" by simp
  also from a have "\<dots> \<le> r * c" by (intro mult_le_mono1) simp
  finally show ?thesis .
qed

lemma elems_tabulate_nth: "k < r * c \<Longrightarrow> elems (tabulate r c f) ! k = f (k div c) (k mod c)"
  by (simp add: tabulate_def)

lemma entry_tabulate [simp]: "i < r \<Longrightarrow> j < c \<Longrightarrow> entry (tabulate r c f) i j = f i j"
  by (simp add: entry_def elems_tabulate_nth flat_index_less)

lemma div_less_rows: "k < r * c \<Longrightarrow> k div c < (r::nat)"
  by (simp add: less_mult_imp_div_less)

lemma mod_less_cols: "k < r * c \<Longrightarrow> k mod c < (c::nat)"
  by (cases "c = 0") auto

lemma tabulate_cong:
  "(\<And>i j. i < r \<Longrightarrow> j < c \<Longrightarrow> f i j = g i j) \<Longrightarrow> tabulate r c f = tabulate r c g"
  by (simp add: tabulate_def div_less_rows mod_less_cols)

lemma tabulate_entry_id: "wf_ndarray M \<Longrightarrow> tabulate (nrows M) (ncols M) (entry M) = (M :: 'a ndarray)"
  by (cases M) (auto simp: tabulate_def entry_def wf_ndarray_def intro!: nth_equalityI)

lemma set_row_tabulate:
  "set_row (tabulate r c f) q v = tabulate r c (\<lambda>i j. if i = q then v ! j else f i j)"
  unfolding set_row_def by (simp, rule tabulate_cong) simp

lemma inner_loop:
  "fold (\<lambda>j M. set_row M (b + j) (v j)) [0..<m] (tabulate r c f) =
     tabulate r c (\<lambda>i j. if b \<le> i \<and> i < b + m then v (i - b) ! j else f i j)"
proof (induction m)
  case 0
  show ?case by simp (rule tabulate_cong, auto)
next
  case (Suc m)
  show ?case
    by (simp add: Suc set_row_tabulate) (rule tabulate_cong, auto)
qed

lemma outer_loop:
  "fold (\<lambda>i. fold (\<lambda>j M. set_row M (i * t + j) (v i j)) [0..<t]) [0..<n] (tabulate r c f) =
     tabulate r c (\<lambda>i j. if i < n * t then v (i div t) (i mod t) ! j else f i j)"
proof (induction n)
  case 0
  show ?case by simp
next
  case (Suc n)
  show ?case
  proof (simp add: Suc inner_loop, rule tabulate_cong, goal_cases)
    case (1 i j)
    show ?case
    proof (cases "n * t \<le> i \<and> i < n * t + t")
      case True
      then have "i div t = n" "i mod t = i - n * t"
        by (auto simp: div_nat_eqI mod_nat_eqI algebra_simps)
      with True show ?thesis by (simp add: algebra_simps)
    next
      case False
      then show ?thesis by (auto simp: algebra_simps)
    qed
  qed
qed

subsection \<open>The permutation in closed form\<close>

lemma entry_arange_square: "a < n \<Longrightarrow> b < n \<Longrightarrow> entry (arange_square n) a b = a * n + b"
  by (simp add: entry_def arange_square_def flat_index_less)

lemma block_row_less: "i < t \<Longrightarrow> b < s \<Longrightarrow> i * s + b < s * (t::nat)"
  using flat_index_less [of i t b s] by (simp add: mult.commute)

lemma block_vec_nth:
  assumes "i < t" "j < t" "c < s * s"
  shows "elems (transpose_nd (slice (arange_square (s * t)) (i * s) ((i + 1) * s) (j * s) ((j + 1) * s))) ! c
         = (i * s + c mod s) * (s * t) + (j * s + c div s)"
proof -
  have s: "0 < s" using assms(3) by (cases s) auto
  have le: "(i + 1) * s \<le> s * t" "(j + 1) * s \<le> s * t" "i * s \<le> s * t" "j * s \<le> s * t"
    using assms(1,2) by (simp_all add: mult.commute [of s t] del: mult_Suc)
  have cs: "c div s < s" "c mod s < s"
    using assms(3) s by (simp_all add: less_mult_imp_div_less)
  have mins: "min ((i + 1) * s) (s * t) = (i + 1) * s" "min (i * s) (s * t) = i * s"
      "min ((j + 1) * s) (s * t) = (j + 1) * s" "min (j * s) (s * t) = j * s"
    using le by (simp_all only: min_absorb1)
  have d: "(i + 1) * s - i * s = s" "(j + 1) * s - j * s = s" by simp_all
  have sl: "slice (arange_square (s * t)) (i * s) ((i + 1) * s) (j * s) ((j + 1) * s) =
      tabulate s s (\<lambda>a b. (i * s + a) * (s * t) + (j * s + b))"
  proof -
    have "slice (arange_square (s * t)) (i * s) ((i + 1) * s) (j * s) ((j + 1) * s) =
      tabulate s s (\<lambda>a b. entry (arange_square (s * t)) (i * s + a) (j * s + b))"
      unfolding slice_def by (simp only: mins d arange_square_def ndarray.simps)
    also have "\<dots> = tabulate s s (\<lambda>a b. (i * s + a) * (s * t) + (j * s + b))"
      by (rule tabulate_cong) (simp add: entry_arange_square block_row_less assms)
    finally show ?thesis .
  qed
  show ?thesis
    unfolding sl transpose_nd_def using cs assms(3)
    by (simp add: elems_tabulate_nth)
qed

lemma pv_permutation_closed_form:
  "pv_permutation (int s) (int t) = Inr (pv_perm s t, argsort (pv_perm s t))"
proof -
  let ?v = "\<lambda>i j. elems (transpose_nd (slice (arange_square (s * t)) (i * s) ((i + 1) * s) (j * s) ((j + 1) * s)))"
  have "fold (\<lambda>i. fold (\<lambda>j M. set_row M (i * t + j) (?v i j)) [0..<t]) [0..<t] (zeros (t * t) (s * s))
      = tabulate (t * t) (s * s) (\<lambda>i j. if i < t * t then ?v (i div t) (i mod t) ! j else 0)"
    unfolding zeros_def by (rule outer_loop)
  also have "\<dots> = tabulate (t * t) (s * s) (\<lambda>r c. (r div t * s + c mod s) * (s * t) + (r mod t * s + c div s))"
  proof (rule tabulate_cong)
    fix i j assume a: "i < t * t" "j < s * s"
    then have "i div t < t" "i mod t < t"
      by (simp_all add: div_less_rows mod_less_cols)
    with a show "(if i < t * t then ?v (i div t) (i mod t) ! j else 0) =
        (i div t * s + j mod s) * (s * t) + (i mod t * s + j div s)"
      by (simp only: if_True block_vec_nth)
  qed
  finally have loop: "fold (\<lambda>i. fold (\<lambda>j M. set_row M (i * t + j) (?v i j)) [0..<t]) [0..<t] (zeros (t * t) (s * s))
      = tabulate (t * t) (s * s) (\<lambda>r c. (r div t * s + c mod s) * (s * t) + (r mod t * s + c div s))" .
  have el: "elems (tabulate (t * t) (s * s) (\<lambda>r c. (r div t * s + c mod s) * (s * t) + (r mod t * s + c div s)))
      = pv_perm s t"
    by (simp add: tabulate_def pv_perm_def pv_index_def Let_def)
  have nn: "nat (int s * int t) = s * t" "nat (int t * int t) = t * t" "nat (int s * int s) = s * s"
    by (simp_all add: nat_mult_distrib)
  have "0 \<le> int s * int t" by (rule mult_nonneg_nonneg) simp_all
  then have nneg: "\<not> int s * int t < 0" by linarith
  show ?thesis
    unfolding pv_permutation_def Let_def
    by (simp only: nneg if_False nn nat_int loop el)
qed

lemma divmod_digit: "b < (n::nat) \<Longrightarrow> (a * n + b) div n = a \<and> (a * n + b) mod n = b"
  by simp

lemma pv_index_digits:
  assumes "k < t * t * (s * s)"
  shows "pv_index_inv s t (pv_index s t k) = k" and "pv_index s t k < t * t * (s * s)"
proof -
  define r c i j a b where "r = k div (s * s)" and "c = k mod (s * s)"
    and "i = r div t" and "j = r mod t" and "a = c div s" and "b = c mod s"
  have s: "0 < s" and t: "0 < t" using assms by (cases s; cases t; simp)+
  have r: "r < t * t" unfolding r_def using assms by (rule div_less_rows)
  have c: "c < s * s" unfolding c_def using s by simp
  have i: "i < t" unfolding i_def using r by (rule div_less_rows)
  have j: "j < t" unfolding j_def using t by simp
  have a: "a < s" unfolding a_def using c by (rule div_less_rows)
  have b: "b < s" unfolding b_def using s by simp
  have k: "k = r * (s * s) + c" unfolding r_def c_def by (simp only: div_mult_mod_eq)
  have rr: "r = i * t + j" unfolding i_def j_def by (simp only: div_mult_mod_eq)
  have cc: "c = a * s + b" unfolding a_def b_def by (simp only: div_mult_mod_eq)
  have f: "pv_index s t k = (i * s + b) * (s * t) + (j * s + a)"
    unfolding pv_index_def Let_def r_def [symmetric] c_def [symmetric]
      i_def [symmetric] j_def [symmetric] a_def [symmetric] b_def [symmetric] ..
  have col: "j * s + a < s * t" using j a by (rule block_row_less)
  have row: "i * s + b < s * t" using i b by (rule block_row_less)
  have d1: "((i * s + b) * (s * t) + (j * s + a)) div (s * t) = i * s + b"
       "((i * s + b) * (s * t) + (j * s + a)) mod (s * t) = j * s + a"
    using divmod_digit [OF col] by simp_all
  have d2: "(i * s + b) div s = i" "(i * s + b) mod s = b"
    using divmod_digit [OF b] by simp_all
  have d3: "(j * s + a) div s = j" "(j * s + a) mod s = a"
    using divmod_digit [OF a] by simp_all
  have "pv_index_inv s t (pv_index s t k) = (i * t + j) * (s * s) + (a * s + b)"
    unfolding f pv_index_inv_def Let_def d1 d2 d3 ..
  also have "\<dots> = k" unfolding k rr cc ..
  finally show "pv_index_inv s t (pv_index s t k) = k" .
  have "(i * s + b) * (s * t) + (j * s + a) < (s * t) * (s * t)"
    using row col by (rule flat_index_less)
  then show "pv_index s t k < t * t * (s * s)"
    unfolding f by (simp add: mult_ac)
qed

lemma pv_perm_length [simp]: "length (pv_perm s t) = t * t * (s * s)"
  by (simp add: pv_perm_def)

lemma pv_perm_distinct: "distinct (pv_perm s t)"
  unfolding pv_perm_def distinct_map
proof (intro conjI inj_on_inverseI)
  show "distinct [0..<t * t * (s * s)]" by simp
  fix k assume "k \<in> set [0..<t * t * (s * s)]"
  then show "pv_index_inv s t (pv_index s t k) = k"
    by (simp add: pv_index_digits(1))
qed

lemma pv_perm_set: "set (pv_perm s t) = {0..<t * t * (s * s)}"
proof (rule card_subset_eq)
  show "finite {0..<t * t * (s * s)}" by simp
  show "set (pv_perm s t) \<subseteq> {0..<t * t * (s * s)}"
    by (auto simp: pv_perm_def pv_index_digits(2))
  show "card (set (pv_perm s t)) = card {0..<t * t * (s * s)}"
    by (simp add: distinct_card [OF pv_perm_distinct])
qed

lemma sorted_distinct_range:
  assumes "sorted xs" "distinct xs" "set xs = {0..<n}"
  shows "xs = [0..<n]"
  using assms sorted_distinct_set_unique [of xs "[0..<n]"] by simp

lemma argsort_permutation:
  assumes "distinct xs" "set xs = {0..<length xs}"
  shows "map (\<lambda>i. xs ! i) (argsort xs) = [0..<length xs]"
proof (rule sorted_distinct_range)
  have "mset (map (\<lambda>i. xs ! i) (argsort xs)) = mset (map (\<lambda>i. xs ! i) [0..<length xs])"
    unfolding argsort_def by (simp only: mset_map mset_sort)
  then have ms: "mset (map (\<lambda>i. xs ! i) (argsort xs)) = mset xs"
    by (simp only: map_nth)
  show "sorted (map (\<lambda>i. xs ! i) (argsort xs))"
    by (simp add: argsort_def)
  show "set (map (\<lambda>i. xs ! i) (argsort xs)) = {0..<length xs}"
    using mset_eq_setD [OF ms] assms(2) by simp
  show "distinct (map (\<lambda>i. xs ! i) (argsort xs))"
    using mset_eq_imp_distinct_iff [OF ms] assms(1) by simp
qed

lemma argsort_length [simp]: "length (argsort xs) = length xs"
  by (simp add: argsort_def)

lemma argsort_set [simp]: "set (argsort xs) = {0..<length xs}"
  by (simp add: argsort_def)

lemma take_indices_pv_perm:
  assumes "length xs = t * t * (s * s)"
  shows "take_indices xs (pv_perm s t) = Inr (map (\<lambda>k. xs ! k) (pv_perm s t))"
  unfolding take_indices_def using assms by (simp add: pv_perm_set)

lemma take_indices_argsort:
  assumes "length ys = length p"
  shows "take_indices ys (argsort p) = Inr (map (\<lambda>k. ys ! k) (argsort p))"
  unfolding take_indices_def using assms by simp

lemma unpermute:
  assumes "length xs = t * t * (s * s)"
  shows "map (\<lambda>k. map (\<lambda>k. xs ! k) (pv_perm s t) ! k) (argsort (pv_perm s t)) = xs"
proof -
  let ?p = "pv_perm s t"
  have "map (\<lambda>k. map (\<lambda>k. xs ! k) ?p ! k) (argsort ?p) = map (\<lambda>k. xs ! (?p ! k)) (argsort ?p)"
    by (rule map_cong) simp_all
  also have "\<dots> = map (\<lambda>k. xs ! k) (map (\<lambda>i. ?p ! i) (argsort ?p))"
    by (simp add: comp_def)
  also have "\<dots> = map (\<lambda>k. xs ! k) [0..<length ?p]"
    using argsort_permutation [OF pv_perm_distinct, of s t] by (simp add: pv_perm_set)
  also have "\<dots> = map (\<lambda>k. xs ! k) [0..<length xs]"
    using assms by simp
  also have "\<dots> = xs" by (rule map_nth)
  finally show ?thesis .
qed

text \<open>
  Claim C1. For positive \<open>ps\<close>, \<open>pt\<close> and every array \<open>C\<close> of shape \<open>(ps*pt, ps*pt)\<close>
  (of any element type, the reals included), \<open>pv_rearrange\<close> returns an array \<open>R\<close> of shape
  \<open>(pt\<^sup>2, ps\<^sup>2)\<close> and \<open>pv_rearrange_inv\<close> applied to \<open>R\<close> returns \<open>C\<close> itself: both are index
  permutations, so no arithmetic touches the entries.
\<close>

theorem pv_rearrange_roundtrip:
  fixes C :: "'a ndarray"
  assumes "1 \<le> ps" and "1 \<le> pt"
    and "nrows C = nat (ps * pt)" and "ncols C = nat (ps * pt)" and "wf_ndarray C"
  shows "\<exists>R. pv_rearrange C ps pt = Inr R \<and> nrows R = nat (pt * pt) \<and> ncols R = nat (ps * ps)
           \<and> pv_rearrange_inv R ps pt = Inr C"
proof -
  obtain s t where st: "ps = int s" "pt = int t"
    using assms(1,2) by (metis nat_0_le order_trans zero_le_one)
  have nn: "nat (int s * int t) = s * t" "nat (int t * int t) = t * t" "nat (int s * int s) = s * s"
    by (simp_all add: nat_mult_distrib)
  have "0 \<le> int s * int t" by (rule mult_nonneg_nonneg) simp_all
  then have nneg: "\<not> int s * int t < 0" by linarith
  have len: "length (elems C) = t * t * (s * s)"
    using assms(3-5) unfolding wf_ndarray_def st nn by (simp add: mult_ac)
  let ?R = "\<lparr>nrows = t * t, ncols = s * s, elems = map (\<lambda>k. elems C ! k) (pv_perm s t)\<rparr>"
  have fwd: "pv_rearrange C ps pt = Inr ?R"
    unfolding pv_rearrange_def st pv_permutation_closed_form nn
    by (simp add: take_indices_pv_perm [OF len] reshape_def)
  have C: "C = \<lparr>nrows = s * t, ncols = s * t, elems = elems C\<rparr>"
    using assms(3,4) unfolding st nn by (cases C) simp
  have "pv_rearrange_inv ?R ps pt = Inr \<lparr>nrows = s * t, ncols = s * t, elems = elems C\<rparr>"
    unfolding pv_rearrange_inv_def st pv_permutation_closed_form nn
    using len nneg by (simp add: take_indices_argsort unpermute reshape_def mult_ac)
  with C have bwd: "pv_rearrange_inv ?R ps pt = Inr C" by simp
  show ?thesis
    using fwd bwd unfolding st nn by (intro exI [of _ ?R]) simp
qed

lemma pv_rearrange_example:
  "pv_rearrange \<lparr>nrows = 2, ncols = 2, elems = [a, b, c, d]\<rparr> 2 1 =
     Inr \<lparr>nrows = 1, ncols = 4, elems = [a, c, b, d]\<rparr>"
  using pv_permutation_closed_form [of 2 1]
  by (simp add: pv_rearrange_def pv_perm_def pv_index_def take_indices_def reshape_def
      upt_rec [of _ "numeral _"] Let_def)

theorem pv_rearrange_roundtrip_witness:
  "(1::int) \<le> 2 \<and> (1::int) \<le> 1 \<and>
   wf_ndarray \<lparr>nrows = 2, ncols = 2, elems = [1, 2, 3, 4 :: real]\<rparr> \<and>
   pv_rearrange \<lparr>nrows = 2, ncols = 2, elems = [1, 2, 3, 4 :: real]\<rparr> 2 1 =
     Inr \<lparr>nrows = 1, ncols = 4, elems = [1, 3, 2, 4]\<rparr> \<and>
   pv_rearrange_inv \<lparr>nrows = 1, ncols = 4, elems = [1, 3, 2, 4 :: real]\<rparr> 2 1 =
     Inr \<lparr>nrows = 2, ncols = 2, elems = [1, 2, 3, 4]\<rparr>"
  using pv_rearrange_roundtrip [of 2 1 "\<lparr>nrows = 2, ncols = 2, elems = [1, 2, 3, 4 :: real]\<rparr>"]
    pv_rearrange_example [of "1::real" 2 3 4]
  by (auto simp: wf_ndarray_def)

section \<open>The Toeplitz projector\<close>

lemma upto_as_upt: "[a..a + int n - 1] = map (\<lambda>r. a + int r) [0..<n]"
proof (induction n)
  case 0
  show ?case by simp
next
  case (Suc n)
  have "[a..a + int (Suc n) - 1] = [a..a + int n - 1] @ [a + int n]"
    using upto_rec2 [of a "a + int n"] by simp
  with Suc show ?case by simp
qed

lemma set_entries_tabulate:
  "set_entries (tabulate r c f) q cols v =
     tabulate r c (\<lambda>i j. if i = q \<and> j \<in> set cols then v else f i j)"
  unfolding set_entries_def by (simp, rule tabulate_cong) simp

lemma rows_loop:
  "fold (\<lambda>q P. set_entries P q (cols q) (w q)) [0..<m] (tabulate r c f) =
     tabulate r c (\<lambda>i j. if i < m \<and> j \<in> set (cols i) then w i else f i j)"
proof (induction m)
  case 0
  show ?case by simp
next
  case (Suc m)
  show ?case
    by (simp add: Suc set_entries_tabulate) (rule tabulate_cong, auto simp: less_Suc_eq)
qed

text \<open>The index grid \<^verbatim>\<open>np.arange(pt**2).reshape((pt, pt)).T + 1\<close>.\<close>

lemma entry_index_grid:
  "i < t \<Longrightarrow> j < t \<Longrightarrow>
   entry (map_nd (\<lambda>x. x + 1) (transpose_nd (arange_square t))) i j = j * t + i + 1"
proof -
  assume a: "i < t" "j < t"
  have "transpose_nd (arange_square t) = tabulate t t (\<lambda>i j. j * t + i)"
    unfolding transpose_nd_def
    by (simp add: arange_square_def, rule tabulate_cong)
       (simp add: entry_arange_square [unfolded arange_square_def])
  then show ?thesis
    using a by (simp add: map_nd_def entry_def tabulate_def flat_index_less)
qed

lemma diag_cols_nonneg:
  assumes "o' < t"
  shows "diag_cols t (int o') = map (\<lambda>i. (i + o') * t + i) [0..<t - o']"
  unfolding diag_cols_def diagonal_def
  using assms
  by (simp add: map_nd_def transpose_nd_def arange_square_def entry_index_grid
        [unfolded map_nd_def transpose_nd_def arange_square_def, simplified])

lemma diag_cols_neg:
  assumes "0 < o'" "o' < t"
  shows "diag_cols t (- int o') = map (\<lambda>i. i * t + (i + o')) [0..<t - o']"
  unfolding diag_cols_def diagonal_def
  using assms
  by (simp add: map_nd_def transpose_nd_def arange_square_def entry_index_grid
        [unfolded map_nd_def transpose_nd_def arange_square_def, simplified])

lemma diag_cols_cases:
  assumes "- int t < offset" "offset < int t"
  obtains o' where "offset = int o'" "o' < t"
      "diag_cols t offset = map (\<lambda>i. (i + o') * t + i) [0..<t - o']"
    | o' where "offset = - int o'" "0 < o'" "o' < t"
      "diag_cols t offset = map (\<lambda>i. i * t + (i + o')) [0..<t - o']"
proof (cases "0 \<le> offset")
  case True
  define o' where "o' = nat offset"
  with True have o: "offset = int o'" by simp
  with assms have "o' < t" by simp
  with o that(1) diag_cols_nonneg show ?thesis by blast
next
  case False
  define o' where "o' = nat (- offset)"
  with False have o: "offset = - int o'" "0 < o'" by simp_all
  with assms have "o' < t" by simp
  with o that(2) diag_cols_neg show ?thesis by blast
qed

lemma diag_index_inj:
  assumes "(x + a) * t + (x + b) = (y + a) * t + (y + b)"
  shows "x = (y::nat)"
proof (cases x y rule: linorder_cases)
  case less
  then have "(x + a) * t \<le> (y + a) * t" by (simp add: mult_le_mono1)
  with less assms show ?thesis by linarith
next
  case equal
  then show ?thesis .
next
  case greater
  then have "(y + a) * t \<le> (x + a) * t" by (simp add: mult_le_mono1)
  with greater assms show ?thesis by linarith
qed

lemma diag_cols_length:
  assumes "- int t < offset" "offset < int t"
  shows "int (length (diag_cols t offset)) = int t - \<bar>offset\<bar>"
  using assms by (rule diag_cols_cases) auto

lemma diag_cols_distinct:
  assumes "- int t < offset" "offset < int t"
  shows "distinct (diag_cols t offset)"
  using assms
proof (rule diag_cols_cases)
  fix o' assume "diag_cols t offset = map (\<lambda>i. (i + o') * t + i) [0..<t - o']"
  moreover have "inj_on (\<lambda>i. (i + o') * t + i) (set [0..<t - o'])"
  proof (rule inj_onI)
    fix x y assume "(x + o') * t + x = (y + o') * t + y"
    then show "x = y" using diag_index_inj [of x o' t 0 y] by simp
  qed
  ultimately show ?thesis by (simp add: distinct_map)
next
  fix o' assume "diag_cols t offset = map (\<lambda>i. i * t + (i + o')) [0..<t - o']"
  moreover have "inj_on (\<lambda>i. i * t + (i + o')) (set [0..<t - o'])"
  proof (rule inj_onI)
    fix x y assume "x * t + (x + o') = y * t + (y + o')"
    then show "x = y" using diag_index_inj [of x 0 t o' y] by simp
  qed
  ultimately show ?thesis by (simp add: distinct_map)
qed

lemma diag_cols_member:
  assumes "- int t < offset" "offset < int t" "c < t * t"
  shows "c \<in> set (diag_cols t offset) \<longleftrightarrow> int (c div t) - int (c mod t) = offset"
  using assms(1,2)
proof (rule diag_cols_cases)
  fix o' assume o: "offset = int o'" "o' < t"
    and d: "diag_cols t offset = map (\<lambda>i. (i + o') * t + i) [0..<t - o']"
  have t: "0 < t" using o by simp
  show ?thesis
  proof
    assume "c \<in> set (diag_cols t offset)"
    then obtain i where i: "i < t - o'" "c = (i + o') * t + i" unfolding d by auto
    then have "i < t" by simp
    then have "c div t = i + o'" "c mod t = i" unfolding i(2) by simp_all
    then show "int (c div t) - int (c mod t) = offset" using o by simp
  next
    assume a: "int (c div t) - int (c mod t) = offset"
    then have e: "c div t = c mod t + o'" using o by linarith
    have "c div t < t" using assms(3) by (rule div_less_rows)
    with e have "c mod t < t - o'" by linarith
    moreover have "c = (c mod t + o') * t + c mod t"
      using div_mult_mod_eq [of c t] e by simp
    ultimately show "c \<in> set (diag_cols t offset)" unfolding d by auto
  qed
next
  fix o' assume o: "offset = - int o'" "0 < o'" "o' < t"
    and d: "diag_cols t offset = map (\<lambda>i. i * t + (i + o')) [0..<t - o']"
  have t: "0 < t" using o by simp
  show ?thesis
  proof
    assume "c \<in> set (diag_cols t offset)"
    then obtain i where i: "i < t - o'" "c = i * t + (i + o')" unfolding d by auto
    then have "i + o' < t" by simp
    then have "c div t = i" "c mod t = i + o'" unfolding i(2) by simp_all
    then show "int (c div t) - int (c mod t) = offset" using o by simp
  next
    assume a: "int (c div t) - int (c mod t) = offset"
    then have e: "c mod t = c div t + o'" using o by linarith
    have "c mod t < t" using t by simp
    with e have "c div t < t - o'" by linarith
    moreover have "c = c div t * t + (c div t + o')"
      using div_mult_mod_eq [of c t] e by simp
    ultimately show "c \<in> set (diag_cols t offset)" unfolding d by auto
  qed
qed

lemma build_P_loop:
  assumes "0 < t"
  shows "build_P (int t) = Inr (tabulate (2 * t - 1) (t * t)
           (\<lambda>r c. if c \<in> set (diag_cols t (row_offset t r))
                  then 1 / sqrt (real_of_int (int t - \<bar>row_offset t r\<bar>)) else 0))"
proof -
  let ?idx = "map_nd (\<lambda>x. x + 1) (transpose_nd (arange_square t))"
  let ?w = "\<lambda>offset. 1 / sqrt (real_of_int (int t - \<bar>offset\<bar>))"
  let ?step = "\<lambda>offset P. set_entries P (nat (offset + int t - 1)) (map (\<lambda>x. x - 1) (diagonal ?idx offset)) (?w offset)"
  have rng: "[- int t + 1..int t - 1] = map (row_offset t) [0..<2 * t - 1]"
    using upto_as_upt [of "- int t + 1" "2 * t - 1"] assms
    by (simp add: row_offset_def [abs_def] of_nat_diff algebra_simps)
  have "fold ?step [- int t + 1..int t - 1] (zeros (2 * t - 1) (t * t)) =
      fold (\<lambda>r P. set_entries P r (diag_cols t (row_offset t r)) (?w (row_offset t r))) [0..<2 * t - 1]
        (tabulate (2 * t - 1) (t * t) (\<lambda>i j. 0))"
    unfolding rng fold_map zeros_def
    by (rule arg_cong [where f = "\<lambda>f. fold f _ _"])
       (simp add: fun_eq_iff comp_def row_offset_def diag_cols_def)
  also have "\<dots> = tabulate (2 * t - 1) (t * t)
      (\<lambda>r c. if r < 2 * t - 1 \<and> c \<in> set (diag_cols t (row_offset t r)) then ?w (row_offset t r) else 0)"
    by (rule rows_loop)
  also have "\<dots> = tabulate (2 * t - 1) (t * t)
      (\<lambda>r c. if c \<in> set (diag_cols t (row_offset t r)) then ?w (row_offset t r) else 0)"
    by (rule tabulate_cong) simp
  finally have loop: "fold ?step [- int t + 1..int t - 1] (zeros (2 * t - 1) (t * t)) =
     tabulate (2 * t - 1) (t * t)
      (\<lambda>r c. if c \<in> set (diag_cols t (row_offset t r)) then ?w (row_offset t r) else 0)" .
  have n: "nat (2 * int t - 1) = 2 * t - 1" "nat (int t * int t) = t * t"
    using assms by (simp_all add: nat_mult_distrib nat_diff_distrib')
  have pos: "\<not> 2 * int t - 1 < 0" using assms by simp
  show ?thesis
    unfolding build_P_def Let_def by (simp only: pos if_False n nat_int loop)
qed

lemma diag_cols_bound:
  assumes "- int t < offset" "offset < int t" "c \<in> set (diag_cols t offset)"
  shows "c < t * t"
  using assms(1,2)
proof (rule diag_cols_cases)
  fix o' assume "diag_cols t offset = map (\<lambda>i. (i + o') * t + i) [0..<t - o']"
  with assms(3) obtain i where "i < t - o'" "c = (i + o') * t + i" by auto
  then show ?thesis using flat_index_less [of "i + o'" t i t] by simp
next
  fix o' assume "diag_cols t offset = map (\<lambda>i. i * t + (i + o')) [0..<t - o']"
  with assms(3) obtain i where "i < t - o'" "c = i * t + (i + o')" by auto
  then show ?thesis using flat_index_less [of i t "i + o'" t] by simp
qed

lemma row_offset_range:
  assumes "r < 2 * t - 1"
  shows "- int t < row_offset t r" "row_offset t r < int t"
  using assms unfolding row_offset_def by linarith+

lemma weight_sum:
  fixes w :: real and n :: nat
  assumes "distinct ds" "set ds \<subseteq> {..<n}"
  shows "(\<Sum>c<n. (if c \<in> set ds then w else 0)\<^sup>2) = real (length ds) * w\<^sup>2"
proof -
  have "(\<Sum>c<n. (if c \<in> set ds then w else 0)\<^sup>2) = (\<Sum>c<n. if c \<in> set ds then w\<^sup>2 else 0)"
    by (rule sum.cong) simp_all
  also have "\<dots> = (\<Sum>c\<in>{..<n} \<inter> set ds. w\<^sup>2)"
    by (rule sum.inter_restrict [symmetric]) simp
  also have "{..<n} \<inter> set ds = set ds" using assms(2) by blast
  also have "(\<Sum>c\<in>set ds. w\<^sup>2) = real (length ds) * w\<^sup>2"
    by (simp add: distinct_card [OF assms(1)])
  finally show ?thesis .
qed

lemma unit_weight:
  assumes "0 < (n::int)"
  shows "real_of_int n * (1 / sqrt (real_of_int n))\<^sup>2 = 1"
  using assms by (simp add: power_divide)

lemma build_P_row_norm:
  assumes "- int t < offset" "offset < int t"
  shows "(\<Sum>c<t * t. (if c \<in> set (diag_cols t offset)
            then 1 / sqrt (real_of_int (int t - \<bar>offset\<bar>)) else 0)\<^sup>2) = 1"
proof -
  have sub: "set (diag_cols t offset) \<subseteq> {..<t * t}"
    using diag_cols_bound [OF assms] by auto
  have len: "real (length (diag_cols t offset)) = real_of_int (int t - \<bar>offset\<bar>)"
    using diag_cols_length [OF assms] by (metis of_int_of_nat_eq)
  have pos: "0 < int t - \<bar>offset\<bar>" using assms by linarith
  show ?thesis
    unfolding weight_sum [OF diag_cols_distinct [OF assms] sub] len
    using pos by (rule unit_weight)
qed

lemma weight_nonzero:
  assumes "- int t < offset" "offset < int t"
  shows "1 / sqrt (real_of_int (int t - \<bar>offset\<bar>)) \<noteq> 0"
proof -
  have "0 < int t - \<bar>offset\<bar>" using assms by linarith
  then show ?thesis by simp
qed

lemma build_P_entry:
  assumes "0 < t" "r < 2 * t - 1" "c < t * t" "build_P (int t) = Inr P"
  shows "entry P r c = (if c \<in> set (diag_cols t (row_offset t r))
                        then 1 / sqrt (real_of_int (int t - \<bar>row_offset t r\<bar>)) else 0)"
  using assms(4) unfolding build_P_loop [OF assms(1)] using assms(2,3) by auto

text \<open>
  Claim C7. For \<open>pt \<ge> 1\<close>, \<open>build_P pt\<close> returns an array of shape \<open>(2*pt - 1, pt\<^sup>2)\<close>. For
  every offset from \<open>-(pt-1)\<close> to \<open>pt-1\<close>, the columns \<open>diag_cols\<close> of the offset-th diagonal
  of the transposed index grid are \<open>pt - |offset|\<close> distinct columns, row \<open>offset + pt - 1\<close>
  holds \<open>1/sqrt (pt - |offset|)\<close> at these columns and zero at the others, its entries are
  nonzero exactly there, and the squares of the row sum to one.
\<close>

theorem build_P_rows:
  assumes "1 \<le> pt"
  shows "\<exists>P. build_P pt = Inr P \<and> nrows P = nat (2 * pt - 1) \<and> ncols P = nat (pt * pt) \<and>
    wf_ndarray P \<and>
    (\<forall>offset\<in>{- pt + 1..pt - 1}.
       distinct (diag_cols (nat pt) offset) \<and>
       int (length (diag_cols (nat pt) offset)) = pt - \<bar>offset\<bar> \<and>
       set (diag_cols (nat pt) offset) \<subseteq> {..<nat (pt * pt)} \<and>
       (\<forall>c<nat (pt * pt). entry P (nat (offset + pt - 1)) c =
          (if c \<in> set (diag_cols (nat pt) offset)
           then 1 / sqrt (real_of_int (pt - \<bar>offset\<bar>)) else 0)) \<and>
       (\<forall>c<nat (pt * pt). entry P (nat (offset + pt - 1)) c \<noteq> 0 \<longleftrightarrow>
          c \<in> set (diag_cols (nat pt) offset)) \<and>
       (\<Sum>c<nat (pt * pt). (entry P (nat (offset + pt - 1)) c)\<^sup>2) = 1)"
proof -
  define t where "t = nat pt"
  have pt: "pt = int t" and t: "0 < t" using assms by (simp_all add: t_def)
  have n: "nat (2 * int t - 1) = 2 * t - 1" "nat (int t * int t) = t * t"
    using t by (simp_all add: nat_mult_distrib nat_diff_distrib')
  obtain P where P: "build_P (int t) = Inr P"
    and Pdef: "P = tabulate (2 * t - 1) (t * t)
           (\<lambda>r c. if c \<in> set (diag_cols t (row_offset t r))
                  then 1 / sqrt (real_of_int (int t - \<bar>row_offset t r\<bar>)) else 0)"
    using build_P_loop [OF t] by blast
  have rows: "distinct (diag_cols t offset) \<and>
       int (length (diag_cols t offset)) = int t - \<bar>offset\<bar> \<and>
       set (diag_cols t offset) \<subseteq> {..<t * t} \<and>
       (\<forall>c<t * t. entry P (nat (offset + int t - 1)) c =
          (if c \<in> set (diag_cols t offset)
           then 1 / sqrt (real_of_int (int t - \<bar>offset\<bar>)) else 0)) \<and>
       (\<forall>c<t * t. entry P (nat (offset + int t - 1)) c \<noteq> 0 \<longleftrightarrow>
          c \<in> set (diag_cols t offset)) \<and>
       (\<Sum>c<t * t. (entry P (nat (offset + int t - 1)) c)\<^sup>2) = 1"
    if "offset \<in> {- int t + 1..int t - 1}" for offset
  proof -
    from that have o: "- int t < offset" "offset < int t" by simp_all
    define r where "r = nat (offset + int t - 1)"
    have r: "r < 2 * t - 1" and ro: "row_offset t r = offset"
      using o unfolding r_def row_offset_def by linarith+
    have e: "\<forall>c<t * t. entry P r c =
          (if c \<in> set (diag_cols t offset)
           then 1 / sqrt (real_of_int (int t - \<bar>offset\<bar>)) else 0)"
      using build_P_entry [OF t r _ P] unfolding ro by blast
    have nz: "\<forall>c<t * t. entry P r c \<noteq> 0 \<longleftrightarrow> c \<in> set (diag_cols t offset)"
      using e weight_nonzero [OF o] by simp
    have "(\<Sum>c<t * t. (entry P r c)\<^sup>2) =
        (\<Sum>c<t * t. (if c \<in> set (diag_cols t offset)
            then 1 / sqrt (real_of_int (int t - \<bar>offset\<bar>)) else 0)\<^sup>2)"
      by (rule sum.cong) (simp_all add: e)
    then have norm: "(\<Sum>c<t * t. (entry P r c)\<^sup>2) = 1"
      by (simp only: build_P_row_norm [OF o])
    show ?thesis
      unfolding r_def [symmetric]
      using diag_cols_distinct [OF o] diag_cols_length [OF o] diag_cols_bound [OF o] e nz norm
      by blast
  qed
  have shape: "nrows P = 2 * t - 1" "ncols P = t * t" "wf_ndarray P"
    unfolding Pdef by simp_all
  show ?thesis
    unfolding pt n nat_int using P shape rows by blast
qed

lemma build_P_2:
  "build_P 2 = Inr \<lparr>nrows = 3, ncols = 4,
     elems = [0, 1, 0, 0, 1 / sqrt 2, 0, 0, 1 / sqrt 2, 0, 0, 1, 0]\<rparr>"
proof -
  have d: "diag_cols 2 (- 1) = [1]" "diag_cols 2 0 = [0, 3]" "diag_cols 2 1 = [2]"
    using diag_cols_neg [of 1 2] diag_cols_nonneg [of 0 2] diag_cols_nonneg [of 1 2]
    by (simp_all add: upt_rec [of _ "numeral _"])
  show ?thesis
    using build_P_loop [of 2]
    by (simp add: tabulate_def row_offset_def d upt_rec [of _ "numeral _"])
qed

lemma entry_transpose_nd:
  "i < ncols M \<Longrightarrow> j < nrows M \<Longrightarrow> entry (transpose_nd M) i j = entry M j i"
  by (simp add: transpose_nd_def)

lemma sum_list_zero: "(\<And>x. x \<in> set xs \<Longrightarrow> f x = (0::real)) \<Longrightarrow> sum_list (map f xs) = 0"
  by (induction xs) simp_all

text \<open>
  Claim C10. For \<open>pt \<ge> 1\<close>, every column of \<open>build_P pt\<close> has exactly one nonzero entry (the
  rows have pairwise disjoint supports), and the product of the array with its transpose
  is the identity matrix of side \<open>2*pt - 1\<close>.
\<close>

theorem build_P_orthonormal:
  assumes "1 \<le> pt"
  shows "\<exists>P. build_P pt = Inr P \<and>
    (\<forall>c<nat (pt * pt). \<exists>!r. r < nat (2 * pt - 1) \<and> entry P r c \<noteq> 0) \<and>
    dot P (transpose_nd P) = Inr (eye (nat (2 * pt - 1)))"
proof -
  define t where "t = nat pt"
  have pt: "pt = int t" and t: "0 < t" using assms by (simp_all add: t_def)
  have n: "nat (2 * int t - 1) = 2 * t - 1" "nat (int t * int t) = t * t"
    using t by (simp_all add: nat_mult_distrib nat_diff_distrib')
  let ?w = "\<lambda>r. 1 / sqrt (real_of_int (int t - \<bar>row_offset t r\<bar>))"
  let ?f = "\<lambda>r c. if c \<in> set (diag_cols t (row_offset t r)) then ?w r else 0"
  obtain P where P: "build_P (int t) = Inr P" and Pdef: "P = tabulate (2 * t - 1) (t * t) ?f"
    using build_P_loop [OF t] by blast
  have shape: "nrows P = 2 * t - 1" "ncols P = t * t" unfolding Pdef by simp_all
  have e: "entry P r c = ?f r c" if "r < 2 * t - 1" "c < t * t" for r c
    using that unfolding Pdef by simp
  have nz: "entry P r c \<noteq> 0 \<longleftrightarrow> int (c div t) - int (c mod t) = row_offset t r"
    if "r < 2 * t - 1" "c < t * t" for r c
    using e [OF that] weight_nonzero [OF row_offset_range [OF that(1)]]
      diag_cols_member [OF row_offset_range [OF that(1)] that(2)] by simp
  have col: "\<exists>!r. r < 2 * t - 1 \<and> entry P r c \<noteq> 0" if c: "c < t * t" for c
  proof -
    define r0 where "r0 = nat (int (c div t) - int (c mod t) + int t - 1)"
    have "c div t < t" "c mod t < t" using c t by (simp_all add: div_less_rows)
    then have r0: "r0 < 2 * t - 1" "row_offset t r0 = int (c div t) - int (c mod t)"
      unfolding r0_def row_offset_def by linarith+
    show ?thesis
    proof (rule ex1I [of _ r0])
      show "r0 < 2 * t - 1 \<and> entry P r0 c \<noteq> 0" using r0 nz [OF r0(1) c] by simp
    next
      fix r assume "r < 2 * t - 1 \<and> entry P r c \<noteq> 0"
      then have "row_offset t r = row_offset t r0" using nz [of r c] c r0(2) by simp
      then show "r = r0" unfolding row_offset_def by simp
    qed
  qed
  have prod: "sum_list (map (\<lambda>k. entry P i k * entry (transpose_nd P) k j) [0..<t * t]) =
      (if i = j then 1 else 0)" if i: "i < 2 * t - 1" and j: "j < 2 * t - 1" for i j
  proof (cases "i = j")
    case True
    have "sum_list (map (\<lambda>k. entry P i k * entry (transpose_nd P) k j) [0..<t * t]) =
        (\<Sum>k<t * t. entry P i k * entry (transpose_nd P) k j)"
      by (simp add: interv_sum_list_conv_sum_set_nat atLeast0LessThan)
    also have "\<dots> = (\<Sum>k<t * t. (?f i k)\<^sup>2)"
    proof (rule sum.cong)
      fix k assume "k \<in> {..<t * t}"
      then have k: "k < t * t" by simp
      have "entry (transpose_nd P) k j = entry P i k"
        using k i True by (simp add: entry_transpose_nd shape)
      then show "entry P i k * entry (transpose_nd P) k j = (?f i k)\<^sup>2"
        unfolding power2_eq_square by (simp only: e [OF i k])
    qed simp
    also have "\<dots> = 1"
      by (rule build_P_row_norm [OF row_offset_range [OF i]])
    finally show ?thesis using True by simp
  next
    case False
    have "entry P i k * entry (transpose_nd P) k j = 0" if "k \<in> set [0..<t * t]" for k
    proof -
      from that have k: "k < t * t" by simp
      have "\<not> (entry P i k \<noteq> 0 \<and> entry P j k \<noteq> 0)"
      proof
        assume "entry P i k \<noteq> 0 \<and> entry P j k \<noteq> 0"
        then have "row_offset t i = row_offset t j"
          using nz [OF i k] nz [OF j k] by simp
        then show False using False unfolding row_offset_def by simp
      qed
      moreover have "entry (transpose_nd P) k j = entry P j k"
        using k j by (simp add: entry_transpose_nd shape)
      ultimately show ?thesis by auto
    qed
    then have "sum_list (map (\<lambda>k. entry P i k * entry (transpose_nd P) k j) [0..<t * t]) = 0"
      by (rule sum_list_zero)
    then show ?thesis using False by simp
  qed
  have "dot P (transpose_nd P) = Inr (tabulate (2 * t - 1) (2 * t - 1)
      (\<lambda>i j. sum_list (map (\<lambda>k. entry P i k * entry (transpose_nd P) k j) [0..<t * t])))"
    unfolding dot_def by (simp add: shape transpose_nd_def)
  also have "tabulate (2 * t - 1) (2 * t - 1)
      (\<lambda>i j. sum_list (map (\<lambda>k. entry P i k * entry (transpose_nd P) k j) [0..<t * t])) =
      eye (2 * t - 1)"
    unfolding eye_def by (rule tabulate_cong) (rule prod)
  finally have d: "dot P (transpose_nd P) = Inr (eye (2 * t - 1))" .
  show ?thesis
    unfolding pt n nat_int using P col d by blast
qed

theorem build_P_rows_witness:
  "(1::int) \<le> 2 \<and>
   build_P 2 = Inr \<lparr>nrows = 3, ncols = 4,
     elems = [0, 1, 0, 0, 1 / sqrt 2, 0, 0, 1 / sqrt 2, 0, 0, 1, 0]\<rparr> \<and>
   (\<Sum>c<nat (2 * 2). (entry \<lparr>nrows = 3, ncols = 4,
     elems = [0, 1, 0, 0, 1 / sqrt 2, 0, 0, 1 / sqrt 2, 0, 0, 1, 0]\<rparr> (nat (0 + 2 - 1)) c)\<^sup>2) = 1"
proof -
  obtain P where P: "build_P 2 = Inr P"
    and rows: "\<forall>offset\<in>{- 2 + 1..2 - 1}.
       (\<Sum>c<nat (2 * 2). (entry P (nat (offset + 2 - 1)) c)\<^sup>2) = 1"
    using build_P_rows [of 2] by auto
  have "(0::int) \<in> {- 2 + 1..2 - 1}" by simp
  with rows have "(\<Sum>c<nat (2 * 2). (entry P (nat (0 + 2 - 1)) c)\<^sup>2) = 1" by (rule bspec)
  with P build_P_2 show ?thesis by simp
qed

theorem build_P_orthonormal_witness:
  "(1::int) \<le> 2 \<and>
   dot \<lparr>nrows = 3, ncols = 4, elems = [0, 1, 0, 0, 1 / sqrt 2, 0, 0, 1 / sqrt 2, 0, 0, 1, 0]\<rparr>
     (transpose_nd \<lparr>nrows = 3, ncols = 4,
        elems = [0, 1, 0, 0, 1 / sqrt 2, 0, 0, 1 / sqrt 2, 0, 0, 1, 0]\<rparr>) = Inr (eye (nat (2 * 2 - 1)))"
  using build_P_orthonormal [of 2] build_P_2 by auto

section \<open>The unconstrained solver against the specification\<close>

lemma shape_add_nd [simp]: "nrows (add_nd A B) = nrows A" "ncols (add_nd A B) = ncols A"
  and shape_sub_nd [simp]: "nrows (sub_nd A B) = nrows A" "ncols (sub_nd A B) = ncols A"
  and shape_map_nd [simp]: "nrows (map_nd f A) = nrows A" "ncols (map_nd f A) = ncols A"
  and shape_scale_nd [simp]: "nrows (scale_nd x A) = nrows A" "ncols (scale_nd x A) = ncols A"
  and shape_soft_entrywise [simp]: "nrows (soft_entrywise_threshold A x) = nrows A"
     "ncols (soft_entrywise_threshold A x) = ncols A"
  by (simp_all add: add_nd_def sub_nd_def map_nd_def scale_nd_def soft_entrywise_threshold_def)

lemma wf_add_nd [simp]: "wf_ndarray (add_nd A B)" and wf_sub_nd [simp]: "wf_ndarray (sub_nd A B)"
  by (simp_all add: add_nd_def sub_nd_def)

lemma soft_sv_threshold_conforms:
  assumes "svd_conforms la r c" "nrows M = r" "ncols M = c"
  shows "\<exists>L. soft_sv_threshold la M x = Inr L \<and> nrows L = r \<and> ncols L = c \<and> wf_ndarray L"
proof -
  obtain U s Vh where svd: "scipy_svd la M = (U, s, Vh)" by (cases "scipy_svd la M") auto
  with assms have sh: "nrows U = r" "ncols U = length s" "nrows Vh = length s" "ncols Vh = c"
    unfolding svd_conforms_def by (auto dest!: spec [of _ M])
  show ?thesis
    unfolding soft_sv_threshold_def svd by (simp add: dot_def diag_nd_def sh Let_def)
qed




lemma kron_unrolled_shapes:
  assumes "svd_conforms la r c" "nrows R = r" "ncols R = c"
  shows "\<exists>L S M. kron_unrolled la R lL lS tau n = Inr (L, S, M) \<and>
           nrows L = r \<and> ncols L = c \<and> nrows M = r \<and> ncols M = c"
proof (induction n)
  case 0
  show ?case using assms(2,3) by (simp add: Let_def)
next
  case (Suc n)
  then obtain L S M where st: "kron_unrolled la R lL lS tau n = Inr (L, S, M)"
    and sh: "nrows M = r" "ncols M = c" by blast
  obtain L' where L': "soft_sv_threshold la (sub_nd M S) (tau (Suc n) * lL) = Inr L'"
      "nrows L' = r" "ncols L' = c"
    using soft_sv_threshold_conforms [OF assms(1), of "sub_nd M S"] sh by auto
  show ?case by (simp add: st L' Let_def)
qed

lemma map_nd_tabulate: "map_nd f (tabulate r c g) = tabulate r c (\<lambda>i j. f (g i j))"
  by (simp add: map_nd_def tabulate_def)





lemma pv_int_facts:
  "nat (int s * int t) = s * t" "nat (int t * int t) = t * t" "nat (int s * int s) = s * s"
  "\<not> int s * int t < 0"
proof -
  show "nat (int s * int t) = s * t" "nat (int t * int t) = t * t" "nat (int s * int s) = s * s"
    by (simp_all add: nat_mult_distrib)
  have "0 \<le> int s * int t" by (rule mult_nonneg_nonneg) simp_all
  then show "\<not> int s * int t < 0" by linarith
qed

lemma pv_rearrange_enough:
  assumes "t * t * (s * s) \<le> length (elems C)"
  shows "pv_rearrange C (int s) (int t) =
     Inr \<lparr>nrows = t * t, ncols = s * s, elems = map (\<lambda>k. elems C ! k) (pv_perm s t)\<rparr>"
proof -
  have "\<forall>k\<in>set (pv_perm s t). k < length (elems C)"
    using assms by (auto simp: pv_perm_set)
  then show ?thesis
    unfolding pv_rearrange_def pv_permutation_closed_form pv_int_facts
    by (simp add: take_indices_def reshape_def)
qed

lemma pv_rearrange_short:
  assumes "length (elems C) < t * t * (s * s)"
  shows "pv_rearrange C (int s) (int t) = Inl IndexError"
proof -
  have "t * t * (s * s) - 1 \<in> set (pv_perm s t)" using assms by (simp add: pv_perm_set)
  moreover have "\<not> t * t * (s * s) - 1 < length (elems C)" using assms by linarith
  ultimately have "\<not> (\<forall>k\<in>set (pv_perm s t). k < length (elems C))" by blast
  then have "take_indices (elems C) (pv_perm s t) = Inl IndexError"
    unfolding take_indices_def by (rule if_not_P)
  then show ?thesis
    unfolding pv_rearrange_def pv_permutation_closed_form by simp
qed

lemma pv_rearrange_inv_exact:
  assumes "length (elems X) = t * t * (s * s)"
  shows "pv_rearrange_inv X (int s) (int t) =
     Inr \<lparr>nrows = s * t, ncols = s * t, elems = map (\<lambda>k. elems X ! k) (argsort (pv_perm s t))\<rparr>"
proof -
  have sq: "t * t * (s * s) = s * t * (s * t)" by (simp add: mult_ac)
  have "take_indices (elems X) (argsort (pv_perm s t)) =
      Inr (map (\<lambda>k. elems X ! k) (argsort (pv_perm s t)))"
    by (rule take_indices_argsort) (simp add: assms)
  then show ?thesis
    unfolding pv_rearrange_inv_def pv_permutation_closed_form
    by (simp add: pv_int_facts reshape_def sq)
qed


section \<open>Concrete runs on 1-by-1 arrays\<close>

lemma svd_conforms_1x1: "svd_conforms linalg_1x1 1 1"
  by (simp add: svd_conforms_def linalg_1x1_def)

lemma tabulate_1x1: "tabulate (Suc 0) (Suc 0) f = \<lparr>nrows = Suc 0, ncols = Suc 0, elems = [f 0 0]\<rparr>"
  by (simp add: tabulate_def)

lemma entry_1x1 [simp]: "entry \<lparr>nrows = r, ncols = c, elems = x # xs\<rparr> 0 0 = x"
  by (simp add: entry_def)

lemma pv_perm_1_1: "pv_perm (Suc 0) (Suc 0) = [0]"
  by (simp add: pv_perm_def pv_index_def)

lemma pv_rearrange_1x1:
  "pv_rearrange \<lparr>nrows = r, ncols = c, elems = x # xs\<rparr> 1 1 = Inr \<lparr>nrows = Suc 0, ncols = Suc 0, elems = [x]\<rparr>"
  using pv_rearrange_enough [of 1 1 "\<lparr>nrows = r, ncols = c, elems = x # xs\<rparr>"]
  by (simp add: pv_perm_1_1)

lemma pv_rearrange_inv_1x1:
  "pv_rearrange_inv \<lparr>nrows = r, ncols = c, elems = [x]\<rparr> 1 1 = Inr \<lparr>nrows = Suc 0, ncols = Suc 0, elems = [x]\<rparr>"
  using pv_rearrange_inv_exact [of "\<lparr>nrows = r, ncols = c, elems = [x]\<rparr>" 1 1]
  by (simp add: pv_perm_1_1 argsort_def)

lemma soft_sv_threshold_1x1:
  "soft_sv_threshold linalg_1x1 \<lparr>nrows = Suc 0, ncols = Suc 0, elems = [x]\<rparr> lam =
     Inr \<lparr>nrows = Suc 0, ncols = Suc 0, elems = [max (\<bar>x\<bar> - lam) 0 * sgn x]\<rparr>"
  by (simp add: soft_sv_threshold_def linalg_1x1_def dot_def diag_nd_def tabulate_1x1)

lemma arith_1x1:
  "add_nd \<lparr>nrows = Suc 0, ncols = Suc 0, elems = [x]\<rparr> \<lparr>nrows = Suc 0, ncols = Suc 0, elems = [y]\<rparr> =
     \<lparr>nrows = Suc 0, ncols = Suc 0, elems = [x + y]\<rparr>"
  "sub_nd \<lparr>nrows = Suc 0, ncols = Suc 0, elems = [x]\<rparr> \<lparr>nrows = Suc 0, ncols = Suc 0, elems = [y]\<rparr> =
     \<lparr>nrows = Suc 0, ncols = Suc 0, elems = [x - y]\<rparr>"
  "scale_nd a \<lparr>nrows = Suc 0, ncols = Suc 0, elems = [x]\<rparr> = \<lparr>nrows = Suc 0, ncols = Suc 0, elems = [a * x]\<rparr>"
  "soft_entrywise_threshold \<lparr>nrows = Suc 0, ncols = Suc 0, elems = [x]\<rparr> lam =
     \<lparr>nrows = Suc 0, ncols = Suc 0, elems = [soft_threshold lam x]\<rparr>"
  "zeros (Suc 0) (Suc 0) = \<lparr>nrows = Suc 0, ncols = Suc 0, elems = [0::real]\<rparr>"
  by (simp_all add: add_nd_def sub_nd_def scale_nd_def map_nd_def soft_entrywise_threshold_def
      zeros_def tabulate_1x1)

lemma kron_example:
  "prox_grad_robust_kron_pca linalg_1x1 \<lparr>nrows = 1, ncols = 1, elems = [1]\<rparr> 1 1 1 0 2 (Scalar (1 / 2)) =
     Inr \<lparr>nrows = 1, ncols = 1, elems = [1 / 2]\<rparr>"
  by (simp add: prox_grad_robust_kron_pca_def pv_rearrange_1x1 pv_rearrange_inv_1x1
      soft_sv_threshold_1x1 arith_1x1 soft_threshold_def upt_rec [of _ "numeral _"] Let_def)

lemma build_P_1: "build_P 1 = Inr \<lparr>nrows = Suc 0, ncols = Suc 0, elems = [1]\<rparr>"
proof -
  have "diag_cols 1 0 = [0]" using diag_cols_nonneg [of 0 1] by simp
  then show ?thesis
    using build_P_loop [of 1] by (simp add: tabulate_def row_offset_def)
qed

lemma toeplitz_1x1:
  "dot \<lparr>nrows = Suc 0, ncols = Suc 0, elems = [x]\<rparr> \<lparr>nrows = Suc 0, ncols = Suc 0, elems = [y]\<rparr> =
     Inr \<lparr>nrows = Suc 0, ncols = Suc 0, elems = [x * y]\<rparr>"
  "transpose_nd \<lparr>nrows = Suc 0, ncols = Suc 0, elems = [x]\<rparr> =
     \<lparr>nrows = Suc 0, ncols = Suc 0, elems = [x]\<rparr>"
  "threshold_rows 1 tau lambda_S \<lparr>nrows = Suc 0, ncols = Suc 0, elems = [m]\<rparr>
     \<lparr>nrows = Suc 0, ncols = Suc 0, elems = [l]\<rparr> \<lparr>nrows = Suc 0, ncols = Suc 0, elems = [z]\<rparr> =
     \<lparr>nrows = Suc 0, ncols = Suc 0, elems = [soft_threshold (tau * lambda_S) (m - l)]\<rparr>"
  "nonzero \<lparr>nrows = Suc 0, ncols = Suc 0, elems = [x]\<rparr> = (if x \<noteq> 0 then ([0], [0]) else ([], []))"
  by (simp_all add: dot_def transpose_nd_def threshold_rows_def set_row_def row_of_def nonzero_def
      tabulate_1x1 Let_def)

lemma toeplitz_example_sparsity:
  "prox_grad_robust_toeplitz_kron_pca linalg_1x1 \<lparr>nrows = 1, ncols = 1, elems = [1]\<rparr> 1 1 1 0
     (1 / 2) (1 / 10 ^ 8) 2 20 = Inr (\<lparr>nrows = 1, ncols = 1, elems = [1 / 2]\<rparr>, 1, 0)"
  by (simp add: prox_grad_robust_toeplitz_kron_pca_def build_P_1 pv_rearrange_1x1
      pv_rearrange_inv_1x1 soft_sv_threshold_1x1 arith_1x1 toeplitz_1x1 soft_threshold_def
      sum_index_arrays_def linalg_1x1_def [THEN arg_cong, of np_matrix_rank]
      upt_rec [of _ "numeral _"] Let_def)

section \<open>When the Toeplitz-constrained solver returns, and when the entry points fail\<close>

lemma shape_set_row [simp]: "nrows (set_row M r v) = nrows M" "ncols (set_row M r v) = ncols M"
  by (simp_all add: set_row_def)

lemma shape_threshold_rows [simp]:
  "nrows (threshold_rows pt tau lS M L S) = nrows S" "ncols (threshold_rows pt tau lS M L S) = ncols S"
proof -
  have "nrows (fold f js S) = nrows S \<and> ncols (fold f js S) = ncols S"
    if "\<And>j S. nrows (f j S) = nrows S \<and> ncols (f j S) = ncols S"
    for f :: "int \<Rightarrow> real ndarray \<Rightarrow> real ndarray" and js
    using that by (induction js arbitrary: S) simp_all
  then show "nrows (threshold_rows pt tau lS M L S) = nrows S"
    "ncols (threshold_rows pt tau lS M L S) = ncols S"
    unfolding threshold_rows_def by (simp_all add: Let_def)
qed

lemma shape_transpose_nd [simp]:
  "nrows (transpose_nd M) = ncols M" "ncols (transpose_nd M) = nrows M"
  by (simp_all add: transpose_nd_def)

lemma check_succeeds:
  assumes "nrows P = 2 * t - 1" "ncols P = t * t" "nrows A = 2 * t - 1" "ncols A = s * s"
  shows "\<exists>PA cov. dot (transpose_nd P) A = Inr PA \<and> pv_rearrange_inv PA (int s) (int t) = Inr cov"
proof -
  have "dot (transpose_nd P) A = Inr (tabulate (t * t) (s * s)
      (\<lambda>i j. sum_list (map (\<lambda>k. entry (transpose_nd P) i k * entry A k j) [0..<2 * t - 1])))"
    unfolding dot_def using assms by simp
  moreover have "\<exists>cov. pv_rearrange_inv (tabulate (t * t) (s * s) f) (int s) (int t) = Inr cov" for f :: "nat \<Rightarrow> nat \<Rightarrow> real"
    using pv_rearrange_inv_exact [of "tabulate (t * t) (s * s) f" t s] by simp
  ultimately show ?thesis by auto
qed

lemma toeplitz_iterations_later:
  assumes conf: "svd_conforms la (2 * t - 1) (s * s)"
    and P: "nrows P = 2 * t - 1" "ncols P = t * t"
    and iv: "stop_cond_interval \<noteq> 0"
    and ks: "\<forall>k\<in>set ks. 0 < k"
    and st: "nrows M = 2 * t - 1" "ncols M = s * s" "nrows S = 2 * t - 1" "ncols S = s * s"
      "nrows L = 2 * t - 1" "ncols L = s * s"
  shows "\<exists>M' S' L' cov'.
     toeplitz_iterations la P R_tilde (int s) (int t) lL lS tau tol stop_cond_interval ks (M, S, L, Some cov) =
       Inr (M', S', L', Some cov') \<and>
     nrows M' = 2 * t - 1 \<and> ncols M' = s * s \<and> nrows S' = 2 * t - 1 \<and> ncols S' = s * s \<and>
     nrows L' = 2 * t - 1 \<and> ncols L' = s * s"
  using ks st
proof (induction ks arbitrary: M S L cov)
  case Nil
  then show ?case by simp
next
  case (Cons k ks)
  obtain L1 where L1: "soft_sv_threshold la (sub_nd M S) (tau * lL) = Inr L1"
      "nrows L1 = 2 * t - 1" "ncols L1 = s * s"
    using soft_sv_threshold_conforms [OF conf, of "sub_nd M S"] Cons.prems by auto
  define S1 where "S1 = threshold_rows (int t) tau lS M L S"
  define M1 where "M1 = sub_nd (add_nd L1 S1) (scale_nd tau (sub_nd (add_nd L1 S1) R_tilde))"
  have sh: "nrows M1 = 2 * t - 1" "ncols M1 = s * s" "nrows S1 = 2 * t - 1" "ncols S1 = s * s"
    unfolding M1_def S1_def using L1 Cons.prems by simp_all
  obtain PA c1 where chk: "dot (transpose_nd P) (add_nd L1 S1) = Inr PA"
      "pv_rearrange_inv PA (int s) (int t) = Inr c1"
    using check_succeeds [OF P, of "add_nd L1 S1" s] L1 by auto
  have k: "0 < k" and rest: "\<forall>k\<in>set ks. 0 < k" using Cons.prems(1) by simp_all
  have IH: "\<exists>M' S' L' cov'.
     toeplitz_iterations la P R_tilde (int s) (int t) lL lS tau tol stop_cond_interval ks (M1, S1, L1, Some c) =
       Inr (M', S', L', Some cov') \<and>
     nrows M' = 2 * t - 1 \<and> ncols M' = s * s \<and> nrows S' = 2 * t - 1 \<and> ncols S' = s * s \<and>
     nrows L' = 2 * t - 1 \<and> ncols L' = s * s" for c
    by (rule Cons.IH [OF rest sh L1(2,3)])
  show ?case
    unfolding toeplitz_iterations.simps L1 sum.case Let_def S1_def [symmetric] M1_def [symmetric] chk
    using iv k IH [of c1] IH [of cov] sh L1 by auto
qed

lemma build_P_shape:
  assumes "0 < t"
  shows "\<exists>P. build_P (int t) = Inr P \<and> nrows P = 2 * t - 1 \<and> ncols P = t * t"
  using build_P_loop [OF assms] by simp

lemma toeplitz_solver_returns:
  assumes "0 < s" "0 < t" "t * t * (s * s) \<le> length (elems C)"
    and "1 \<le> max_iter" "stop_cond_interval \<noteq> 0"
    and conf: "svd_conforms la (2 * t - 1) (s * s)"
  shows "\<exists>res. prox_grad_robust_toeplitz_kron_pca la C (int s) (int t) lL lS tau tol max_iter
            stop_cond_interval = Inr res"
proof -
  obtain P where P: "build_P (int t) = Inr P" "nrows P = 2 * t - 1" "ncols P = t * t"
    using build_P_shape [OF assms(2)] by blast
  define R where "R = \<lparr>nrows = t * t, ncols = s * s, elems = map (\<lambda>k. elems C ! k) (pv_perm s t)\<rparr>"
  have R: "pv_rearrange C (int s) (int t) = Inr R"
    unfolding R_def by (rule pv_rearrange_enough [OF assms(3)])
  define Rt where "Rt = tabulate (2 * t - 1) (s * s)
      (\<lambda>i j. sum_list (map (\<lambda>k. entry P i k * entry R k j) [0..<t * t]))"
  have Rt: "dot P R = Inr Rt" unfolding dot_def Rt_def using P by (simp add: R_def)
  have Rsh: "nrows Rt = 2 * t - 1" "ncols Rt = s * s" by (simp_all add: Rt_def)
  define n where "n = nat max_iter"
  have n: "[0..<n] = 0 # [1..<n]" using assms(4) unfolding n_def by (simp add: upt_conv_Cons)
  define S0 where "S0 = (zeros (nrows Rt) (ncols Rt) :: real ndarray)"
  define M0 where "M0 = add_nd Rt S0"
  have sh0: "nrows M0 = 2 * t - 1" "ncols M0 = s * s" "nrows S0 = 2 * t - 1" "ncols S0 = s * s"
    unfolding M0_def S0_def using Rsh by (simp_all add: zeros_def)
  obtain L1 where L1: "soft_sv_threshold la (sub_nd M0 S0) (tau * lL) = Inr L1"
      "nrows L1 = 2 * t - 1" "ncols L1 = s * s"
    using soft_sv_threshold_conforms [OF conf, of "sub_nd M0 S0"] sh0 by auto
  define S1 where "S1 = threshold_rows (int t) tau lS M0 Rt S0"
  define M1 where "M1 = sub_nd (add_nd L1 S1) (scale_nd tau (sub_nd (add_nd L1 S1) Rt))"
  have sh1: "nrows M1 = 2 * t - 1" "ncols M1 = s * s" "nrows S1 = 2 * t - 1" "ncols S1 = s * s"
    unfolding M1_def S1_def using L1 sh0 by simp_all
  obtain PA c1 where chk: "dot (transpose_nd P) (add_nd L1 S1) = Inr PA"
      "pv_rearrange_inv PA (int s) (int t) = Inr c1"
    using check_succeeds [OF P(2,3), of "add_nd L1 S1" s] L1 by auto
  have later: "\<forall>k\<in>set [1..<n]. 0 < k" by simp
  obtain M' S' L' cov' where fin:
    "toeplitz_iterations la P Rt (int s) (int t) lL lS tau tol stop_cond_interval [1..<n] (M1, S1, L1, Some c1) =
       Inr (M', S', L', Some cov')" "nrows L' = 2 * t - 1"
    using toeplitz_iterations_later [OF conf P(2,3) assms(5) later sh1 L1(2,3)] by blast
  have loop: "toeplitz_iterations la P Rt (int s) (int t) lL lS tau tol stop_cond_interval [0..<n]
      (M0, S0, Rt, None) = Inr (M', S', L', Some cov')"
    unfolding n toeplitz_iterations.simps L1 sum.case Let_def S1_def [symmetric] M1_def [symmetric] chk
    using assms(5) fin(1) by simp
  have "\<exists>PL. dot (transpose_nd P) L' = Inr PL"
    unfolding dot_def using P fin(2) by simp
  then obtain PL where PL: "dot (transpose_nd P) L' = Inr PL" ..
  show ?thesis
    unfolding prox_grad_robust_toeplitz_kron_pca_def P(1) R Rt sum.case Let_def
      S0_def [symmetric] M0_def [symmetric] n_def [symmetric] loop
    using assms(4) by (simp add: PL)
qed

lemma toeplitz_solver_bad_dims:
  assumes "pt \<le> 0 \<or> ps < 0"
  shows "prox_grad_robust_toeplitz_kron_pca la C ps pt lL lS tau tol max_iter stop_cond_interval =
           Inl ValueError"
proof (cases "pt \<le> 0")
  case True
  then have "build_P pt = Inl ValueError" by (simp add: build_P_def)
  then show ?thesis by (simp add: prox_grad_robust_toeplitz_kron_pca_def)
next
  case False
  with assms have ps: "ps < 0" and pt: "0 < pt" by simp_all
  then have "ps * pt < 0" by (rule mult_neg_pos)
  then have "pv_rearrange C ps pt = Inl ValueError"
    by (simp add: pv_rearrange_def pv_permutation_def)
  moreover obtain P where "build_P pt = Inr P"
    using build_P_shape [of "nat pt"] pt by auto
  ultimately show ?thesis by (simp add: prox_grad_robust_toeplitz_kron_pca_def)
qed

lemma cross_validate_bad_config:
  shows "num_folds = 0 \<Longrightarrow>
          cross_validate_toeplitz_fit la X ps pt lL lS num_folds tau tol max_iter stop_cond_interval =
            Inl ZeroDivisionError"
    and "num_folds < 0 \<Longrightarrow>
          cross_validate_toeplitz_fit la X ps pt lL lS num_folds tau tol max_iter stop_cond_interval =
            Inl ValueError"
    and "0 < num_folds \<Longrightarrow> pt \<le> 0 \<or> ps < 0 \<Longrightarrow>
          cross_validate_toeplitz_fit la X ps pt lL lS num_folds tau tol max_iter stop_cond_interval =
            Inl ValueError"
proof -
  show "num_folds = 0 \<Longrightarrow>
          cross_validate_toeplitz_fit la X ps pt lL lS num_folds tau tol max_iter stop_cond_interval =
            Inl ZeroDivisionError"
    by (simp add: cross_validate_toeplitz_fit_def)
  show "num_folds < 0 \<Longrightarrow>
          cross_validate_toeplitz_fit la X ps pt lL lS num_folds tau tol max_iter stop_cond_interval =
            Inl ValueError"
    by (simp add: cross_validate_toeplitz_fit_def)
  assume k: "0 < num_folds" and bad: "pt \<le> 0 \<or> ps < 0"
  have l: "[0..<nat num_folds] = 0 # [1..<nat num_folds]"
    using k by (simp add: upt_conv_Cons)
  show "cross_validate_toeplitz_fit la X ps pt lL lS num_folds tau tol max_iter stop_cond_interval =
            Inl ValueError"
    unfolding cross_validate_toeplitz_fit_def Let_def l
    using k by (simp add: cv_fold_def Let_def toeplitz_solver_bad_dims [OF bad])
qed

lemma for_each_empty_inner: "for_each (\<lambda>i. for_each (b i) []) xs st = Inr st"
  by (induction xs) simp_all

lemma regularize_cov_bad_config:
  assumes "num_folds \<le> 0 \<or> pt \<le> 0 \<or> ps < 0"
  shows "\<exists>e. regularize_cov la X ps pt lSv lLv num_folds tau tol max_iter stop_cond_interval = Inl e"
proof (cases "num_folds < 0")
  case True
  then show ?thesis by (simp add: regularize_cov_def)
next
  case False
  have cv: "\<exists>e. cross_validate_toeplitz_fit la X ps pt lL lS num_folds tau tol max_iter
      stop_cond_interval = Inl e" for lL lS
  proof (cases "num_folds = 0")
    case True
    then show ?thesis by (simp add: cross_validate_bad_config(1))
  next
    case nz: False
    with False assms have "0 < num_folds" "pt \<le> 0 \<or> ps < 0" by auto
    then show ?thesis by (simp add: cross_validate_bad_config(3))
  qed
  show ?thesis
  proof (cases "lLv = [] \<or> lSv = []")
    case True
    then show ?thesis
    proof
      assume "lLv = []"
      then show ?thesis using False by (simp add: regularize_cov_def argmax_def Let_def)
    next
      assume "lSv = []"
      then show ?thesis
        using False by (simp add: regularize_cov_def for_each_empty_inner argmax_def Let_def)
    qed
  next
    case nonempty: False
    then have l: "[0..<length lLv] = 0 # [1..<length lLv]" "[0..<length lSv] = 0 # [1..<length lSv]"
      by (simp_all add: upt_conv_Cons)
    obtain e where e: "cross_validate_toeplitz_fit la X ps pt (lLv ! 0) (lSv ! 0) num_folds tau tol
        max_iter stop_cond_interval = Inl e"
      using cv by blast
    show ?thesis
      unfolding regularize_cov_def Let_def l using False by (simp add: e)
  qed
qed

section \<open>Inputs of the wrong shape\<close>

lemma pv_rearrange_truncate:
  assumes "t * t * (s * s) \<le> length (elems C)"
  shows "pv_rearrange C (int s) (int t) =
         pv_rearrange \<lparr>nrows = s * t, ncols = s * t, elems = take (s * t * (s * t)) (elems C)\<rparr> (int s) (int t)"
proof -
  have sq: "s * t * (s * t) = t * t * (s * s)" by (simp add: mult_ac)
  have "map (\<lambda>k. take (t * t * (s * s)) (elems C) ! k) (pv_perm s t) =
      map (\<lambda>k. elems C ! k) (pv_perm s t)"
    by (rule map_cong) (simp_all add: pv_perm_set)
  then show ?thesis
    unfolding sq using assms
    by (simp add: pv_rearrange_enough)
qed

text \<open>
  Claim C9, as amended. The code has no shape check. For positive \<open>ps\<close>, \<open>pt\<close> and a square
  input of side \<open>n\<close> other than \<open>ps*pt\<close>: when \<open>n < ps*pt\<close> the rearrangement and both
  solvers fail with the IndexError of the index lookup, before any iteration; when
  \<open>n > ps*pt\<close> nothing is raised for the shape, and the rearrangement and both solvers
  behave as on the array of side \<open>ps*pt\<close> made of the first \<open>(ps*pt)\<^sup>2\<close> entries of the
  flattened input.
\<close>

theorem solver_shape_mismatch:
  assumes "1 \<le> ps" and "1 \<le> pt"
    and "wf_ndarray C" and "nrows C = n" and "ncols C = n" and "n \<noteq> nat (ps * pt)"
  shows "(n < nat (ps * pt) \<longrightarrow>
           pv_rearrange C ps pt = Inl IndexError \<and>
           prox_grad_robust_kron_pca la C ps pt lambda_L lambda_S num_iter tau = Inl IndexError \<and>
           prox_grad_robust_toeplitz_kron_pca la C ps pt lambda_L lambda_S tau' tol max_iter
             stop_cond_interval = Inl IndexError) \<and>
         (nat (ps * pt) < n \<longrightarrow>
           (\<exists>R. pv_rearrange C ps pt = Inr R) \<and>
           pv_rearrange C ps pt =
             pv_rearrange \<lparr>nrows = nat (ps * pt), ncols = nat (ps * pt),
                elems = take (nat (ps * pt) * nat (ps * pt)) (elems C)\<rparr> ps pt \<and>
           prox_grad_robust_kron_pca la C ps pt lambda_L lambda_S num_iter tau =
             prox_grad_robust_kron_pca la \<lparr>nrows = nat (ps * pt), ncols = nat (ps * pt),
                elems = take (nat (ps * pt) * nat (ps * pt)) (elems C)\<rparr> ps pt lambda_L lambda_S
                num_iter tau \<and>
           prox_grad_robust_toeplitz_kron_pca la C ps pt lambda_L lambda_S tau' tol max_iter
             stop_cond_interval =
             prox_grad_robust_toeplitz_kron_pca la \<lparr>nrows = nat (ps * pt), ncols = nat (ps * pt),
                elems = take (nat (ps * pt) * nat (ps * pt)) (elems C)\<rparr> ps pt lambda_L lambda_S
                tau' tol max_iter stop_cond_interval)"
proof -
  define s t where "s = nat ps" and "t = nat pt"
  have ps: "ps = int s" and pt: "pt = int t" and st: "0 < s" "0 < t"
    using assms(1,2) by (simp_all add: s_def t_def)
  have sq: "t * t * (s * s) = s * t * (s * t)" by (simp add: mult_ac)
  have len: "length (elems C) = n * n"
    using assms(3-5) by (simp add: wf_ndarray_def)
  have small: "pv_rearrange C (int s) (int t) = Inl IndexError \<and>
      prox_grad_robust_kron_pca la C (int s) (int t) lambda_L lambda_S num_iter tau = Inl IndexError \<and>
      prox_grad_robust_toeplitz_kron_pca la C (int s) (int t) lambda_L lambda_S tau' tol max_iter
        stop_cond_interval = Inl IndexError" if "n < s * t"
  proof -
    from that st have "n * n < s * t * (s * t)" by (intro mult_strict_mono) simp_all
    then have r: "pv_rearrange C (int s) (int t) = Inl IndexError"
      using len by (simp add: pv_rearrange_short sq)
    obtain P where "build_P (int t) = Inr P" using build_P_shape [OF st(2)] by blast
    with r show ?thesis
      by (simp add: prox_grad_robust_kron_pca_def prox_grad_robust_toeplitz_kron_pca_def)
  qed
  let ?C' = "\<lparr>nrows = s * t, ncols = s * t, elems = take (s * t * (s * t)) (elems C)\<rparr>"
  have large: "(\<exists>R. pv_rearrange C (int s) (int t) = Inr R) \<and>
      pv_rearrange C (int s) (int t) = pv_rearrange ?C' (int s) (int t) \<and>
      prox_grad_robust_kron_pca la C (int s) (int t) lambda_L lambda_S num_iter tau =
        prox_grad_robust_kron_pca la ?C' (int s) (int t) lambda_L lambda_S num_iter tau \<and>
      prox_grad_robust_toeplitz_kron_pca la C (int s) (int t) lambda_L lambda_S tau' tol max_iter
        stop_cond_interval =
        prox_grad_robust_toeplitz_kron_pca la ?C' (int s) (int t) lambda_L lambda_S tau' tol max_iter
          stop_cond_interval" if "s * t < n"
  proof -
    from that have "s * t * (s * t) \<le> n * n" by (intro mult_mono) simp_all
    then have le: "t * t * (s * s) \<le> length (elems C)" using len by (simp add: sq)
    have eq: "pv_rearrange C (int s) (int t) = pv_rearrange ?C' (int s) (int t)"
      by (rule pv_rearrange_truncate [OF le])
    show ?thesis
      unfolding prox_grad_robust_kron_pca_def prox_grad_robust_toeplitz_kron_pca_def eq [symmetric]
      using pv_rearrange_enough [OF le] by simp
  qed
  show ?thesis
    unfolding ps pt pv_int_facts using small large by blast
qed

text \<open>
  The claim as stated fails: a 2-by-2 input with \<open>ps = pt = 1\<close> is accepted, and the solver
  returns an estimate computed from its first entry alone.
\<close>

theorem solver_shape_mismatch_counterexample:
  "nrows \<lparr>nrows = 2, ncols = 2, elems = [1, 2, 3, 4 :: real]\<rparr> \<noteq> nat (1 * 1) \<and>
   prox_grad_robust_kron_pca linalg_1x1 \<lparr>nrows = 2, ncols = 2, elems = [1, 2, 3, 4]\<rparr> 1 1 0 0 1
     (Scalar 1) = Inr \<lparr>nrows = 1, ncols = 1, elems = [1]\<rparr>"
  by (simp add: prox_grad_robust_kron_pca_def pv_rearrange_1x1 pv_rearrange_inv_1x1
      soft_sv_threshold_1x1 arith_1x1 soft_threshold_def Let_def)

theorem solver_shape_mismatch_witness:
  "(1::int) \<le> 2 \<and> (1::int) \<le> 1 \<and> wf_ndarray \<lparr>nrows = 1, ncols = 1, elems = [1 :: real]\<rparr> \<and>
   (1::nat) \<noteq> nat (2 * 1) \<and>
   pv_rearrange \<lparr>nrows = 1, ncols = 1, elems = [1 :: real]\<rparr> 2 1 = Inl IndexError \<and>
   prox_grad_robust_kron_pca linalg_1x1 \<lparr>nrows = 1, ncols = 1, elems = [1]\<rparr> 2 1 0 0 1 (Scalar 1) =
     Inl IndexError \<and>
   prox_grad_robust_toeplitz_kron_pca linalg_1x1 \<lparr>nrows = 1, ncols = 1, elems = [1]\<rparr> 2 1 0 0
     (1 / 10) (1 / 10 ^ 8) 1 20 = Inl IndexError"
  using solver_shape_mismatch [of 2 1 "\<lparr>nrows = 1, ncols = 1, elems = [1 :: real]\<rparr>" 1
      linalg_1x1 0 0 1 "Scalar 1" "1 / 10" "1 / 10 ^ 8" 1 20]
  by (simp add: wf_ndarray_def)

section \<open>Configurations and diagnostics\<close>

lemma toeplitz_example_one_pass:
  "prox_grad_robust_toeplitz_kron_pca linalg_1x1 \<lparr>nrows = 1, ncols = 1, elems = [1]\<rparr> 1 1 lambda_L 0
     (1 / 10) (1 / 10 ^ 8) 1 20 =
   Inr (\<lparr>nrows = 1, ncols = 1, elems = [max (1 - 1 / 10 * lambda_L) 0]\<rparr>,
        (if max (1 - 1 / 10 * lambda_L) 0 = 0 then 0 else 1), 0)"
  by (simp add: prox_grad_robust_toeplitz_kron_pca_def build_P_1 pv_rearrange_1x1
      pv_rearrange_inv_1x1 soft_sv_threshold_1x1 arith_1x1 toeplitz_1x1 soft_threshold_def
      sum_index_arrays_def linalg_1x1_def [THEN arg_cong, of np_matrix_rank] Let_def)

text \<open>
  Claim C8, as amended. The code validates nothing; what fails, fails in the library
  calls it makes first. A non-positive \<open>pt\<close> or a negative \<open>ps\<close> makes the
  Toeplitz-constrained solver fail with ValueError whatever its other arguments are;
  the cross-validation driver fails with ZeroDivisionError for a fold count of zero,
  with ValueError for a negative one, and with ValueError for such \<open>ps\<close>, \<open>pt\<close>; the
  grid-search driver fails in each of these cases. An iteration cap of at least one
  that is below the convergence-check interval is not an error: on an input with enough
  entries the solver returns a result.
\<close>

theorem invalid_configuration:
  "(pt \<le> 0 \<or> ps < 0 \<longrightarrow>
      prox_grad_robust_toeplitz_kron_pca la C ps pt lambda_L lambda_S tau tol max_iter
        stop_cond_interval = Inl ValueError) \<and>
   (num_folds = 0 \<longrightarrow>
      cross_validate_toeplitz_fit la X ps pt lambda_L lambda_S num_folds tau tol max_iter
        stop_cond_interval = Inl ZeroDivisionError) \<and>
   (num_folds < 0 \<longrightarrow>
      cross_validate_toeplitz_fit la X ps pt lambda_L lambda_S num_folds tau tol max_iter
        stop_cond_interval = Inl ValueError) \<and>
   (0 < num_folds \<and> (pt \<le> 0 \<or> ps < 0) \<longrightarrow>
      cross_validate_toeplitz_fit la X ps pt lambda_L lambda_S num_folds tau tol max_iter
        stop_cond_interval = Inl ValueError) \<and>
   (num_folds \<le> 0 \<or> pt \<le> 0 \<or> ps < 0 \<longrightarrow>
      (\<exists>e. regularize_cov la X ps pt lambda_S_vals lambda_L_vals num_folds tau tol max_iter
              stop_cond_interval = Inl e)) \<and>
   (1 \<le> ps \<and> 1 \<le> pt \<and> nat (pt * pt) * nat (ps * ps) \<le> length (elems C) \<and>
    svd_conforms la (nat (2 * pt - 1)) (nat (ps * ps)) \<and> 1 \<le> max_iter \<and>
    max_iter < stop_cond_interval \<longrightarrow>
      (\<exists>res. prox_grad_robust_toeplitz_kron_pca la C ps pt lambda_L lambda_S tau tol max_iter
                stop_cond_interval = Inr res))"
proof (intro conjI impI)
  assume "pt \<le> 0 \<or> ps < 0"
  then show "prox_grad_robust_toeplitz_kron_pca la C ps pt lambda_L lambda_S tau tol max_iter
        stop_cond_interval = Inl ValueError"
    by (rule toeplitz_solver_bad_dims)
next
  assume "num_folds = 0"
  then show "cross_validate_toeplitz_fit la X ps pt lambda_L lambda_S num_folds tau tol max_iter
        stop_cond_interval = Inl ZeroDivisionError"
    by (rule cross_validate_bad_config(1))
next
  assume "num_folds < 0"
  then show "cross_validate_toeplitz_fit la X ps pt lambda_L lambda_S num_folds tau tol max_iter
        stop_cond_interval = Inl ValueError"
    by (rule cross_validate_bad_config(2))
next
  assume "0 < num_folds \<and> (pt \<le> 0 \<or> ps < 0)"
  then show "cross_validate_toeplitz_fit la X ps pt lambda_L lambda_S num_folds tau tol max_iter
        stop_cond_interval = Inl ValueError"
    by (simp add: cross_validate_bad_config(3))
next
  assume "num_folds \<le> 0 \<or> pt \<le> 0 \<or> ps < 0"
  then show "\<exists>e. regularize_cov la X ps pt lambda_S_vals lambda_L_vals num_folds tau tol max_iter
              stop_cond_interval = Inl e"
    by (rule regularize_cov_bad_config)
next
  assume a: "1 \<le> ps \<and> 1 \<le> pt \<and> nat (pt * pt) * nat (ps * ps) \<le> length (elems C) \<and>
    svd_conforms la (nat (2 * pt - 1)) (nat (ps * ps)) \<and> 1 \<le> max_iter \<and>
    max_iter < stop_cond_interval"
  define s t where "s = nat ps" and "t = nat pt"
  have ps: "ps = int s" and pt: "pt = int t" and st: "0 < s" "0 < t"
    using a by (simp_all add: s_def t_def)
  have n: "nat (2 * int t - 1) = 2 * t - 1"
    using st by (simp add: nat_mult_distrib nat_diff_distrib')
  have "stop_cond_interval \<noteq> 0" using a by linarith
  moreover have "t * t * (s * s) \<le> length (elems C)" "svd_conforms la (2 * t - 1) (s * s)"
    using a unfolding ps pt pv_int_facts n by simp_all
  ultimately show "\<exists>res. prox_grad_robust_toeplitz_kron_pca la C ps pt lambda_L lambda_S tau tol
      max_iter stop_cond_interval = Inr res"
    unfolding ps pt using st a by (intro toeplitz_solver_returns) simp_all
qed

text \<open>
  The claim as stated fails: with an iteration cap of 1 and a check interval of 20 the
  solver returns normally.
\<close>

theorem invalid_configuration_counterexample:
  "(1::int) < 20 \<and>
   prox_grad_robust_toeplitz_kron_pca linalg_1x1 \<lparr>nrows = 1, ncols = 1, elems = [1]\<rparr> 1 1 0 0
     (1 / 10) (1 / 10 ^ 8) 1 20 = Inr (\<lparr>nrows = 1, ncols = 1, elems = [1]\<rparr>, 1, 0)"
  using toeplitz_example_one_pass [of 0] by simp

theorem invalid_configuration_witness:
  "prox_grad_robust_toeplitz_kron_pca linalg_1x1 \<lparr>nrows = 1, ncols = 1, elems = [1]\<rparr> 1 0 0 0
     (1 / 10) (1 / 10 ^ 8) 1 20 = Inl ValueError \<and>
   cross_validate_toeplitz_fit linalg_1x1 \<lparr>nrows = 4, ncols = 1, elems = [1, - 1, 1, - 1]\<rparr> 1 1 0 0 0
     (1 / 10) (1 / 10 ^ 8) 1 20 = Inl ZeroDivisionError \<and>
   cross_validate_toeplitz_fit linalg_1x1 \<lparr>nrows = 4, ncols = 1, elems = [1, - 1, 1, - 1]\<rparr> 1 1 0 0 (- 1)
     (1 / 10) (1 / 10 ^ 8) 1 20 = Inl ValueError \<and>
   (\<exists>res. prox_grad_robust_toeplitz_kron_pca linalg_1x1 \<lparr>nrows = 1, ncols = 1, elems = [1]\<rparr> 1 1 0 0
     (1 / 10) (1 / 10 ^ 8) 1 20 = Inr res)"
  using invalid_configuration [where pt = 0 and ps = 1 and la = linalg_1x1
      and C = "\<lparr>nrows = 1, ncols = 1, elems = [1]\<rparr>" and lambda_L = 0 and lambda_S = 0
      and tau = "1 / 10" and tol = "1 / 10 ^ 8" and max_iter = 1 and stop_cond_interval = 20]
    invalid_configuration [where pt = 1 and ps = 1 and la = linalg_1x1
      and X = "\<lparr>nrows = 4, ncols = 1, elems = [1, - 1, 1, - 1]\<rparr>" and lambda_L = 0 and lambda_S = 0
      and tau = "1 / 10" and tol = "1 / 10 ^ 8" and max_iter = 1 and stop_cond_interval = 20
      and num_folds = 0]
    invalid_configuration [where pt = 1 and ps = 1 and la = linalg_1x1
      and C = "\<lparr>nrows = 1, ncols = 1, elems = [1]\<rparr>"
      and X = "\<lparr>nrows = 4, ncols = 1, elems = [1, - 1, 1, - 1]\<rparr>" and lambda_L = 0 and lambda_S = 0
      and tau = "1 / 10" and tol = "1 / 10 ^ 8" and max_iter = 1 and stop_cond_interval = 20
      and num_folds = "- 1"]
    svd_conforms_1x1
  by simp

lemma sqrt_25: "sqrt 25 = 5"
  by (rule real_sqrt_unique) simp_all

lemma upt_4: "[0..<4] = [0, 1, 2, 3::nat]"
  by code_simp

lemma row4: "tabulate (Suc 0) 4 f = \<lparr>nrows = Suc 0, ncols = 4, elems = [f 0 0, f 0 1, f 0 2, f 0 3]\<rparr>"
  by (simp add: tabulate_def upt_4)

lemma pv_rearrange_2_1:
  "pv_rearrange \<lparr>nrows = 2, ncols = 2, elems = [a, b, c, d]\<rparr> 2 1 =
     Inr \<lparr>nrows = Suc 0, ncols = 4, elems = [a, c, b, d]\<rparr>"
  using pv_rearrange_example [of a b c d] by simp

lemma pv_permutation_2_1: "pv_permutation 2 1 = Inr ([0, 2, 1, 3], [0, 2, 1, 3])"
  by code_simp

lemma pv_rearrange_inv_2_1:
  "pv_rearrange_inv \<lparr>nrows = r, ncols = k, elems = [a, c, b, d]\<rparr> 2 1 =
     Inr \<lparr>nrows = 2, ncols = 2, elems = [a, b, c, d]\<rparr>"
  by (simp add: pv_rearrange_inv_def pv_permutation_2_1 take_indices_def reshape_def)

lemma svd_row:
  "scipy_svd linalg_row \<lparr>nrows = Suc 0, ncols = 4, elems = [1, 2, 2, 4]\<rparr> =
     (\<lparr>nrows = 1, ncols = 1, elems = [1]\<rparr>, [5],
      \<lparr>nrows = 1, ncols = 4, elems = [1 / 5, 2 / 5, 2 / 5, 4 / 5]\<rparr>)"
  by (simp add: linalg_row_def sqrt_25 Let_def)

lemma first_pass_svt:
  "soft_sv_threshold linalg_row \<lparr>nrows = Suc 0, ncols = 4, elems = [1, 2, 2, 4]\<rparr> 1 =
     Inr \<lparr>nrows = Suc 0, ncols = 4, elems = [4 / 5, 8 / 5, 8 / 5, 16 / 5]\<rparr>"
  by (simp add: soft_sv_threshold_def svd_row dot_def diag_nd_def tabulate_1x1 row4 entry_def)

lemma sqrt_81_4: "sqrt (81 / 4) = 9 / 2"
  by (rule real_sqrt_unique) (simp_all add: power2_eq_square)

lemma second_pass_svt:
  "soft_sv_threshold linalg_row \<lparr>nrows = Suc 0, ncols = 4, elems = [9 / 10, 9 / 5, 9 / 5, 18 / 5]\<rparr> 1 =
     Inr \<lparr>nrows = Suc 0, ncols = 4, elems = [7 / 10, 7 / 5, 7 / 5, 14 / 5]\<rparr>"
  by (simp add: soft_sv_threshold_def linalg_row_def dot_def diag_nd_def tabulate_1x1 row4 entry_def
      power_divide sqrt_81_4 Let_def)

lemma arith_row4:
  "add_nd \<lparr>nrows = Suc 0, ncols = 4, elems = [a, b, c, d]\<rparr>
     \<lparr>nrows = Suc 0, ncols = 4, elems = [a', b', c', d']\<rparr> =
     \<lparr>nrows = Suc 0, ncols = 4, elems = [a + a', b + b', c + c', d + d']\<rparr>"
  "sub_nd \<lparr>nrows = Suc 0, ncols = 4, elems = [a, b, c, d]\<rparr>
     \<lparr>nrows = Suc 0, ncols = 4, elems = [a', b', c', d']\<rparr> =
     \<lparr>nrows = Suc 0, ncols = 4, elems = [a - a', b - b', c - c', d - d']\<rparr>"
  "scale_nd x \<lparr>nrows = Suc 0, ncols = 4, elems = [a, b, c, d]\<rparr> =
     \<lparr>nrows = Suc 0, ncols = 4, elems = [x * a, x * b, x * c, x * d]\<rparr>"
  "zeros (Suc 0) 4 = \<lparr>nrows = Suc 0, ncols = 4, elems = [0, 0, 0, 0 :: real]\<rparr>"
  "dot \<lparr>nrows = Suc 0, ncols = Suc 0, elems = [p]\<rparr> \<lparr>nrows = Suc 0, ncols = 4, elems = [a, b, c, d]\<rparr> =
     Inr \<lparr>nrows = Suc 0, ncols = 4, elems = [p * a, p * b, p * c, p * d]\<rparr>"
  "threshold_rows 1 tau lambda_S \<lparr>nrows = Suc 0, ncols = 4, elems = [a, b, c, d]\<rparr>
     \<lparr>nrows = Suc 0, ncols = 4, elems = [a', b', c', d']\<rparr> \<lparr>nrows = Suc 0, ncols = 4, elems = zs\<rparr> =
     \<lparr>nrows = Suc 0, ncols = 4,
       elems = [soft_threshold (tau * lambda_S) (a - a'), soft_threshold (tau * lambda_S) (b - b'),
                soft_threshold (tau * lambda_S) (c - c'), soft_threshold (tau * lambda_S) (d - d')]\<rparr>"
  by (simp_all add: add_nd_def sub_nd_def scale_nd_def map_nd_def zeros_def dot_def
      threshold_rows_def set_row_def row_of_def row4 entry_def upt_4 Let_def)

lemma nonzero_row4:
  "a \<noteq> 0 \<Longrightarrow> b \<noteq> 0 \<Longrightarrow> c \<noteq> 0 \<Longrightarrow> d \<noteq> 0 \<Longrightarrow>
   nonzero \<lparr>nrows = Suc 0, ncols = 4, elems = [a, b, c, d]\<rparr> = ([0, 0, 0, 0], [0, 1, 2, 3])"
  by (simp add: nonzero_def upt_4 Let_def)

lemma toeplitz_example_row:
  "prox_grad_robust_toeplitz_kron_pca linalg_row \<lparr>nrows = 2, ncols = 2, elems = [1, 2, 2, 4]\<rparr> 2 1 2 0
     (1 / 2) (1 / 10 ^ 8) 2 20 =
     Inr (\<lparr>nrows = 2, ncols = 2, elems = [4 / 5, 8 / 5, 8 / 5, 16 / 5]\<rparr>, 1, 3 / 2)"
  using first_pass_svt second_pass_svt
  by (simp add: prox_grad_robust_toeplitz_kron_pca_def build_P_1 pv_rearrange_2_1
      pv_rearrange_inv_2_1 arith_row4 toeplitz_1x1 soft_threshold_def nonzero_row4
      sum_index_arrays_def linalg_row_def [THEN arg_cong, of np_matrix_rank]
      upt_rec [of _ "numeral _"] Let_def)








text \<open>
  Claim C3 does not hold of the code: \<^verbatim>\<open>np.sum(np.nonzero(S_tilde))\<close> adds up the row and
  column indices of the nonzero entries instead of counting them. On the 1-by-1
  covariance \<open>[[1]]\<close> with \<open>lambda_L = 1\<close>, \<open>lambda_S = 0\<close>, \<open>tau = 1/2\<close> and two passes the
  loop ends with \<open>S_tilde = [[1/4]]\<close>, whose only entry is nonzero (fraction 1), and the
  solver returns the sparsity 0. On the covariance \<open>[[1, 2], [2, 4]]\<close> with \<open>ps = 2\<close>,
  \<open>pt = 1\<close>, \<open>lambda_L = 2\<close>, \<open>lambda_S = 0\<close>, \<open>tau = 1/2\<close> and two passes all four entries of
  \<open>S_tilde\<close> are nonzero and the solver returns the sparsity \<open>(0 + 1 + 2 + 3)/4 = 3/2\<close>,
  outside \<open>[0, 1]\<close>.
\<close>

theorem toeplitz_sparsity_example:
  "toeplitz_iterations linalg_1x1 \<lparr>nrows = 1, ncols = 1, elems = [1]\<rparr>
     \<lparr>nrows = 1, ncols = 1, elems = [1]\<rparr> 1 1 1 0 (1 / 2) (1 / 10 ^ 8) 20 [0..<nat 2]
     (\<lparr>nrows = 1, ncols = 1, elems = [1]\<rparr>, \<lparr>nrows = 1, ncols = 1, elems = [0]\<rparr>,
      \<lparr>nrows = 1, ncols = 1, elems = [1]\<rparr>, None) =
     Inr (\<lparr>nrows = 1, ncols = 1, elems = [3 / 4]\<rparr>, \<lparr>nrows = 1, ncols = 1, elems = [1 / 4]\<rparr>,
          \<lparr>nrows = 1, ncols = 1, elems = [1 / 4]\<rparr>, Some \<lparr>nrows = 1, ncols = 1, elems = [1 / 2]\<rparr>) \<and>
   prox_grad_robust_toeplitz_kron_pca linalg_1x1 \<lparr>nrows = 1, ncols = 1, elems = [1]\<rparr> 1 1 1 0
     (1 / 2) (1 / 10 ^ 8) 2 20 = Inr (\<lparr>nrows = 1, ncols = 1, elems = [1 / 2]\<rparr>, 1, 0) \<and>
   prox_grad_robust_toeplitz_kron_pca linalg_row \<lparr>nrows = 2, ncols = 2, elems = [1, 2, 2, 4]\<rparr> 2 1 2 0
     (1 / 2) (1 / 10 ^ 8) 2 20 =
     Inr (\<lparr>nrows = 2, ncols = 2, elems = [4 / 5, 8 / 5, 8 / 5, 16 / 5]\<rparr>, 1, 3 / 2)"
  using toeplitz_example_sparsity toeplitz_example_row
  by (simp add: pv_rearrange_inv_1x1 soft_sv_threshold_1x1 arith_1x1
      toeplitz_1x1 soft_threshold_def upt_rec [of _ "numeral _"] Let_def)

section \<open>The folds of the cross-validation driver\<close>

lemma rows_between_tabulate:
  assumes "a \<le> b" "b \<le> nrows X"
  shows "rows_between X a b = tabulate (b - a) (ncols X) (\<lambda>i j. entry X (a + i) j)"
  using assms unfolding rows_between_def slice_def by (simp add: min_absorb1)

lemma fold_block_bounds:
  assumes "0 < K" "i < K"
  shows "i * (n div K) \<le> (i + 1) * (n div K)" "(i + 1) * (n div K) \<le> (n::nat)"
proof -
  show "i * (n div K) \<le> (i + 1) * (n div K)" by simp
  have "(i + 1) * (n div K) \<le> K * (n div K)" using assms(2) by (intro mult_le_mono1) simp
  also have "\<dots> \<le> n" by (simp add: mult.commute)
  finally show "(i + 1) * (n div K) \<le> n" .
qed

lemma X_test_of_entries:
  assumes "(i + 1) * fs \<le> nrows X"
  shows "nrows (X_test_of X fs i) = fs" "ncols (X_test_of X fs i) = ncols X"
    "a < fs \<Longrightarrow> j < ncols X \<Longrightarrow> entry (X_test_of X fs i) a j = entry X (i * fs + a) j"
proof -
  have t: "X_test_of X fs i = tabulate fs (ncols X) (\<lambda>a j. entry X (i * fs + a) j)"
    unfolding X_test_of_def using rows_between_tabulate [of "i * fs" "(i + 1) * fs" X] assms by simp
  show "nrows (X_test_of X fs i) = fs" "ncols (X_test_of X fs i) = ncols X"
    "a < fs \<Longrightarrow> j < ncols X \<Longrightarrow> entry (X_test_of X fs i) a j = entry X (i * fs + a) j"
    unfolding t by simp_all
qed

lemma entry_concatenate_rows:
  assumes "wf_ndarray A" "ncols B = ncols A" "j < ncols A"
  shows "entry (concatenate_rows A B) k j =
     (if k < nrows A then entry A k j else entry B (k - nrows A) j)"
proof (cases "k < nrows A")
  case True
  then have "k * ncols A + j < length (elems A)"
    using assms(1,3) by (simp add: wf_ndarray_def flat_index_less)
  then show ?thesis using True by (simp add: entry_def concatenate_rows_def nth_append)
next
  case False
  then have "nrows A \<le> k" by simp
  then have "nrows A * ncols A \<le> k * ncols A" by (rule mult_le_mono1)
  moreover have "length (elems A) = nrows A * ncols A"
    using assms(1) by (simp only: wf_ndarray_def)
  ultimately have "\<not> k * ncols A + j < length (elems A)" by linarith
  moreover have "k * ncols A + j - nrows A * ncols A = (k - nrows A) * ncols A + j"
    using False by (simp add: diff_mult_distrib)
  ultimately show ?thesis
    using False assms(1,2) by (simp add: entry_def concatenate_rows_def nth_append wf_ndarray_def)
qed

lemma X_train_of_entries:
  assumes "(i + 1) * fs \<le> nrows X"
  shows "nrows (X_train_of X fs i) = nrows X - fs" "ncols (X_train_of X fs i) = ncols X"
    "k < nrows X - fs \<Longrightarrow> j < ncols X \<Longrightarrow>
       entry (X_train_of X fs i) k j = entry X (if k < i * fs then k else k + fs) j"
proof -
  have le: "i * fs \<le> nrows X" using assms by simp
  have A: "rows_between X 0 (i * fs) = tabulate (i * fs) (ncols X) (\<lambda>a j. entry X a j)"
    using rows_between_tabulate [of 0 "i * fs" X] le by simp
  have B: "rows_between X ((i + 1) * fs) (nrows X) =
      tabulate (nrows X - (i + 1) * fs) (ncols X) (\<lambda>a j. entry X ((i + 1) * fs + a) j)"
    using rows_between_tabulate [of "(i + 1) * fs" "nrows X" X] assms by simp
  show "nrows (X_train_of X fs i) = nrows X - fs"
    unfolding X_train_of_def A B using assms by (simp add: concatenate_rows_def)
  show "ncols (X_train_of X fs i) = ncols X"
    unfolding X_train_of_def A B by (simp add: concatenate_rows_def)
  assume k: "k < nrows X - fs" and j: "j < ncols X"
  show "entry (X_train_of X fs i) k j = entry X (if k < i * fs then k else k + fs) j"
  proof (cases "k < i * fs")
    case True
    then show ?thesis
      unfolding X_train_of_def A B using j by (simp add: entry_concatenate_rows)
  next
    case False
    then have "k - i * fs < nrows X - (i + 1) * fs" using k assms by simp
    moreover have "(i + 1) * fs + (k - i * fs) = k + fs" using False by simp
    ultimately show ?thesis
      unfolding X_train_of_def A B using j False
      by (simp add: entry_concatenate_rows add.commute)
  qed
qed

lemma entry_gram:
  "a < ncols X \<Longrightarrow> b < ncols X \<Longrightarrow>
   entry (gram X) a b = (\<Sum>k<nrows X. entry X k a * entry X k b)"
  by (simp add: gram_def interv_sum_list_conv_sum_set_nat atLeast0LessThan)

lemma entry_map_nd:
  "wf_ndarray M \<Longrightarrow> a < nrows M \<Longrightarrow> b < ncols M \<Longrightarrow> entry (map_nd f M) a b = f (entry M a b)"
  by (simp add: entry_def map_nd_def wf_ndarray_def flat_index_less)

lemma entry_cov_test_of:
  assumes "a < ncols X" "b < ncols X"
  shows "entry (cov_test_of X) a b = (\<Sum>k<nrows X. entry X k a * entry X k b) / real (nrows X)"
proof -
  have "wf_ndarray (gram X)" "nrows (gram X) = ncols X" "ncols (gram X) = ncols X"
    by (simp_all add: gram_def)
  then show ?thesis
    unfolding cov_test_of_def divide_by_def using assms by (simp add: entry_map_nd entry_gram)
qed

lemma entry_cov_train_of:
  assumes "a < ncols X" "b < ncols X"
  shows "entry (cov_train_of X) a b =
     (\<Sum>k<nrows X. (entry X k a - column_mean X a) * (entry X k b - column_mean X b)) / real (nrows X)"
proof -
  let ?Xc = "subtract_row X (column_means X)"
  have mu: "column_means X ! j = column_mean X j" if "j < ncols X" for j
    using that by (simp add: column_means_def column_mean_def interv_sum_list_conv_sum_set_nat
        atLeast0LessThan)
  have sh: "nrows ?Xc = nrows X" "ncols ?Xc = ncols X" by (simp_all add: subtract_row_def)
  have e: "entry ?Xc k j = entry X k j - column_mean X j" if "k < nrows X" "j < ncols X" for k j
    using that by (simp add: subtract_row_def mu)
  have g: "wf_ndarray (gram ?Xc)" "nrows (gram ?Xc) = ncols X" "ncols (gram ?Xc) = ncols X"
    by (simp_all add: gram_def sh)
  have "entry (cov_train_of X) a b = (\<Sum>k<nrows X. entry ?Xc k a * entry ?Xc k b) / real (nrows X)"
    unfolding cov_train_of_def divide_by_def Let_def
    using assms g by (simp add: entry_map_nd entry_gram sh)
  also have "(\<Sum>k<nrows X. entry ?Xc k a * entry ?Xc k b) =
      (\<Sum>k<nrows X. (entry X k a - column_mean X a) * (entry X k b - column_mean X b))"
    by (rule sum.cong) (simp_all add: e assms)
  finally show ?thesis .
qed

lemma ndarray_eqI:
  assumes "wf_ndarray A" "wf_ndarray B" "nrows A = nrows B" "ncols A = ncols B"
    and "\<And>i j. i < nrows B \<Longrightarrow> j < ncols B \<Longrightarrow> entry A i j = entry B i j"
  shows "A = (B :: 'a ndarray)"
proof -
  have "A = tabulate (nrows A) (ncols A) (entry A)" using assms(1) by (simp add: tabulate_entry_id)
  also have "\<dots> = tabulate (nrows B) (ncols B) (entry B)"
    unfolding assms(3,4) by (rule tabulate_cong) (rule assms(5))
  also have "\<dots> = B" using assms(2) by (rule tabulate_entry_id)
  finally show ?thesis .
qed

lemma X_test_of_spec:
  assumes "(i + 1) * fs \<le> nrows X"
  shows "X_test_of X fs i = spec_test_block X fs i"
proof -
  have t: "X_test_of X fs i = tabulate fs (ncols X) (\<lambda>a j. entry X (i * fs + a) j)"
    unfolding X_test_of_def using rows_between_tabulate [of "i * fs" "(i + 1) * fs" X] assms by simp
  have "spec_test_block X fs i = tabulate fs (ncols X) (\<lambda>k j. entry X ([i * fs..<(i + 1) * fs] ! k) j)"
    by (simp add: spec_test_block_def spec_select_rows_def spec_test_rows_def)
  also have "\<dots> = tabulate fs (ncols X) (\<lambda>a j. entry X (i * fs + a) j)"
    by (rule tabulate_cong) simp
  finally show ?thesis using t by simp
qed

lemma spec_train_rows_split:
  assumes "(i + 1) * fs \<le> n"
  shows "spec_train_rows n fs i = [0..<i * fs] @ [(i + 1) * fs..<n]"
proof -
  have le: "i * fs \<le> (i + 1) * fs" by simp
  have "[0..<n] = [0..<(i + 1) * fs + (n - (i + 1) * fs)]" using assms by simp
  also have "\<dots> = [0..<(i + 1) * fs] @ [(i + 1) * fs..<(i + 1) * fs + (n - (i + 1) * fs)]"
    by (rule upt_add_eq_append) simp
  also have "[0..<(i + 1) * fs] = [0..<i * fs + fs]" by (simp add: add.commute)
  also have "\<dots> = [0..<i * fs] @ [i * fs..<i * fs + fs]"
    by (rule upt_add_eq_append) simp
  finally have s: "[0..<n] = [0..<i * fs] @ [i * fs..<(i + 1) * fs] @ [(i + 1) * fs..<n]"
    using assms by (simp add: add.commute)
  have a: "filter (\<lambda>r. r \<notin> set [i * fs..<(i + 1) * fs]) [0..<i * fs] = [0..<i * fs]"
    by (rule filter_True) simp
  have b: "filter (\<lambda>r. r \<notin> set [i * fs..<(i + 1) * fs]) [i * fs..<(i + 1) * fs] = []"
    by (rule filter_False) simp
  have c: "filter (\<lambda>r. r \<notin> set [i * fs..<(i + 1) * fs]) [(i + 1) * fs..<n] = [(i + 1) * fs..<n]"
    by (rule filter_True) simp
  show ?thesis
    unfolding spec_train_rows_def spec_test_rows_def
    by (subst s) (simp only: filter_append a b c append_Nil)
qed

lemma wf_concatenate_rows:
  "wf_ndarray A \<Longrightarrow> wf_ndarray B \<Longrightarrow> ncols B = ncols A \<Longrightarrow> wf_ndarray (concatenate_rows A B)"
  by (simp add: wf_ndarray_def concatenate_rows_def add_mult_distrib)

lemma X_train_of_spec:
  assumes "(i + 1) * fs \<le> nrows X"
  shows "X_train_of X fs i = spec_train_block X fs i"
proof (rule ndarray_eqI)
  note tr = X_train_of_entries [OF assms]
  have len: "length (spec_train_rows (nrows X) fs i) = nrows X - fs"
    using assms by (simp add: spec_train_rows_split [OF assms])
  show "wf_ndarray (X_train_of X fs i)"
    unfolding X_train_of_def rows_between_def slice_def
    by (rule wf_concatenate_rows) simp_all
  show "wf_ndarray (spec_train_block X fs i)"
    by (simp add: spec_train_block_def spec_select_rows_def)
  show "nrows (X_train_of X fs i) = nrows (spec_train_block X fs i)"
    by (simp add: tr(1) spec_train_block_def spec_select_rows_def len)
  show "ncols (X_train_of X fs i) = ncols (spec_train_block X fs i)"
    by (simp add: tr(2) spec_train_block_def spec_select_rows_def)
  fix k j assume "k < nrows (spec_train_block X fs i)" "j < ncols (spec_train_block X fs i)"
  then have k: "k < nrows X - fs" and j: "j < ncols X"
    by (simp_all add: spec_train_block_def spec_select_rows_def len)
  have nth: "spec_train_rows (nrows X) fs i ! k = (if k < i * fs then k else k + fs)"
  proof (cases "k < i * fs")
    case True
    then show ?thesis by (simp add: spec_train_rows_split [OF assms] nth_append)
  next
    case False
    then have "k - i * fs < nrows X - (i + 1) * fs" using k assms by simp
    moreover have "(i + 1) * fs + (k - i * fs) = k + fs" using False by simp
    ultimately show ?thesis using False
      by (simp add: spec_train_rows_split [OF assms] nth_append)
  qed
  have "entry (spec_train_block X fs i) k j = entry X (spec_train_rows (nrows X) fs i ! k) j"
    using k j by (simp add: spec_train_block_def spec_select_rows_def len)
  then show "entry (X_train_of X fs i) k j = entry (spec_train_block X fs i) k j"
    using tr(3) [OF k j] nth by simp
qed

lemma cov_test_of_spec: "cov_test_of B = spec_raw_cov B"
  unfolding cov_test_of_def divide_by_def gram_def map_nd_tabulate spec_raw_cov_def
  by (rule tabulate_cong) (simp add: interv_sum_list_conv_sum_set_nat atLeast0LessThan)

lemma cov_train_of_spec: "cov_train_of B = spec_centered_cov B"
proof -
  have mu: "column_means B ! j = column_mean B j" if "j < ncols B" for j
    using that by (simp add: column_means_def column_mean_def interv_sum_list_conv_sum_set_nat
        atLeast0LessThan)
  have sh: "nrows (subtract_row B (column_means B)) = nrows B"
    "ncols (subtract_row B (column_means B)) = ncols B" by (simp_all add: subtract_row_def)
  have e: "entry (subtract_row B (column_means B)) k j = entry B k j - column_mean B j"
    if "k < nrows B" "j < ncols B" for k j
    using that by (simp add: subtract_row_def mu)
  show ?thesis
    unfolding cov_train_of_def Let_def divide_by_def gram_def map_nd_tabulate spec_centered_cov_def sh
  proof (rule tabulate_cong)
    fix a b assume ab: "a < ncols B" "b < ncols B"
    have "(\<Sum>k\<leftarrow>[0..<nrows B]. entry (subtract_row B (column_means B)) k a *
                                 entry (subtract_row B (column_means B)) k b) =
          (\<Sum>k<nrows B. entry (subtract_row B (column_means B)) k a *
                                 entry (subtract_row B (column_means B)) k b)"
      by (simp add: interv_sum_list_conv_sum_set_nat atLeast0LessThan)
    also have "\<dots> = (\<Sum>k<nrows B. (entry B k a - column_mean B a) * (entry B k b - column_mean B b))"
      by (rule sum.cong) (simp_all add: e ab)
    finally show "(\<Sum>k\<leftarrow>[0..<nrows B]. entry (subtract_row B (column_means B)) k a *
                                 entry (subtract_row B (column_means B)) k b) / real (nrows B) =
       (\<Sum>k<nrows B. (entry B k a - column_mean B a) * (entry B k b - column_mean B b)) / real (nrows B)"
      by simp
  qed
qed

lemma cv_fold_spec:
  assumes "(i + 1) * fs \<le> nrows X"
  shows "cv_fold la X ps pt lambda_L lambda_S tau tol max_iter stop_cond_interval fs i =
     (case prox_grad_robust_toeplitz_kron_pca la (spec_centered_cov (spec_train_block X fs i))
             ps pt lambda_L lambda_S tau tol max_iter stop_cond_interval of
        Inl e \<Rightarrow> Inl e
      | Inr (cov_reg_train, rank, sparsity) \<Rightarrow>
          if sum_abs cov_reg_train < 1 / 10 ^ 12 then Inr (NegInf, 0, 0)
          else
            (case np_inv la cov_reg_train of
               Inl e \<Rightarrow> Inl e
             | Inr cov_reg_train_inv \<Rightarrow>
                 (case dot cov_reg_train_inv (spec_raw_cov (spec_test_block X fs i)) of
                    Inl e \<Rightarrow> Inl e
                  | Inr inv_cov_test \<Rightarrow>
                      Inr (Fin (- (1 / 2) * real fs *
                                 (real (ncols X) * ln (2 * pi) + snd (np_slogdet la cov_reg_train) +
                                  trace_nd inv_cov_test)),
                           real rank, sparsity))))"
proof -
  have n: "nrows (spec_test_block X fs i) = fs"
    by (simp add: spec_test_block_def spec_select_rows_def spec_test_rows_def)
  show ?thesis
    unfolding cv_fold_def Let_def X_test_of_spec [OF assms] X_train_of_spec [OF assms]
      cov_test_of_spec cov_train_of_spec n ..
qed

lemma cv_loop_frame:
  assumes "cv_loop body ks (l0, r0, s0) = Inr (l, r, s)" "j \<notin> set ks"
  shows "l ! j = l0 ! j \<and> r ! j = r0 ! j \<and> s ! j = s0 ! j \<and>
         length l = length l0 \<and> length r = length r0 \<and> length s = length s0"
  using assms
proof (induction ks arbitrary: l0 r0 s0)
  case Nil
  then show ?case by simp
next
  case (Cons k ks)
  from Cons.prems(1) obtain a b c where b: "body k = Inr (a, b, c)"
    and rest: "cv_loop body ks (l0[k := a], r0[k := b], s0[k := c]) = Inr (l, r, s)"
    by (auto split: sum.splits)
  from Cons.prems(2) have "j \<notin> set ks" "j \<noteq> k" by auto
  with Cons.IH [OF rest] show ?case by simp
qed

lemma cv_loop_results:
  assumes "cv_loop body ks (l0, r0, s0) = Inr (l, r, s)" "distinct ks"
    and "\<forall>k\<in>set ks. k < length l0 \<and> k < length r0 \<and> k < length s0"
  shows "\<forall>k\<in>set ks. body k = Inr (l ! k, r ! k, s ! k)"
  using assms
proof (induction ks arbitrary: l0 r0 s0)
  case Nil
  then show ?case by simp
next
  case (Cons k ks)
  from Cons.prems(1) obtain a b c where b: "body k = Inr (a, b, c)"
    and rest: "cv_loop body ks (l0[k := a], r0[k := b], s0[k := c]) = Inr (l, r, s)"
    by (auto split: sum.splits)
  have k: "k \<notin> set ks" "distinct ks" using Cons.prems(2) by simp_all
  have len: "k < length l0" "k < length r0" "k < length s0" using Cons.prems(3) by simp_all
  have "l ! k = a \<and> r ! k = b \<and> s ! k = c"
    using cv_loop_frame [OF rest k(1)] len by simp
  with b have here: "body k = Inr (l ! k, r ! k, s ! k)" by simp
  have "\<forall>k\<in>set ks. body k = Inr (l ! k, r ! k, s ! k)"
    by (rule Cons.IH [OF rest k(2)]) (use Cons.prems(3) in simp)
  with here show ?case by simp
qed

text \<open>
  Claim C5, as amended. For a table with \<open>n\<close> rows, a fold count \<open>K \<ge> 1\<close> and a fold
  \<open>i < K\<close>, the driver works with the fold size \<open>n div K\<close>. The test rows of fold \<open>i\<close> are
  the block of the rows \<open>[i * (n div K), (i+1) * (n div K))\<close>; the training rows are the
  complement of that block in the whole table, in order, the remainder rows from
  \<open>K * (n div K)\<close> on included: these are in no test block and in every training block.
  Where the test block has rows, the test covariance is the sum of products of the raw
  test rows divided by their count; where the training block has rows, the training
  covariance is the sum of products of the mean-centred training rows divided by their
  count. Where both blocks have rows, the pass of the loop for fold \<open>i\<close> calls the solver on
  that covariance of the mean-centred training block, scores its fit against that second
  moment of the raw test block with the test count as the number of samples, and what the
  pass yields is what the driver, when it returns, holds at index \<open>i\<close> of its three result
  arrays.
\<close>

theorem cross_validation_folds:
  assumes "wf_ndarray X" and "1 \<le> num_folds" and "cv_iter < nat num_folds"
    and "fold_size = nat (int (nrows X) div num_folds)"
  shows "cross_validate_toeplitz_fit la X ps pt lambda_L lambda_S num_folds tau tol max_iter
           stop_cond_interval =
         cv_loop (cv_fold la X ps pt lambda_L lambda_S tau tol max_iter stop_cond_interval fold_size)
           [0..<nat num_folds]
           (replicate (nat num_folds) (Fin 0), replicate (nat num_folds) 0, replicate (nat num_folds) 0) \<and>
         X_test_of X fold_size cv_iter = spec_test_block X fold_size cv_iter \<and>
         X_train_of X fold_size cv_iter = spec_train_block X fold_size cv_iter \<and>
         nrows (X_test_of X fold_size cv_iter) = fold_size \<and>
         ncols (X_test_of X fold_size cv_iter) = ncols X \<and>
         (\<forall>a<fold_size. \<forall>j<ncols X.
            entry (X_test_of X fold_size cv_iter) a j = entry X (cv_iter * fold_size + a) j) \<and>
         nrows (X_train_of X fold_size cv_iter) = nrows X - fold_size \<and>
         ncols (X_train_of X fold_size cv_iter) = ncols X \<and>
         (\<forall>k<nrows X - fold_size. \<forall>j<ncols X.
            entry (X_train_of X fold_size cv_iter) k j =
            entry X (if k < cv_iter * fold_size then k else k + fold_size) j) \<and>
         (\<forall>r. nat num_folds * fold_size \<le> r \<and> r < nrows X \<longrightarrow>
            (\<forall>i<nat num_folds. \<not> (i * fold_size \<le> r \<and> r < (i + 1) * fold_size)) \<and>
            (\<forall>i<nat num_folds. r \<notin> set (spec_test_rows fold_size i)) \<and>
            r \<in> set (spec_train_rows (nrows X) fold_size cv_iter) \<and>
            r - fold_size < nrows X - fold_size \<and>
            (\<forall>j<ncols X. entry (X_train_of X fold_size cv_iter) (r - fold_size) j = entry X r j)) \<and>
         (0 < fold_size \<longrightarrow>
            cov_test_of (X_test_of X fold_size cv_iter) =
              spec_raw_cov (spec_test_block X fold_size cv_iter) \<and>
            (\<forall>a<ncols X. \<forall>b<ncols X.
               entry (cov_test_of (X_test_of X fold_size cv_iter)) a b =
               (\<Sum>k<fold_size. entry (X_test_of X fold_size cv_iter) k a *
                                 entry (X_test_of X fold_size cv_iter) k b) / real fold_size)) \<and>
         (fold_size < nrows X \<longrightarrow>
            cov_train_of (X_train_of X fold_size cv_iter) =
              spec_centered_cov (spec_train_block X fold_size cv_iter) \<and>
            (\<forall>a<ncols X. \<forall>b<ncols X.
               entry (cov_train_of (X_train_of X fold_size cv_iter)) a b =
               (\<Sum>k<nrows X - fold_size.
                  (entry (X_train_of X fold_size cv_iter) k a -
                     column_mean (X_train_of X fold_size cv_iter) a) *
                  (entry (X_train_of X fold_size cv_iter) k b -
                     column_mean (X_train_of X fold_size cv_iter) b)) /
               real (nrows X - fold_size))) \<and>
         (0 < fold_size \<and> fold_size < nrows X \<longrightarrow>
            cv_fold la X ps pt lambda_L lambda_S tau tol max_iter stop_cond_interval fold_size cv_iter =
              (case prox_grad_robust_toeplitz_kron_pca la
                      (spec_centered_cov (spec_train_block X fold_size cv_iter))
                      ps pt lambda_L lambda_S tau tol max_iter stop_cond_interval of
                 Inl e \<Rightarrow> Inl e
               | Inr (cov_reg_train, rank, sparsity) \<Rightarrow>
                   if sum_abs cov_reg_train < 1 / 10 ^ 12 then Inr (NegInf, 0, 0)
                   else
                     (case np_inv la cov_reg_train of
                        Inl e \<Rightarrow> Inl e
                      | Inr cov_reg_train_inv \<Rightarrow>
                          (case dot cov_reg_train_inv
                                  (spec_raw_cov (spec_test_block X fold_size cv_iter)) of
                             Inl e \<Rightarrow> Inl e
                           | Inr inv_cov_test \<Rightarrow>
                               Inr (Fin (- (1 / 2) * real fold_size *
                                          (real (ncols X) * ln (2 * pi) +
                                           snd (np_slogdet la cov_reg_train) + trace_nd inv_cov_test)),
                                    real rank, sparsity)))) \<and>
            (\<forall>log_likelihood_vals rank_vals sparsity_vals.
               cross_validate_toeplitz_fit la X ps pt lambda_L lambda_S num_folds tau tol max_iter
                 stop_cond_interval = Inr (log_likelihood_vals, rank_vals, sparsity_vals) \<longrightarrow>
               cv_fold la X ps pt lambda_L lambda_S tau tol max_iter stop_cond_interval fold_size
                 cv_iter =
               Inr (log_likelihood_vals ! cv_iter, rank_vals ! cv_iter, sparsity_vals ! cv_iter)))"
proof -
  define K where "K = nat num_folds"
  have K: "0 < K" "num_folds = int K" using assms(2) by (simp_all add: K_def)
  have fs: "fold_size = nrows X div K"
    unfolding assms(4) K(2) by (simp add: zdiv_int [symmetric])
  have i: "cv_iter < K" using assms(3) by (simp add: K_def)
  have blk: "(cv_iter + 1) * fold_size \<le> nrows X"
    unfolding fs using fold_block_bounds(2) [OF K(1) i] .
  have all: "K * fold_size \<le> nrows X" unfolding fs by simp
  have drv: "cross_validate_toeplitz_fit la X ps pt lambda_L lambda_S num_folds tau tol max_iter
           stop_cond_interval =
         cv_loop (cv_fold la X ps pt lambda_L lambda_S tau tol max_iter stop_cond_interval fold_size)
           [0..<nat num_folds]
           (replicate (nat num_folds) (Fin 0), replicate (nat num_folds) 0, replicate (nat num_folds) 0)"
    unfolding cross_validate_toeplitz_fit_def Let_def assms(4) using assms(2) by simp
  note te = X_test_of_entries [OF blk]
  note tr = X_train_of_entries [OF blk]
  note tes = X_test_of_spec [OF blk]
  note trs = X_train_of_spec [OF blk]
  have rem: "(\<forall>i<K. \<not> (i * fold_size \<le> r \<and> r < (i + 1) * fold_size)) \<and>
            (\<forall>i<K. r \<notin> set (spec_test_rows fold_size i)) \<and>
            r \<in> set (spec_train_rows (nrows X) fold_size cv_iter) \<and>
            r - fold_size < nrows X - fold_size \<and>
            (\<forall>j<ncols X. entry (X_train_of X fold_size cv_iter) (r - fold_size) j = entry X r j)"
    if r: "K * fold_size \<le> r" "r < nrows X" for r
  proof -
    have out: "\<not> (i' * fold_size \<le> r \<and> r < (i' + 1) * fold_size)" if "i' < K" for i'
    proof -
      from that have "(i' + 1) * fold_size \<le> K * fold_size" by (intro mult_le_mono1) simp
      with r show ?thesis by linarith
    qed
    then have out': "r \<notin> set (spec_test_rows fold_size i')" if "i' < K" for i'
      using that by (simp add: spec_test_rows_def)
    have inn: "r \<in> set (spec_train_rows (nrows X) fold_size cv_iter)"
      using out' [OF i] r(2) by (simp add: spec_train_rows_def)
    have "1 * fold_size \<le> K * fold_size" using K(1) by (intro mult_le_mono1) simp
    then have "fold_size \<le> K * fold_size" by (simp only: mult_1)
    then have ge: "fold_size \<le> r" using r(1) by (rule order_trans)
    with r have lt: "r - fold_size < nrows X - fold_size" by linarith
    have e: "entry (X_train_of X fold_size cv_iter) (r - fold_size) j = entry X r j"
      if j: "j < ncols X" for j
    proof -
      have "(cv_iter + 1) * fold_size \<le> K * fold_size" using i by (intro mult_le_mono1) simp
      then have "\<not> r - fold_size < cv_iter * fold_size" using r by simp
      then show ?thesis using tr(3) [OF lt j] ge by simp
    qed
    from out out' inn lt e show ?thesis by blast
  qed
  have ct: "\<forall>a<ncols X. \<forall>b<ncols X.
               entry (cov_test_of (X_test_of X fold_size cv_iter)) a b =
               (\<Sum>k<fold_size. entry (X_test_of X fold_size cv_iter) k a *
                                 entry (X_test_of X fold_size cv_iter) k b) / real fold_size"
    using entry_cov_test_of [of _ "X_test_of X fold_size cv_iter"] te(1,2) by simp
  have cr: "\<forall>a<ncols X. \<forall>b<ncols X.
               entry (cov_train_of (X_train_of X fold_size cv_iter)) a b =
               (\<Sum>k<nrows X - fold_size.
                  (entry (X_train_of X fold_size cv_iter) k a -
                     column_mean (X_train_of X fold_size cv_iter) a) *
                  (entry (X_train_of X fold_size cv_iter) k b -
                     column_mean (X_train_of X fold_size cv_iter) b)) /
               real (nrows X - fold_size)"
    using entry_cov_train_of [of _ "X_train_of X fold_size cv_iter"] tr(1,2) by simp
  have cts: "cov_test_of (X_test_of X fold_size cv_iter) =
      spec_raw_cov (spec_test_block X fold_size cv_iter)"
    unfolding tes by (rule cov_test_of_spec)
  have crs: "cov_train_of (X_train_of X fold_size cv_iter) =
      spec_centered_cov (spec_train_block X fold_size cv_iter)"
    unfolding trs by (rule cov_train_of_spec)
  note fold = cv_fold_spec [OF blk, of la ps pt lambda_L lambda_S tau tol max_iter stop_cond_interval]
  have stored: "cv_fold la X ps pt lambda_L lambda_S tau tol max_iter stop_cond_interval fold_size
                 cv_iter =
               Inr (log_likelihood_vals ! cv_iter, rank_vals ! cv_iter, sparsity_vals ! cv_iter)"
    if "cross_validate_toeplitz_fit la X ps pt lambda_L lambda_S num_folds tau tol max_iter
          stop_cond_interval = Inr (log_likelihood_vals, rank_vals, sparsity_vals)"
    for log_likelihood_vals rank_vals sparsity_vals
  proof -
    from that have loop: "cv_loop
        (cv_fold la X ps pt lambda_L lambda_S tau tol max_iter stop_cond_interval fold_size)
        [0..<K] (replicate K (Fin 0), replicate K 0, replicate K 0) =
        Inr (log_likelihood_vals, rank_vals, sparsity_vals)"
      unfolding drv K_def .
    have "\<forall>k\<in>set [0..<K].
        cv_fold la X ps pt lambda_L lambda_S tau tol max_iter stop_cond_interval fold_size k =
          Inr (log_likelihood_vals ! k, rank_vals ! k, sparsity_vals ! k)"
      by (rule cv_loop_results [OF loop]) simp_all
    with i show ?thesis by simp
  qed
  show ?thesis
    unfolding K_def [symmetric]
    apply (intro conjI impI)
    subgoal using drv unfolding K_def .
    subgoal by (rule tes)
    subgoal by (rule trs)
    subgoal by (rule te(1))
    subgoal by (rule te(2))
    subgoal using te(3) by blast
    subgoal by (rule tr(1))
    subgoal by (rule tr(2))
    subgoal using tr(3) by blast
    subgoal using rem by blast
    subgoal by (rule cts)
    subgoal by (rule ct)
    subgoal by (rule crs)
    subgoal by (rule cr)
    subgoal by (rule fold)
    subgoal using stored by blast
    done
qed

text \<open>
  The claim as stated fails: with three rows and two folds, row 2 is beyond
  \<open>K * (n div K) = 2\<close> and is in the training block of fold 0.
\<close>

theorem cross_validation_folds_counterexample:
  "nat 2 * nat (int 3 div 2) \<le> 2 \<and> (2::nat) < 3 \<and>
   X_train_of \<lparr>nrows = 3, ncols = 1, elems = [10, 20, 30]\<rparr> (nat (int 3 div 2)) 0 =
     \<lparr>nrows = 2, ncols = 1, elems = [20, 30]\<rparr>"
  by (simp add: X_train_of_def rows_between_def slice_def concatenate_rows_def tabulate_def
      entry_def upt_rec [of _ "numeral _"])

section \<open>Degenerate fits\<close>






section \<open>A run of the two drivers\<close>

lemma folds_of_example:
  "X_train_of \<lparr>nrows = 4, ncols = Suc 0, elems = [1, - 1, 1, - 1]\<rparr> 2 0 =
     \<lparr>nrows = 2, ncols = Suc 0, elems = [1, - 1]\<rparr>"
  "X_train_of \<lparr>nrows = 4, ncols = Suc 0, elems = [1, - 1, 1, - 1]\<rparr> 2 (Suc 0) =
     \<lparr>nrows = 2, ncols = Suc 0, elems = [1, - 1]\<rparr>"
  "X_test_of \<lparr>nrows = 4, ncols = Suc 0, elems = [1, - 1, 1, - 1]\<rparr> 2 0 =
     \<lparr>nrows = 2, ncols = Suc 0, elems = [1, - 1]\<rparr>"
  "X_test_of \<lparr>nrows = 4, ncols = Suc 0, elems = [1, - 1, 1, - 1]\<rparr> 2 (Suc 0) =
     \<lparr>nrows = 2, ncols = Suc 0, elems = [1, - 1]\<rparr>"
  by (simp_all add: X_train_of_def X_test_of_def rows_between_def slice_def concatenate_rows_def
      tabulate_def entry_def upt_rec [of _ "numeral _"] eval_nat_numeral)

lemma covs_of_example:
  "cov_train_of \<lparr>nrows = 2, ncols = Suc 0, elems = [1, - 1]\<rparr> =
     \<lparr>nrows = Suc 0, ncols = Suc 0, elems = [1]\<rparr>"
  "cov_test_of \<lparr>nrows = 2, ncols = Suc 0, elems = [1, - 1]\<rparr> =
     \<lparr>nrows = Suc 0, ncols = Suc 0, elems = [1]\<rparr>"
  "cov_train_of \<lparr>nrows = 4, ncols = Suc 0, elems = [1, - 1, 1, - 1]\<rparr> =
     \<lparr>nrows = Suc 0, ncols = Suc 0, elems = [1]\<rparr>"
  by (simp_all add: cov_train_of_def cov_test_of_def subtract_row_def column_means_def gram_def
      divide_by_def map_nd_def tabulate_def entry_def upt_rec [of _ "numeral _"] eval_nat_numeral)

lemmas toeplitz_one_pass = toeplitz_example_one_pass [unfolded One_nat_def]

lemma cv_fold_example_degenerate:
  "cv_fold linalg_1x1 \<lparr>nrows = 4, ncols = Suc 0, elems = [1, - 1, 1, - 1]\<rparr> 1 1 10 0
     (1 / 10) (1 / 10 ^ 8) 1 20 2 0 = Inr (NegInf, 0, 0)"
  "cv_fold linalg_1x1 \<lparr>nrows = 4, ncols = Suc 0, elems = [1, - 1, 1, - 1]\<rparr> 1 1 10 0
     (1 / 10) (1 / 10 ^ 8) 1 20 2 (Suc 0) = Inr (NegInf, 0, 0)"
  using toeplitz_one_pass [of 10]
  by (simp_all add: cv_fold_def folds_of_example covs_of_example sum_abs_def Let_def)

lemma cv_fold_example_regular:
  "cv_fold linalg_1x1 \<lparr>nrows = 4, ncols = Suc 0, elems = [1, - 1, 1, - 1]\<rparr> 1 1 0 0
     (1 / 10) (1 / 10 ^ 8) 1 20 2 0 = Inr (Fin (- (ln (2 * pi) + 1)), 1, 0)"
  "cv_fold linalg_1x1 \<lparr>nrows = 4, ncols = Suc 0, elems = [1, - 1, 1, - 1]\<rparr> 1 1 0 0
     (1 / 10) (1 / 10 ^ 8) 1 20 2 (Suc 0) = Inr (Fin (- (ln (2 * pi) + 1)), 1, 0)"
  using toeplitz_one_pass [of 0]
  by (simp_all add: cv_fold_def folds_of_example covs_of_example sum_abs_def
      linalg_1x1_def [THEN arg_cong, of np_inv] linalg_1x1_def [THEN arg_cong, of np_slogdet]
      toeplitz_1x1 trace_nd_def Let_def add_divide_distrib)

lemma cross_validate_example:
  "cross_validate_toeplitz_fit linalg_1x1 \<lparr>nrows = 4, ncols = Suc 0, elems = [1, - 1, 1, - 1]\<rparr> 1 1 10 0 2
     (1 / 10) (1 / 10 ^ 8) 1 20 = Inr ([NegInf, NegInf], [0, 0], [0, 0])"
  "cross_validate_toeplitz_fit linalg_1x1 \<lparr>nrows = 4, ncols = Suc 0, elems = [1, - 1, 1, - 1]\<rparr> 1 1 0 0 2
     (1 / 10) (1 / 10 ^ 8) 1 20 =
     Inr ([Fin (- (ln (2 * pi) + 1)), Fin (- (ln (2 * pi) + 1))], [1, 1], [0, 0])"
  using cv_fold_example_degenerate cv_fold_example_regular
  by (simp_all add: cross_validate_toeplitz_fit_def upt_rec [of _ "numeral _"] eval_nat_numeral Let_def)

lemma spec_blocks_example:
  "spec_test_block \<lparr>nrows = 3, ncols = Suc 0, elems = [1, 5, 3]\<rparr> (Suc 0) (Suc 0) =
     \<lparr>nrows = Suc 0, ncols = Suc 0, elems = [5]\<rparr>"
  "spec_train_block \<lparr>nrows = 3, ncols = Suc 0, elems = [1, 5, 3]\<rparr> (Suc 0) (Suc 0) =
     \<lparr>nrows = 2, ncols = Suc 0, elems = [1, 3]\<rparr>"
  "spec_test_block \<lparr>nrows = 3, ncols = Suc 0, elems = [1, 5, 3]\<rparr> (Suc 0) 0 =
     \<lparr>nrows = Suc 0, ncols = Suc 0, elems = [1]\<rparr>"
  "spec_train_block \<lparr>nrows = 3, ncols = Suc 0, elems = [1, 5, 3]\<rparr> (Suc 0) 0 =
     \<lparr>nrows = 2, ncols = Suc 0, elems = [5, 3]\<rparr>"
  by (simp_all add: spec_test_block_def spec_train_block_def spec_select_rows_def
      spec_test_rows_def spec_train_rows_def tabulate_def entry_def
      upt_rec [of _ "numeral _"] eval_nat_numeral)

lemma spec_covs_example:
  "spec_centered_cov \<lparr>nrows = 2, ncols = Suc 0, elems = [1, 3]\<rparr> =
     \<lparr>nrows = Suc 0, ncols = Suc 0, elems = [1]\<rparr>"
  "spec_centered_cov \<lparr>nrows = 2, ncols = Suc 0, elems = [5, 3]\<rparr> =
     \<lparr>nrows = Suc 0, ncols = Suc 0, elems = [1]\<rparr>"
  "spec_raw_cov \<lparr>nrows = Suc 0, ncols = Suc 0, elems = [5]\<rparr> =
     \<lparr>nrows = Suc 0, ncols = Suc 0, elems = [25]\<rparr>"
  "spec_raw_cov \<lparr>nrows = Suc 0, ncols = Suc 0, elems = [1]\<rparr> =
     \<lparr>nrows = Suc 0, ncols = Suc 0, elems = [1]\<rparr>"
  by (simp_all add: spec_centered_cov_def spec_raw_cov_def column_mean_def tabulate_def entry_def
      eval_nat_numeral)

lemma folds_of_example_3:
  "X_train_of \<lparr>nrows = 3, ncols = Suc 0, elems = [1, 5, 3]\<rparr> (Suc 0) 0 =
     \<lparr>nrows = 2, ncols = Suc 0, elems = [5, 3]\<rparr>"
  "X_train_of \<lparr>nrows = 3, ncols = Suc 0, elems = [1, 5, 3]\<rparr> (Suc 0) (Suc 0) =
     \<lparr>nrows = 2, ncols = Suc 0, elems = [1, 3]\<rparr>"
  "X_test_of \<lparr>nrows = 3, ncols = Suc 0, elems = [1, 5, 3]\<rparr> (Suc 0) 0 =
     \<lparr>nrows = Suc 0, ncols = Suc 0, elems = [1]\<rparr>"
  "X_test_of \<lparr>nrows = 3, ncols = Suc 0, elems = [1, 5, 3]\<rparr> (Suc 0) (Suc 0) =
     \<lparr>nrows = Suc 0, ncols = Suc 0, elems = [5]\<rparr>"
  by (simp_all add: X_train_of_def X_test_of_def rows_between_def slice_def concatenate_rows_def
      tabulate_def entry_def upt_rec [of _ "numeral _"] eval_nat_numeral)

lemma covs_of_example_3:
  "cov_train_of \<lparr>nrows = 2, ncols = Suc 0, elems = [5, 3]\<rparr> =
     \<lparr>nrows = Suc 0, ncols = Suc 0, elems = [1]\<rparr>"
  "cov_train_of \<lparr>nrows = 2, ncols = Suc 0, elems = [1, 3]\<rparr> =
     \<lparr>nrows = Suc 0, ncols = Suc 0, elems = [1]\<rparr>"
  "cov_test_of \<lparr>nrows = Suc 0, ncols = Suc 0, elems = [1]\<rparr> =
     \<lparr>nrows = Suc 0, ncols = Suc 0, elems = [1]\<rparr>"
  "cov_test_of \<lparr>nrows = Suc 0, ncols = Suc 0, elems = [5]\<rparr> =
     \<lparr>nrows = Suc 0, ncols = Suc 0, elems = [25]\<rparr>"
  by (simp_all add: cov_train_of_def cov_test_of_def subtract_row_def column_means_def gram_def
      divide_by_def map_nd_def tabulate_def entry_def upt_rec [of _ "numeral _"] eval_nat_numeral)

lemma cv_fold_example_3:
  "cv_fold linalg_1x1 \<lparr>nrows = 3, ncols = Suc 0, elems = [1, 5, 3]\<rparr> 1 1 0 0
     (1 / 10) (1 / 10 ^ 8) 1 20 (Suc 0) 0 = Inr (Fin (- (1 / 2) * (ln (2 * pi) + 1)), 1, 0)"
  "cv_fold linalg_1x1 \<lparr>nrows = 3, ncols = Suc 0, elems = [1, 5, 3]\<rparr> 1 1 0 0
     (1 / 10) (1 / 10 ^ 8) 1 20 (Suc 0) (Suc 0) = Inr (Fin (- (1 / 2) * (ln (2 * pi) + 25)), 1, 0)"
  using toeplitz_one_pass [of 0]
  by (simp_all add: cv_fold_def folds_of_example_3 covs_of_example_3 sum_abs_def
      linalg_1x1_def [THEN arg_cong, of np_inv] linalg_1x1_def [THEN arg_cong, of np_slogdet]
      toeplitz_1x1 trace_nd_def Let_def)

lemma cross_validate_example_3:
  "cross_validate_toeplitz_fit linalg_1x1 \<lparr>nrows = 3, ncols = Suc 0, elems = [1, 5, 3]\<rparr> 1 1 0 0 2
     (1 / 10) (1 / 10 ^ 8) 1 20 =
     Inr ([Fin (- (1 / 2) * (ln (2 * pi) + 1)), Fin (- (1 / 2) * (ln (2 * pi) + 25))], [1, 1], [0, 0])"
  using cv_fold_example_3
  by (simp add: cross_validate_toeplitz_fit_def upt_rec [of _ "numeral _"] eval_nat_numeral Let_def)

theorem cross_validation_folds_witness:
  "wf_ndarray \<lparr>nrows = 3, ncols = 1, elems = [1, 5, 3 :: real]\<rparr> \<and> (1::int) \<le> 2 \<and> (1::nat) < nat 2 \<and>
   (1::nat) = nat (int (nrows \<lparr>nrows = 3, ncols = 1, elems = [1, 5, 3 :: real]\<rparr>) div 2) \<and>
   X_test_of \<lparr>nrows = 3, ncols = 1, elems = [1, 5, 3]\<rparr> 1 1 = \<lparr>nrows = 1, ncols = 1, elems = [5]\<rparr> \<and>
   X_train_of \<lparr>nrows = 3, ncols = 1, elems = [1, 5, 3]\<rparr> 1 1 = \<lparr>nrows = 2, ncols = 1, elems = [1, 3]\<rparr> \<and>
   cov_test_of (X_test_of \<lparr>nrows = 3, ncols = 1, elems = [1, 5, 3]\<rparr> 1 1) =
     \<lparr>nrows = 1, ncols = 1, elems = [25]\<rparr> \<and>
   cov_train_of (X_train_of \<lparr>nrows = 3, ncols = 1, elems = [1, 5, 3]\<rparr> 1 1) =
     \<lparr>nrows = 1, ncols = 1, elems = [1]\<rparr> \<and>
   cv_fold linalg_1x1 \<lparr>nrows = 3, ncols = 1, elems = [1, 5, 3]\<rparr> 1 1 0 0 (1 / 10) (1 / 10 ^ 8) 1 20 1 1 =
     Inr (Fin (- (1 / 2) * (ln (2 * pi) + 25)), 1, 0) \<and>
   cross_validate_toeplitz_fit linalg_1x1 \<lparr>nrows = 3, ncols = 1, elems = [1, 5, 3]\<rparr> 1 1 0 0 2
     (1 / 10) (1 / 10 ^ 8) 1 20 =
     Inr ([Fin (- (1 / 2) * (ln (2 * pi) + 1)), Fin (- (1 / 2) * (ln (2 * pi) + 25))], [1, 1], [0, 0]) \<and>
   cv_fold linalg_1x1 \<lparr>nrows = 3, ncols = 1, elems = [1, 5, 3]\<rparr> 1 1 0 0 (1 / 10) (1 / 10 ^ 8) 1 20 1 1 =
     Inr ([Fin (- (1 / 2) * (ln (2 * pi) + 1)), Fin (- (1 / 2) * (ln (2 * pi) + 25))] ! 1,
          [1, 1] ! 1, [0, 0] ! 1)"
proof -
  let ?X = "\<lparr>nrows = 3, ncols = 1, elems = [1, 5, 3 :: real]\<rparr>"
  have h: "wf_ndarray ?X" "(1::int) \<le> 2" "(1::nat) < nat 2" "(1::nat) = nat (int (nrows ?X) div 2)"
    by (simp_all add: wf_ndarray_def)
  have g: "(0::nat) < 1 \<and> (1::nat) < nrows ?X" "(0::nat) < 1" "(1::nat) < nrows ?X" by simp_all
  note t = cross_validation_folds [OF h, of linalg_1x1 1 1 0 0 "1 / 10" "1 / 10 ^ 8" 1 20]
  from t have te: "X_test_of ?X 1 1 = spec_test_block ?X 1 1"
    and tr: "X_train_of ?X 1 1 = spec_train_block ?X 1 1" by blast+
  from t g(2) have ct: "cov_test_of (X_test_of ?X 1 1) = spec_raw_cov (spec_test_block ?X 1 1)"
    by blast
  from t g(3) have cr: "cov_train_of (X_train_of ?X 1 1) = spec_centered_cov (spec_train_block ?X 1 1)"
    by blast
  from t g(1) have f: "cv_fold linalg_1x1 ?X 1 1 0 0 (1 / 10) (1 / 10 ^ 8) 1 20 1 1 =
      (case prox_grad_robust_toeplitz_kron_pca linalg_1x1
              (spec_centered_cov (spec_train_block ?X 1 1)) 1 1 0 0 (1 / 10) (1 / 10 ^ 8) 1 20 of
         Inl e \<Rightarrow> Inl e
       | Inr (cov_reg_train, rank, sparsity) \<Rightarrow>
           if sum_abs cov_reg_train < 1 / 10 ^ 12 then Inr (NegInf, 0, 0)
           else
             (case np_inv linalg_1x1 cov_reg_train of
                Inl e \<Rightarrow> Inl e
              | Inr cov_reg_train_inv \<Rightarrow>
                  (case dot cov_reg_train_inv (spec_raw_cov (spec_test_block ?X 1 1)) of
                     Inl e \<Rightarrow> Inl e
                   | Inr inv_cov_test \<Rightarrow>
                       Inr (Fin (- (1 / 2) * real (1::nat) *
                                  (real (ncols ?X) * ln (2 * pi) +
                                   snd (np_slogdet linalg_1x1 cov_reg_train) + trace_nd inv_cov_test)),
                            real rank, sparsity))))"
    by blast
  have v: "(case prox_grad_robust_toeplitz_kron_pca linalg_1x1
              (spec_centered_cov (spec_train_block ?X 1 1)) 1 1 0 0 (1 / 10) (1 / 10 ^ 8) 1 20 of
         Inl e \<Rightarrow> Inl e
       | Inr (cov_reg_train, rank, sparsity) \<Rightarrow>
           if sum_abs cov_reg_train < 1 / 10 ^ 12 then Inr (NegInf, 0, 0)
           else
             (case np_inv linalg_1x1 cov_reg_train of
                Inl e \<Rightarrow> Inl e
              | Inr cov_reg_train_inv \<Rightarrow>
                  (case dot cov_reg_train_inv (spec_raw_cov (spec_test_block ?X 1 1)) of
                     Inl e \<Rightarrow> Inl e
                   | Inr inv_cov_test \<Rightarrow>
                       Inr (Fin (- (1 / 2) * real (1::nat) *
                                  (real (ncols ?X) * ln (2 * pi) +
                                   snd (np_slogdet linalg_1x1 cov_reg_train) + trace_nd inv_cov_test)),
                            real rank, sparsity)))) =
       Inr (Fin (- (1 / 2) * (ln (2 * pi) + 25)), 1, 0)"
    using toeplitz_one_pass [of 0]
    by (simp add: spec_blocks_example spec_covs_example sum_abs_def
        linalg_1x1_def [THEN arg_cong, of np_inv] linalg_1x1_def [THEN arg_cong, of np_slogdet]
        toeplitz_1x1 trace_nd_def Let_def)
  have d: "cross_validate_toeplitz_fit linalg_1x1 ?X 1 1 0 0 2 (1 / 10) (1 / 10 ^ 8) 1 20 =
     Inr ([Fin (- (1 / 2) * (ln (2 * pi) + 1)), Fin (- (1 / 2) * (ln (2 * pi) + 25))], [1, 1], [0, 0])"
    using cross_validate_example_3 by simp
  from t g(1) have "\<forall>log_likelihood_vals rank_vals sparsity_vals.
      cross_validate_toeplitz_fit linalg_1x1 ?X 1 1 0 0 2 (1 / 10) (1 / 10 ^ 8) 1 20 =
        Inr (log_likelihood_vals, rank_vals, sparsity_vals) \<longrightarrow>
      cv_fold linalg_1x1 ?X 1 1 0 0 (1 / 10) (1 / 10 ^ 8) 1 20 1 1 =
        Inr (log_likelihood_vals ! 1, rank_vals ! 1, sparsity_vals ! 1)"
    by blast
  with d have st: "cv_fold linalg_1x1 ?X 1 1 0 0 (1 / 10) (1 / 10 ^ 8) 1 20 1 1 =
     Inr ([Fin (- (1 / 2) * (ln (2 * pi) + 1)), Fin (- (1 / 2) * (ln (2 * pi) + 25))] ! 1,
          [1, 1] ! 1, [0, 0] ! 1)"
    by blast
  have c: "X_test_of ?X 1 1 = \<lparr>nrows = 1, ncols = 1, elems = [5]\<rparr>"
    "X_train_of ?X 1 1 = \<lparr>nrows = 2, ncols = 1, elems = [1, 3]\<rparr>"
    "cov_test_of (X_test_of ?X 1 1) = \<lparr>nrows = 1, ncols = 1, elems = [25]\<rparr>"
    "cov_train_of (X_train_of ?X 1 1) = \<lparr>nrows = 1, ncols = 1, elems = [1]\<rparr>"
    "cv_fold linalg_1x1 ?X 1 1 0 0 (1 / 10) (1 / 10 ^ 8) 1 20 1 1 =
       Inr (Fin (- (1 / 2) * (ln (2 * pi) + 25)), 1, 0)"
    using te tr ct cr f [unfolded v] by (simp_all add: spec_blocks_example spec_covs_example)
  from h c d st show ?thesis by blast
qed


text \<open>
  Claim C2 does not hold of the code: the final call passes the loop variables
  \<open>lambda_L\<close>, \<open>lambda_S\<close>, which hold the last pair of the grids, and not the selected
  pair. On the table \<open>[[1], [-1], [1], [-1]]\<close> with \<open>lambda_L_vals = [0, 10]\<close>,
  \<open>lambda_S_vals = [0]\<close>, two folds, \<open>tau = 1/10\<close> and one pass, the mean log-likelihood
  is finite for \<open>lambda_L = 0\<close> and \<open>-\<infinity>\<close> for \<open>lambda_L = 10\<close>, so index 0 is selected; the
  driver returns the covariance \<open>[[0]]\<close> fitted with \<open>lambda_L = 10\<close>, while the fit with the
  selected pair is \<open>[[1]]\<close>.
\<close>

theorem regularize_cov_refit_example:
  "regularize_cov linalg_1x1 \<lparr>nrows = 4, ncols = 1, elems = [1, - 1, 1, - 1]\<rparr> 1 1 [0] [0, 10] 2
     (1 / 10) (1 / 10 ^ 8) 1 20 =
     Inr (\<lparr>nrows = 1, ncols = 1, elems = [0]\<rparr>,
          [[[Fin (- (ln (2 * pi) + 1)), Fin (- (ln (2 * pi) + 1))]], [[NegInf, NegInf]]],
          [[[1, 1]], [[0, 0]]], [[[0, 0]], [[0, 0]]]) \<and>
   argmax (concat (map (map mean_loglik)
     [[[Fin (- (ln (2 * pi) + 1)), Fin (- (ln (2 * pi) + 1))]], [[NegInf, NegInf]]])) = Inr 0 \<and>
   prox_grad_robust_toeplitz_kron_pca linalg_1x1
     (cov_train_of \<lparr>nrows = 4, ncols = 1, elems = [1, - 1, 1, - 1]\<rparr>) 1 1 ([0, 10] ! 0) ([0] ! 0)
     (1 / 10) (1 / 10 ^ 8) 1 20 = Inr (\<lparr>nrows = 1, ncols = 1, elems = [1]\<rparr>, 1, 0) \<and>
   prox_grad_robust_toeplitz_kron_pca linalg_1x1
     (cov_train_of \<lparr>nrows = 4, ncols = 1, elems = [1, - 1, 1, - 1]\<rparr>) 1 1 (last [0, 10]) (last [0])
     (1 / 10) (1 / 10 ^ 8) 1 20 = Inr (\<lparr>nrows = 1, ncols = 1, elems = [0]\<rparr>, 0, 0)"
  using cross_validate_example toeplitz_one_pass [of 10] toeplitz_one_pass [of 0] covs_of_example(3)
  by (simp add: regularize_cov_def argmax_def mean_loglik_def
      upt_rec [of _ "numeral _"] eval_nat_numeral Let_def)

end
